(* ===== verification/Prelude.thy ===== *)
theory Prelude
  imports Main "HOL-Library.Word" "HOL-Library.Sublist"
begin

text \<open>
  What every theory of the development shares: the collections of rules
  (\<open>frame\<close>: how an operation may change the state; \<open>go_eval\<close>: unfolding of the
  effect combinators), the names of the machine types, errors as values, and the
  generic lemmas on lists, maps and options.
\<close>

named_theorems frame \<open>introduction rules: an effectful operation respects a relation between its states\<close>
named_theorems go_eval \<open>unfolding rules of the effect combinators\<close>

subsection \<open>Types\<close>

text \<open>Go's \<open>uint64\<close>; an \<open>error\<close> value is the text its \<open>Error()\<close> method prints.\<close>

type_synonym uint64 = "64 word"
type_synonym go_error = string

lemma unat_uint64: "unat (w :: uint64) < 2 ^ 64"
  by (rule order_less_le_trans [OF unsigned_less]) simp

subsection \<open>Lists and maps\<close>

text \<open>
  A \<open>sync.Map\<close> or a Go map is iterated in an unspecified order: \<open>range_of m ks\<close> says
  that \<open>ks\<close> is one of the orders in which the keys of \<open>m\<close> may be visited.
\<close>

definition range_of :: "('k \<rightharpoonup> 'v) \<Rightarrow> 'k list \<Rightarrow> bool" where
  "range_of m ks \<longleftrightarrow> distinct ks \<and> set ks = dom m"

lemma range_of_distinct [simp]: "range_of m ks \<Longrightarrow> distinct ks"
  by (simp add: range_of_def)

lemma range_of_set [simp]: "range_of m ks \<Longrightarrow> set ks = dom m"
  by (simp add: range_of_def)

lemma range_of_Some: "range_of m ks \<Longrightarrow> k \<in> set ks \<Longrightarrow> \<exists>v. m k = Some v"
  by auto

lemma take_append_length [simp]: "take (length xs) (xs @ ys) = xs"
  by simp

lemma foldl_max_ge: "(a::int) \<le> foldl (\<lambda>m x. max m (f x)) a xs"
  by (induction xs arbitrary: a) (auto intro: order_trans [OF max.cobounded1])

lemma foldl_max_fold: "foldl (\<lambda>m x. max m (f x)) a xs = fold max (map f xs) (a::int)"
  by (induction xs arbitrary: a) (auto simp: max.commute)

lemma foldl_max_Max: "foldl (\<lambda>m x. max m (f x)) a xs = Max (insert (a::int) (set (map f xs)))"
  unfolding foldl_max_fold by (simp only: Max.set_eq_fold [symmetric] list.set)

lemma foldl_append_concat: "foldl (\<lambda>acc x. acc @ f x) a xs = a @ concat (map f xs)"
  by (induction xs arbitrary: a) auto

lemma takeWhile_neq_append:
  "c \<notin> set xs \<Longrightarrow> takeWhile (\<lambda>x. x \<noteq> c) (xs @ c # ys) = xs"
  by (induction xs) auto

lemma dropWhile_neq_append:
  "c \<notin> set xs \<Longrightarrow> dropWhile (\<lambda>x. x \<noteq> c) (xs @ c # ys) = c # ys"
  by (induction xs) auto

lemma dropWhile_neq_none: "c \<notin> set xs \<Longrightarrow> dropWhile (\<lambda>x. x \<noteq> c) xs = []"
  by (induction xs) auto

lemma takeWhile_neq_none: "c \<notin> set xs \<Longrightarrow> takeWhile (\<lambda>x. x \<noteq> c) xs = xs"
  by (induction xs) auto

lemma split_at_first:
  "c \<in> set xs \<Longrightarrow> xs = takeWhile (\<lambda>x. x \<noteq> c) xs @ c # tl (dropWhile (\<lambda>x. x \<noteq> c) xs)"
  by (induction xs) auto

end
