(* ===== verification/Machine.thy ===== *)
theory Machine
  imports Prelude
begin

text \<open>
  Transition systems: reachable states, and the interface a component offers when it
  proves an invariant (\<open>machine\<close>) and when it proves in addition that it cannot get
  stuck and cannot run for ever (\<open>live_machine\<close>).
\<close>

inductive reach :: "('s \<Rightarrow> bool) \<Rightarrow> ('s \<Rightarrow> 's \<Rightarrow> bool) \<Rightarrow> 's \<Rightarrow> bool" for init step where
  reach_init: "init s \<Longrightarrow> reach init step s"
| reach_step: "reach init step s \<Longrightarrow> step s t \<Longrightarrow> reach init step t"

inductive steps :: "('s \<Rightarrow> 's \<Rightarrow> bool) \<Rightarrow> nat \<Rightarrow> 's \<Rightarrow> 's \<Rightarrow> bool" for step where
  steps_0: "steps step 0 s s"
| steps_Suc: "step s t \<Longrightarrow> steps step n t u \<Longrightarrow> steps step (Suc n) s u"

lemma reach_steps: "steps step n s t \<Longrightarrow> reach init step s \<Longrightarrow> reach init step t"
  by (induction rule: steps.induct) (auto intro: reach_step)

locale machine =
  fixes init :: "'s \<Rightarrow> bool" and step :: "'s \<Rightarrow> 's \<Rightarrow> bool" and inv :: "'s \<Rightarrow> bool"
  assumes inv_init: "init s \<Longrightarrow> inv s"
    and inv_step: "inv s \<Longrightarrow> step s t \<Longrightarrow> inv t"
begin

lemma reach_inv: "reach init step s \<Longrightarrow> inv s"
  by (induction rule: reach.induct) (auto intro: inv_init inv_step)

lemma steps_inv: "steps step n s t \<Longrightarrow> inv s \<Longrightarrow> inv t"
  by (induction rule: steps.induct) (auto intro: inv_step)

end

locale live_machine = machine +
  fixes final :: "'s \<Rightarrow> bool" and work :: "'s \<Rightarrow> nat"
  assumes progress: "inv s \<Longrightarrow> \<not> final s \<Longrightarrow> \<exists>t. step s t"
    and decrease: "inv s \<Longrightarrow> step s t \<Longrightarrow> work t < work s"
begin

lemma run_bound: "steps step n s t \<Longrightarrow> inv s \<Longrightarrow> n + work t \<le> work s"
proof (induction rule: steps.induct)
  case (steps_Suc s t n u)
  then have "n + work u \<le> work t" and "work t < work s"
    using inv_step decrease by auto
  then show ?case by simp
qed simp

lemma reaches_final: "inv s \<Longrightarrow> \<exists>n t. steps step n s t \<and> final t"
proof (induction "work s" arbitrary: s rule: less_induct)
  case less
  show ?case
  proof (cases "final s")
    case True
    then show ?thesis by (blast intro: steps_0)
  next
    case False
    then obtain t where t: "step s t" using progress less.prems by blast
    then have "\<exists>n u. steps step n t u \<and> final u"
      using less.hyps decrease less.prems inv_step by blast
    then show ?thesis using t by (blast intro: steps_Suc)
  qed
qed

end

end
