(* ===== verification/GoMonad.thy ===== *)
theory GoMonad
  imports Prelude
begin

text \<open>
  Go code with effects, as functions from the state to an outcome and the new state. A
  call returns (\<open>Ret\<close>), panics (\<open>Panic\<close>), or never returns because it waits for a
  mutex nobody will release (\<open>Blocked\<close>); an \<open>error\<close> result is an ordinary returned value.
  The locale \<open>frame_rel\<close> is the interface between these combinators and every statement
  of the form "this operation changes the state only in such a way": a reflexive and
  transitive relation between the states before and after.
\<close>

datatype 'a res = Ret 'a | Panic string | Blocked

type_synonym ('s, 'a) prog = "'s \<Rightarrow> 'a res \<times> 's"

subsection \<open>Combinators\<close>

definition go_ret :: "'a \<Rightarrow> ('s, 'a) prog" where
  "go_ret a = (\<lambda>s. (Ret a, s))"

definition go_bind :: "('s, 'a) prog \<Rightarrow> ('a \<Rightarrow> ('s, 'b) prog) \<Rightarrow> ('s, 'b) prog" where
  "go_bind m k = (\<lambda>s. case m s of
     (Ret a, s') \<Rightarrow> k a s'
   | (Panic e, s') \<Rightarrow> (Panic e, s')
   | (Blocked, s') \<Rightarrow> (Blocked, s'))"

definition go_seq :: "('s, 'a) prog \<Rightarrow> ('s, 'b) prog \<Rightarrow> ('s, 'b) prog" where
  "go_seq m n = go_bind m (\<lambda>_. n)"

definition go_get :: "('s \<Rightarrow> 'a) \<Rightarrow> ('s, 'a) prog" where
  "go_get f = (\<lambda>s. (Ret (f s), s))"

definition go_mod :: "('s \<Rightarrow> 's) \<Rightarrow> ('s, unit) prog" where
  "go_mod f = (\<lambda>s. (Ret (), f s))"

definition go_panic :: "string \<Rightarrow> ('s, 'a) prog" where
  "go_panic e = (\<lambda>s. (Panic e, s))"

definition go_block :: "('s, 'a) prog" where
  "go_block = (\<lambda>s. (Blocked, s))"

text \<open>\<open>defer fin()\<close>: \<open>fin\<close> runs when the body returns and when it panics.\<close>

definition go_defer :: "('s, unit) prog \<Rightarrow> ('s, 'a) prog \<Rightarrow> ('s, 'a) prog" where
  "go_defer fin body = (\<lambda>s. case body s of
     (Ret a, s') \<Rightarrow> go_seq fin (go_ret a) s'
   | (Panic e, s') \<Rightarrow> go_seq fin (go_panic e) s'
   | (Blocked, s') \<Rightarrow> (Blocked, s'))"

text \<open>A \<open>for range\<close> loop with an accumulator; the body says whether to go on.\<close>

fun go_fold :: "('b \<Rightarrow> 'a \<Rightarrow> ('s, 'b) prog) \<Rightarrow> 'b \<Rightarrow> 'a list \<Rightarrow> ('s, 'b) prog" where
  "go_fold f b [] = go_ret b"
| "go_fold f b (x # xs) = go_bind (f b x) (\<lambda>b'. go_fold f b' xs)"

lemmas go_defs = go_ret_def go_bind_def go_seq_def go_get_def go_mod_def go_panic_def go_block_def

lemma go_ret_eval [go_eval]: "go_ret a s = (Ret a, s)"
  by (simp add: go_ret_def)

lemma go_get_eval [go_eval]: "go_get f s = (Ret (f s), s)"
  by (simp add: go_get_def)

lemma go_mod_eval [go_eval]: "go_mod f s = (Ret (), f s)"
  by (simp add: go_mod_def)

lemma go_panic_eval [go_eval]: "go_panic e s = (Panic e, s)"
  by (simp add: go_panic_def)

lemma go_block_eval [go_eval]: "go_block s = (Blocked, s)"
  by (simp add: go_block_def)

lemma go_bind_Ret [go_eval]: "m s = (Ret a, s') \<Longrightarrow> go_bind m k s = k a s'"
  by (simp add: go_bind_def)

lemma go_bind_get [go_eval]: "go_bind (go_get f) k s = k (f s) s"
  by (simp add: go_defs)

lemma go_bind_mod [go_eval]: "go_bind (go_mod f) k s = k () (f s)"
  by (simp add: go_defs)

lemma go_bind_ret [go_eval]: "go_bind (go_ret a) k = k a"
  by (simp add: go_defs)

lemma go_bind_panic [go_eval]: "go_bind (go_panic e) k = go_panic e"
  by (simp add: go_defs)

lemma go_bind_block [go_eval]: "go_bind go_block k = go_block"
  by (simp add: go_defs)

lemma go_seq_get [go_eval]: "go_seq (go_get f) n s = n s"
  by (simp add: go_defs)

lemma go_seq_mod [go_eval]: "go_seq (go_mod f) n s = n (f s)"
  by (simp add: go_defs)

lemma go_seq_ret [go_eval]: "go_seq (go_ret a) n = n"
  by (simp add: go_defs)

lemma go_seq_panic [go_eval]: "go_seq (go_panic e) n = go_panic e"
  by (simp add: go_defs)

lemma go_bind_assoc: "go_bind (go_bind m k) l = go_bind m (\<lambda>a. go_bind (k a) l)"
  by (auto simp: go_bind_def fun_eq_iff split: prod.splits res.splits)

lemma go_bind_seq: "go_bind (go_seq m n) k = go_seq m (go_bind n k)"
  by (simp add: go_seq_def go_bind_assoc)

lemma go_seq_assoc: "go_seq (go_seq m n) l = go_seq m (go_seq n l)"
  by (simp add: go_seq_def go_bind_assoc)

lemma go_seq_Ret [go_eval]: "m s = (Ret a, s') \<Longrightarrow> go_seq m n s = n s'"
  by (simp add: go_seq_def go_bind_def)

lemma go_bind_Blocked: "m s = (Blocked, s') \<Longrightarrow> go_bind m k s = (Blocked, s')"
  by (simp add: go_bind_def)

lemma go_seq_Blocked: "m s = (Blocked, s') \<Longrightarrow> go_seq m n s = (Blocked, s')"
  by (simp add: go_seq_def go_bind_def)

lemma go_bind_cases:
  assumes "go_bind m k s = (Ret b, s'')"
  obtains a s' where "m s = (Ret a, s')" and "k a s' = (Ret b, s'')"
  using assms by (auto simp: go_bind_def split: prod.splits res.splits)

lemma go_fold_returns:
  assumes "\<And>b x s. \<exists>b' t. f b x s = (Ret b', t)"
  shows "\<exists>b' t. go_fold f b xs s = (Ret b', t)"
proof (induction xs arbitrary: b s)
  case (Cons x xs)
  obtain b' t where "f b x s = (Ret b', t)" using assms by blast
  then show ?case using Cons.IH [of b' t] by (simp add: go_bind_Ret)
qed (simp add: go_ret_eval)

subsection \<open>Frame relations\<close>

definition keeps :: "('s \<Rightarrow> 's \<Rightarrow> bool) \<Rightarrow> ('s, 'a) prog \<Rightarrow> bool" where
  "keeps R m \<longleftrightarrow> (\<forall>s. R s (snd (m s)))"

lemma keepsI: "(\<And>s. R s (snd (m s))) \<Longrightarrow> keeps R m"
  by (simp add: keeps_def)

lemma keepsD: "keeps R m \<Longrightarrow> m s = (r, s') \<Longrightarrow> R s s'"
  by (metis keeps_def snd_conv)

lemma keeps_get_bind: "(\<And>s. R s (snd (k (f s) s))) \<Longrightarrow> keeps R (go_bind (go_get f) k)"
  by (simp add: keeps_def go_bind_get)

locale frame_rel =
  fixes R :: "'s \<Rightarrow> 's \<Rightarrow> bool"
  assumes R_refl: "R s s"
    and R_trans: "R s t \<Longrightarrow> R t u \<Longrightarrow> R s u"
begin

lemma keeps_pure [frame]:
  "keeps R (go_ret a)" "keeps R (go_get f)" "keeps R (go_panic e)" "keeps R go_block"
  by (simp_all add: keeps_def go_defs R_refl)

lemma keeps_mod: "(\<And>s. R s (f s)) \<Longrightarrow> keeps R (go_mod f)"
  by (simp add: keeps_def go_mod_def)

lemma keeps_bind [frame]:
  "keeps R m \<Longrightarrow> (\<And>a. keeps R (k a)) \<Longrightarrow> keeps R (go_bind m k)"
  unfolding keeps_def go_bind_def
  by (auto split: prod.split res.split) (metis R_trans snd_conv)+

lemma keeps_seq [frame]: "keeps R m \<Longrightarrow> keeps R n \<Longrightarrow> keeps R (go_seq m n)"
  unfolding go_seq_def by (rule keeps_bind)

lemma keeps_defer [frame]:
  assumes "keeps R fin" and "keeps R body"
  shows "keeps R (go_defer fin body)"
proof (rule keepsI)
  fix s
  obtain r s' where b: "body s = (r, s')" by (cases "body s")
  then have "R s s'" by (rule keepsD [OF assms(2)])
  moreover have "R s' (snd (go_seq fin (go_ret a) s'))" "R s' (snd (go_seq fin (go_panic e) s'))"
    for a :: 'a and e
    using keeps_seq [OF assms(1)] keeps_pure by (metis keeps_def)+
  ultimately show "R s (snd (go_defer fin body s))"
    using b by (auto simp: go_defer_def split: res.split intro: R_trans)
qed

lemma keeps_if [frame]:
  "keeps R m \<Longrightarrow> keeps R n \<Longrightarrow> keeps R (if b then m else n)"
  by simp

lemma keeps_option [frame]:
  "keeps R m \<Longrightarrow> (\<And>x. keeps R (k x)) \<Longrightarrow> keeps R (case v of None \<Rightarrow> m | Some x \<Rightarrow> k x)"
  by (cases v) auto

lemma keeps_sum [frame]:
  "(\<And>x. keeps R (k x)) \<Longrightarrow> (\<And>x. keeps R (l x)) \<Longrightarrow>
     keeps R (case u of Inl x \<Rightarrow> k x | Inr x \<Rightarrow> l x)"
  by (cases u) auto

lemma keeps_list [frame]:
  "keeps R m \<Longrightarrow> (\<And>x t. keeps R (k x t)) \<Longrightarrow> keeps R (case xs of [] \<Rightarrow> m | x # t \<Rightarrow> k x t)"
  by (cases xs) auto

lemma keeps_prod [frame]:
  "(\<And>x y. keeps R (k x y)) \<Longrightarrow> keeps R (case p of (x, y) \<Rightarrow> k x y)"
  by (cases p) auto

lemma keeps_fold [frame]:
  "(\<And>b x. keeps R (f b x)) \<Longrightarrow> keeps R (go_fold f b xs)"
  by (induction xs arbitrary: b) (auto intro: keeps_pure keeps_bind)

end

subsection \<open>Operations that never block\<close>

definition nonblocking :: "('s, 'a) prog \<Rightarrow> bool" where
  "nonblocking m \<longleftrightarrow> (\<forall>s. fst (m s) \<noteq> Blocked)"

lemma nonblocking_pure [frame]:
  "nonblocking (go_ret a)" "nonblocking (go_get f)" "nonblocking (go_mod h)" "nonblocking (go_panic e)"
  by (simp_all add: nonblocking_def go_defs)

lemma nonblocking_bind [frame]:
  "nonblocking m \<Longrightarrow> (\<And>a. nonblocking (k a)) \<Longrightarrow> nonblocking (go_bind m k)"
  unfolding nonblocking_def go_bind_def by (auto split: prod.split res.split) (metis fst_conv)

lemma nonblocking_seq [frame]: "nonblocking m \<Longrightarrow> nonblocking n \<Longrightarrow> nonblocking (go_seq m n)"
  unfolding go_seq_def by (rule nonblocking_bind)

lemma nonblocking_cases [frame]:
  "nonblocking m \<Longrightarrow> nonblocking n \<Longrightarrow> nonblocking (if b then m else n)"
  "nonblocking m \<Longrightarrow> (\<And>x. nonblocking (k x)) \<Longrightarrow> nonblocking (case v of None \<Rightarrow> m | Some x \<Rightarrow> k x)"
  "(\<And>x. nonblocking (f x)) \<Longrightarrow> (\<And>x. nonblocking (g x)) \<Longrightarrow>
     nonblocking (case u of Inl x \<Rightarrow> f x | Inr x \<Rightarrow> g x)"
  "nonblocking m \<Longrightarrow> (\<And>x t. nonblocking (h x t)) \<Longrightarrow>
     nonblocking (case xs of [] \<Rightarrow> m | x # t \<Rightarrow> h x t)"
  by (auto split: option.split sum.split list.split)

lemma nonblocking_fold [frame]: "(\<And>b x. nonblocking (f b x)) \<Longrightarrow> nonblocking (go_fold f b xs)"
  by (induction xs arbitrary: b) (auto intro: nonblocking_pure nonblocking_bind)

end
