(* ===== verification/LimitGroup.thy ===== *)
theory LimitGroup
  imports Machine GoMonad "HOL-Library.Multiset"
begin

text \<open>
  \<open>agent/pkg/limit_wait_group/group.go\<close>: a wait group whose \<open>Add\<close> also takes a slot of a
  buffered channel, so that at most \<open>maxSize\<close> goroutines run between \<open>Add\<close> and \<open>Done\<close>.
  The operations are the sequences of atomic actions their bodies perform on the channel
  and the wait group; goroutines interleave at these actions. The goroutines are those of
  \<open>dumpExec\<close> (\<open>agent/core/job.go\<close>), the only user: one that visits the services and
  one per service.
\<close>

subsection \<open>The group and its atomic actions\<close>

text \<open>\<open>limitSyncGroup\<close>: how full the channel is, its capacity, the wait group's counter.\<close>

record sync_group =
  c_len :: nat
  c_cap :: nat
  wg_count :: int

datatype instr =
    WgAdd int           \<comment> \<open>\<open>s.wg.Add(delta)\<close>\<close>
  | WgDone              \<comment> \<open>\<open>s.wg.Done()\<close>\<close>
  | WgWait              \<comment> \<open>\<open>s.wg.Wait()\<close>\<close>
  | Send                \<comment> \<open>\<open>s.c <- struct{}{}\<close>\<close>
  | Recv                \<comment> \<open>\<open><-s.c\<close>\<close>
  | Work                \<comment> \<open>the body of the goroutine\<close>
  | Go "instr list"     \<comment> \<open>\<open>go func\<close>\<close>

definition NewSemaphore :: "int \<Rightarrow> sync_group res" where
  "NewSemaphore maxSize =
     (if maxSize < 0 then Panic ''makechan: size out of range''
      else Ret \<lparr>c_len = 0, c_cap = nat maxSize, wg_count = 0\<rparr>)"

definition group_Add :: "int \<Rightarrow> instr list" where
  "group_Add delta = WgAdd delta # replicate (nat delta) Send"

definition group_Done :: "instr list" where
  "group_Done = [Recv, WgDone]"

definition group_Wait :: "instr list" where
  "group_Wait = [WgWait]"

definition wg_add :: "int \<Rightarrow> sync_group \<Rightarrow> sync_group res" where
  "wg_add d g =
     (if wg_count g + d < 0 then Panic ''sync: negative WaitGroup counter''
      else Ret (g\<lparr>wg_count := wg_count g + d\<rparr>))"

fun exec :: "instr \<Rightarrow> sync_group \<Rightarrow> sync_group res" where
  "exec (WgAdd d) g = wg_add d g"
| "exec WgDone g = wg_add (-1) g"
| "exec WgWait g = (if wg_count g = 0 then Ret g else Blocked)"
| "exec Send g = (if c_len g < c_cap g then Ret (g\<lparr>c_len := Suc (c_len g)\<rparr>) else Blocked)"
| "exec Recv g = (if 0 < c_len g then Ret (g\<lparr>c_len := c_len g - 1\<rparr>) else Blocked)"
| "exec Work g = Ret g"
| "exec (Go p) g = Ret g"

fun started :: "instr \<Rightarrow> instr list multiset" where
  "started (Go p) = {#p#}"
| "started _ = {#}"

subsection \<open>The goroutines of \<open>dumpExec\<close>\<close>

definition dump_worker :: "instr list" where
  "dump_worker = Work # group_Done"

text \<open>The loop over \<open>n\<close> services: \<open>wait.Add(1)\<close>, \<open>go func\<close>, and after it \<open>wait.Wait()\<close>.\<close>

fun dump_loop :: "nat \<Rightarrow> instr list" where
  "dump_loop 0 = group_Wait"
| "dump_loop (Suc n) = group_Add 1 @ [Go dump_worker] @ dump_loop n"

record dump_sys =
  grp :: sync_group
  coord :: "instr list"
  workers :: "instr list multiset"

definition dump_init :: "nat \<Rightarrow> nat \<Rightarrow> dump_sys \<Rightarrow> bool" where
  "dump_init limit n s \<longleftrightarrow>
     Ret (grp s) = NewSemaphore (int limit) \<and> coord s = dump_loop n \<and> workers s = {#}"

text \<open>
  \<open>visitor\<close>: the goroutine that visits the services takes its next action. \<open>worker\<close>: a
  service's goroutine does. \<open>handoff\<close>: an unbuffered channel passes a value from a sender
  to a receiver that waits. \<open>stop\<close>: the callback of \<open>Services.Range\<close> finds the job's
  context done and returns false, so the visits end and \<open>wait.Wait()\<close> follows.
\<close>

inductive dump_step :: "dump_sys \<Rightarrow> dump_sys \<Rightarrow> bool" where
  visitor: "coord s = i # is \<Longrightarrow> exec i (grp s) = Ret g \<Longrightarrow>
    dump_step s (s\<lparr>grp := g, coord := is, workers := workers s + started i\<rparr>)"
| worker: "i # is \<in># workers s \<Longrightarrow> exec i (grp s) = Ret g \<Longrightarrow>
    dump_step s (s\<lparr>grp := g,
      workers := add_mset is (workers s - {#i # is#}) + started i\<rparr>)"
| handoff: "c_cap (grp s) = 0 \<Longrightarrow> coord s = Send # is \<Longrightarrow> Recv # js \<in># workers s \<Longrightarrow>
    dump_step s (s\<lparr>coord := is, workers := add_mset js (workers s - {#Recv # js#})\<rparr>)"
| stop: "coord s = dump_loop (Suc n) \<Longrightarrow> dump_step s (s\<lparr>coord := group_Wait\<rparr>)"

text \<open>The group never changes its capacity; a state is final when nobody has actions left.\<close>

definition dump_final :: "dump_sys \<Rightarrow> bool" where
  "dump_final s \<longleftrightarrow> coord s = [] \<and> (\<forall>w \<in># workers s. w = [])"

subsection \<open>The invariant\<close>

definition at_work :: "dump_sys \<Rightarrow> nat" where
  "at_work s = count (workers s) dump_worker"

definition holding :: "dump_sys \<Rightarrow> nat" where
  "holding s = at_work s + count (workers s) group_Done"

fun slot_taken :: "instr list \<Rightarrow> nat" where
  "slot_taken (Go p # _) = 1"
| "slot_taken _ = 0"

fun added :: "instr list \<Rightarrow> nat" where
  "added (Send # _) = 1"
| "added (Go p # _) = 1"
| "added _ = 0"

definition visitor_at :: "instr list \<Rightarrow> bool" where
  "visitor_at c \<longleftrightarrow> c = [] \<or>
     (\<exists>n. c = dump_loop n \<or> c = Send # Go dump_worker # dump_loop n
        \<or> c = Go dump_worker # dump_loop n)"

definition worker_at :: "instr list \<Rightarrow> bool" where
  "worker_at w \<longleftrightarrow> w \<in> set [dump_worker, group_Done, [WgDone], []]"

definition dump_inv :: "nat \<Rightarrow> dump_sys \<Rightarrow> bool" where
  "dump_inv limit s \<longleftrightarrow>
     c_cap (grp s) = limit \<and> c_len (grp s) \<le> limit \<and>
     c_len (grp s) = holding s + slot_taken (coord s) \<and>
     wg_count (grp s) = int (holding s + count (workers s) [WgDone] + added (coord s)) \<and>
     visitor_at (coord s) \<and> (\<forall>w \<in># workers s. worker_at w) \<and>
     (coord s = [] \<longrightarrow> wg_count (grp s) = 0)"

lemmas dump_words = dump_worker_def group_Done_def group_Wait_def group_Add_def

lemmas dump_counts = dump_inv_def holding_def at_work_def dump_words

lemma dump_loop_cases:
  "visitor_at (i # is) \<Longrightarrow>
     (i = WgWait \<and> is = []) \<or>
     (\<exists>n. i = WgAdd 1 \<and> is = Send # Go dump_worker # dump_loop n) \<or>
     (\<exists>n. i = Send \<and> is = Go dump_worker # dump_loop n) \<or>
     (\<exists>n. i = Go dump_worker \<and> is = dump_loop n)"
proof -
  have "dump_loop n = i # is \<Longrightarrow> ?thesis" for n
    by (cases n) (auto simp: group_Wait_def group_Add_def)
  then show "visitor_at (i # is) \<Longrightarrow> ?thesis"
    unfolding visitor_at_def by (auto dest: sym)
qed

lemma dump_loop_counts [simp]: "slot_taken (dump_loop n) = 0" "added (dump_loop n) = 0"
    "dump_loop n \<noteq> []"
  by (cases n; simp add: group_Wait_def group_Add_def)+

lemma dump_inv_init: "dump_init limit n s \<Longrightarrow> dump_inv limit s"
  by (auto simp: dump_init_def NewSemaphore_def dump_counts visitor_at_def)


lemma visitor_at_intros:
  "visitor_at (dump_loop n)" "visitor_at (Send # Go dump_worker # dump_loop n)"
  "visitor_at (Go dump_worker # dump_loop n)" "visitor_at []" "visitor_at group_Wait"
  unfolding visitor_at_def by (metis dump_loop.simps(1))+

lemma worker_at_Cons:
  "worker_at (i # is) \<Longrightarrow>
     (i = Work \<and> is = group_Done) \<or> (i = Recv \<and> is = [WgDone]) \<or> (i = WgDone \<and> is = [])"
  by (auto simp: worker_at_def dump_words)

lemma worker_at_intros: "worker_at dump_worker" "worker_at group_Done" "worker_at [WgDone]" "worker_at []"
  by (simp_all add: worker_at_def)

lemmas position_intros = visitor_at_intros [unfolded dump_words] worker_at_intros [unfolded dump_words]

lemma visitor_keeps_inv:
  assumes inv: "dump_inv limit s" and c: "coord s = i # is" and e: "exec i (grp s) = Ret g"
  shows "dump_inv limit (s\<lparr>grp := g, coord := is, workers := workers s + started i\<rparr>)"
proof -
  from inv c have "visitor_at (i # is)" by (simp add: dump_inv_def)
  then consider "i = WgWait" "is = []"
    | n where "i = WgAdd 1" "is = Send # Go dump_worker # dump_loop n"
    | n where "i = Send" "is = Go dump_worker # dump_loop n"
    | n where "i = Go dump_worker" "is = dump_loop n"
    using dump_loop_cases by blast
  then show ?thesis
    by cases (use inv c e in \<open>auto simp: dump_inv_def holding_def at_work_def wg_add_def
        position_intros dump_words split: if_splits\<close>)
qed

lemma worker_keeps_inv:
  assumes inv: "dump_inv limit s" and w: "i # is \<in># workers s" and e: "exec i (grp s) = Ret g"
  shows "dump_inv limit (s\<lparr>grp := g,
    workers := add_mset is (workers s - {#i # is#}) + started i\<rparr>)"
proof -
  obtain ws where ws: "workers s = add_mset (i # is) ws"
    using w by (metis insert_DiffM)
  from inv w have "worker_at (i # is)" by (auto simp: dump_inv_def)
  then consider "i = Work" "is = group_Done" | "i = Recv" "is = [WgDone]" | "i = WgDone" "is = []"
    using worker_at_Cons by blast
  then show ?thesis
    by cases (use inv ws e in \<open>auto simp: dump_inv_def holding_def at_work_def wg_add_def
        position_intros dump_words split: if_splits\<close>)
qed

lemma dump_step_inv: "dump_inv limit s \<Longrightarrow> dump_step s t \<Longrightarrow> dump_inv limit t"
proof (erule dump_step.cases, goal_cases)
  case (1 s i "is" g)
  then show ?case by (simp add: visitor_keeps_inv)
next
  case (2 i "is" s g)
  then show ?case using worker_keeps_inv by fastforce
next
  case (3 s "is" js)
  then show ?case
    using worker_at_Cons [of Recv js]
    by (auto simp: dump_counts dest!: multi_member_split)
next
  case (4 s n)
  then show ?case
    by (auto simp: dump_inv_def holding_def at_work_def dump_words position_intros)
qed

subsection \<open>Progress and termination\<close>

fun instr_work :: "instr \<Rightarrow> nat" where
  "instr_work (Go p) = Suc (sum_list (map instr_work p))"
| "instr_work _ = 1"

definition code_work :: "instr list \<Rightarrow> nat" where
  "code_work p = sum_list (map instr_work p)"

definition dump_work :: "dump_sys \<Rightarrow> nat" where
  "dump_work s = code_work (coord s) + sum_mset (image_mset code_work (workers s))"

lemma code_work_Cons [simp]: "code_work (i # is) = instr_work i + code_work is"
  by (simp add: code_work_def)

lemma started_work: "sum_mset (image_mset code_work (started i)) < instr_work i"
  by (cases i) (auto simp: code_work_def)

lemma dump_loop_work: "code_work (dump_loop n) = 6 * n + 1"
  by (induction n) (auto simp: dump_words code_work_def)

lemma dump_step_work: "dump_step s t \<Longrightarrow> dump_work t < dump_work s"
proof (induction rule: dump_step.induct)
  case (visitor s i "is" g)
  then show ?case using started_work [of i] by (simp add: dump_work_def)
next
  case (worker i "is" s g)
  then obtain ws where "workers s = add_mset (i # is) ws" by (metis insert_DiffM)
  then show ?case using started_work [of i] by (simp add: dump_work_def)
next
  case (handoff s "is" js)
  then obtain ws where "workers s = add_mset (Recv # js) ws" by (metis insert_DiffM)
  with handoff show ?case by (simp add: dump_work_def)
next
  case (stop s n)
  then show ?case by (simp add: dump_work_def dump_loop_work dump_words code_work_def)
qed

text \<open>A worker can always move: it works, or its slot is in the channel, or it is counted.\<close>

lemma worker_can_move:
  assumes inv: "dump_inv limit s" and w: "w \<in># workers s" and ne: "w \<noteq> []"
  shows "\<exists>t. dump_step s t"
proof -
  obtain i js where ij: "w = i # js" using ne by (cases w) auto
  obtain ws where ws: "workers s = add_mset w ws" using w by (metis insert_DiffM)
  from inv w have "worker_at (i # js)" by (auto simp: dump_inv_def ij)
  then have "\<exists>g. exec i (grp s) = Ret g"
    using inv ws ij worker_at_Cons [of i js]
    by (auto simp: dump_inv_def holding_def at_work_def wg_add_def dump_words)
  then show ?thesis using w ij by (blast intro: dump_step.worker)
qed

lemma visitor_can_move:
  assumes inv: "dump_inv limit s" and lim: "0 < limit"
    and c: "coord s \<noteq> []" and ws: "\<forall>w \<in># workers s. w = []"
  shows "\<exists>t. dump_step s t"
proof -
  obtain i js where ij: "coord s = i # js" using c by (cases "coord s") auto
  have none: "count (workers s) w = 0" if "w \<noteq> []" for w
    using that ws by (metis count_inI)
  from inv ij have "visitor_at (i # js)" by (simp add: dump_inv_def)
  from dump_loop_cases [OF this] have "\<exists>g. exec i (grp s) = Ret g"
    using inv ij lim none
    by (auto simp: dump_inv_def holding_def at_work_def wg_add_def dump_words)
  then show ?thesis using ij by (blast intro: dump_step.visitor)
qed

interpretation dumping: live_machine "dump_init limit n" dump_step "dump_inv limit"
  "\<lambda>s. limit = 0 \<or> dump_final s" dump_work
  for limit n
proof unfold_locales
  show "dump_inv limit s \<Longrightarrow> \<not> (limit = 0 \<or> dump_final s) \<Longrightarrow> \<exists>t. dump_step s t" for s
    using worker_can_move visitor_can_move by (metis dump_final_def gr0I)
qed (auto intro: dump_inv_init dump_step_inv dump_step_work)

subsection \<open>What the group guarantees\<close>

lemma none_left:
  assumes inv: "dump_inv limit s" and c: "coord s = []" and w: "w \<in># workers s"
  shows "w = []"
proof (rule ccontr)
  assume ne: "w \<noteq> []"
  from inv w have "worker_at w" by (simp add: dump_inv_def)
  with ne have v: "w \<in> set [dump_worker, group_Done, [WgDone]]" by (auto simp: worker_at_def)
  from inv c have "count (workers s) w = 0"
    using v by (auto simp: dump_inv_def holding_def at_work_def)
  with w show False by (simp add: count_eq_zero_iff)
qed

lemma exec_no_panic:
  assumes inv: "dump_inv limit s" and at: "coord s = i # is \<or> i # is \<in># workers s"
  shows "exec i (grp s) \<noteq> Panic e"
  using at
proof
  assume c: "coord s = i # is"
  with inv have "visitor_at (i # is)" by (simp add: dump_inv_def)
  from dump_loop_cases [OF this] inv c show ?thesis
    by (auto simp: dump_inv_def wg_add_def split: if_splits)
next
  assume w: "i # is \<in># workers s"
  then obtain ws where ws: "workers s = add_mset (i # is) ws" by (metis insert_DiffM)
  from inv w have "worker_at (i # is)" by (auto simp: dump_inv_def)
  from worker_at_Cons [OF this] inv ws show ?thesis
    by (auto simp: dump_inv_def wg_add_def split: if_splits)
qed


lemma five_init: "dump_init 5 n \<lparr>grp = \<lparr>c_len = 0, c_cap = 5, wg_count = 0\<rparr>,
    coord = dump_loop n, workers = {#}\<rparr>"
  by (simp add: dump_init_def NewSemaphore_def)


text \<open>
  C9. \<open>wait.Wait()\<close> returns only when every goroutine that \<open>dumpExec\<close> started has run to
  its end: in a state where the visitor has nothing left to do, no worker has.
\<close>

theorem wait_means_all_done:
  assumes "reach (dump_init limit n) dump_step s" and "coord s = []"
  shows "\<forall>w \<in># workers s. w = []"
  using none_left [OF dumping.reach_inv [OF assms(1)] assms(2)] by blast

theorem wait_means_all_done_witness:
  "\<exists>s. reach (dump_init 5 1) dump_step s \<and> coord s = [] \<and> size (workers s) = 1
     \<and> (\<forall>w \<in># workers s. w = [])"
proof -
  let ?s = "\<lambda>l n c ws. \<lparr>grp = \<lparr>c_len = l, c_cap = 5, wg_count = n\<rparr>, coord = c, workers = ws\<rparr>"
  have visit: "dump_step (?s l n (i # is) ws) (?s l' n' is (ws + started i))"
    if "exec i \<lparr>c_len = l, c_cap = 5, wg_count = n\<rparr> = Ret \<lparr>c_len = l', c_cap = 5, wg_count = n'\<rparr>"
    for i "is" l n l' n' ws
    using dump_step.visitor [of "?s l n (i # is) ws" i "is"] that by simp
  have work: "dump_step (?s l n c {#i # is#}) (?s l' n' c ({#is#} + started i))"
    if "exec i \<lparr>c_len = l, c_cap = 5, wg_count = n\<rparr> = Ret \<lparr>c_len = l', c_cap = 5, wg_count = n'\<rparr>"
    for i "is" l n l' n' c
    using dump_step.worker [of i "is" "?s l n c {#i # is#}"] that by simp
  have 0: "reach (dump_init 5 1) dump_step (?s 0 0 (dump_loop 1) {#})"
    by (rule reach_init) (rule five_init)
  have 1: "dump_step (?s 0 0 (dump_loop 1) {#}) (?s 0 1 [Send, Go dump_worker, WgWait] {#})"
    using visit [of "WgAdd 1" 0 0 0 1 "[Send, Go dump_worker, WgWait]" "{#}"]
    by (simp add: wg_add_def group_Add_def group_Wait_def)
  have 2: "dump_step (?s 0 1 [Send, Go dump_worker, WgWait] {#}) (?s 1 1 [Go dump_worker, WgWait] {#})"
    using visit [of Send 0 1 1 1 "[Go dump_worker, WgWait]" "{#}"] by simp
  have 3: "dump_step (?s 1 1 [Go dump_worker, WgWait] {#}) (?s 1 1 [WgWait] {#dump_worker#})"
    using visit [of "Go dump_worker" 1 1 1 1 "[WgWait]" "{#}"] by simp
  have 4: "dump_step (?s 1 1 [WgWait] {#dump_worker#}) (?s 1 1 [WgWait] {#group_Done#})"
    using work [of Work 1 1 1 1 "[WgWait]" group_Done] by (simp add: dump_worker_def)
  have 5: "dump_step (?s 1 1 [WgWait] {#group_Done#}) (?s 0 1 [WgWait] {#[WgDone]#})"
    using work [of Recv 1 1 0 1 "[WgWait]" "[WgDone]"] by (simp add: group_Done_def)
  have 6: "dump_step (?s 0 1 [WgWait] {#[WgDone]#}) (?s 0 0 [WgWait] {#[]#})"
    using work [of WgDone 0 1 0 0 "[WgWait]" "[]"] by (simp add: wg_add_def)
  have 7: "dump_step (?s 0 0 [WgWait] {#[]#}) (?s 0 0 [] {#[]#})"
    using visit [of WgWait 0 0 0 0 "[]" "{#[]#}"] by simp
  have r: "reach (dump_init 5 1) dump_step (?s 0 0 [] {#[]#})"
    by (rule reach_step [OF reach_step [OF reach_step [OF reach_step [OF reach_step [OF reach_step
        [OF reach_step [OF 0 1] 2] 3] 4] 5] 6] 7])
  have "coord (?s 0 0 [] {#[]#}) = []" by simp
  from wait_means_all_done [OF r this] r show ?thesis
    by (intro exI [of _ "?s 0 0 [] {#[]#}"]) simp
qed

text \<open>
  C11. With room for at least one goroutine, a round of dumps over \<open>n\<close> services neither
  deadlocks nor runs for ever: from every reachable state the round can be completed, and
  no schedule has more than \<open>6 * n + 1\<close> actions.
\<close>

theorem dump_round_ends:
  assumes "0 < limit" and "dump_init limit n s0"
  shows "(\<forall>k s. steps dump_step k s0 s \<longrightarrow>
      k \<le> 6 * n + 1 \<and> (\<exists>j t. steps dump_step j s t \<and> dump_final t))"
proof (intro allI impI)
  fix k s assume run: "steps dump_step k s0 s"
  have inv0: "dump_inv limit s0" by (rule dump_inv_init [OF assms(2)])
  have "k + dump_work s \<le> dump_work s0" by (rule dumping.run_bound [OF run inv0])
  moreover have "dump_work s0 = 6 * n + 1"
    using assms(2) by (simp add: dump_init_def dump_work_def dump_loop_work)
  moreover have "\<exists>j t. steps dump_step j s t \<and> (limit = 0 \<or> dump_final t)"
    by (rule dumping.reaches_final [OF dumping.steps_inv [OF run inv0]])
  ultimately show "k \<le> 6 * n + 1 \<and> (\<exists>j t. steps dump_step j s t \<and> dump_final t)"
    using assms(1) by auto
qed

theorem dump_round_ends_witness:
  "\<exists>s0 j t. dump_init 5 2 s0 \<and> steps dump_step j s0 t \<and> dump_final t"
proof -
  have pos: "0 < (5::nat)" by simp
  obtain s0 where s0: "dump_init 5 2 s0" using five_init by blast
  have "\<exists>j t. steps dump_step j s0 t \<and> dump_final t"
    using dump_round_ends [OF pos s0] steps_0 [of dump_step s0] by blast
  with s0 show ?thesis by blast
qed

end
