(* ===== verification/GoStrings.thy ===== *)
theory GoStrings
  imports Prelude
begin

text \<open>
  The functions of Go's \<open>strings\<close> and \<open>strconv\<close> packages (and \<open>fmt\<close>'s \<open>%v\<close> of an
  unsigned number) that the source calls, on strings as lists of bytes. White space and
  letter case are those of ASCII: every string the source passes to \<open>TrimSpace\<close>,
  \<open>EqualFold\<close> and \<open>ToLower\<close> is an environment variable or a struct tag.
\<close>

subsection \<open>Prefixes, suffixes, search\<close>

definition HasPrefix :: "string \<Rightarrow> string \<Rightarrow> bool" where
  "HasPrefix s p \<longleftrightarrow> take (length p) s = p"

definition HasSuffix :: "string \<Rightarrow> string \<Rightarrow> bool" where
  "HasSuffix s p \<longleftrightarrow> drop (length s - length p) s = p"

definition TrimPrefix :: "string \<Rightarrow> string \<Rightarrow> string" where
  "TrimPrefix s p = (if HasPrefix s p then drop (length p) s else s)"

definition TrimLeft :: "string \<Rightarrow> string \<Rightarrow> string" where
  "TrimLeft s cutset = dropWhile (\<lambda>c. c \<in> set cutset) s"

definition is_space :: "char \<Rightarrow> bool" where
  "is_space c \<longleftrightarrow> c \<in> set [CHR 0x09, CHR 0x0A, CHR 0x0B, CHR 0x0C, CHR 0x0D, CHR 0x20]"

definition TrimSpace :: "string \<Rightarrow> string" where
  "TrimSpace s = rev (dropWhile is_space (rev (dropWhile is_space s)))"

text \<open>\<open>strings.Index\<close> gives -1 when there is no occurrence: here \<open>None\<close>.\<close>

fun Index :: "string \<Rightarrow> string \<Rightarrow> nat option" where
  "Index s sub =
     (if HasPrefix s sub then Some 0
      else case s of [] \<Rightarrow> None | _ # t \<Rightarrow> map_option Suc (Index t sub))"

declare Index.simps [simp del]

definition Contains :: "string \<Rightarrow> string \<Rightarrow> bool" where
  "Contains s sub \<longleftrightarrow> Index s sub \<noteq> None"

text \<open>\<open>strings.LastIndex\<close> for a one-byte separator.\<close>

fun LastIndexByte :: "string \<Rightarrow> char \<Rightarrow> nat option" where
  "LastIndexByte [] c = None"
| "LastIndexByte (x # s) c =
     (case LastIndexByte s c of
        Some i \<Rightarrow> Some (Suc i)
      | None \<Rightarrow> if x = c then Some 0 else None)"

lemma HasPrefix_iff_prefix: "HasPrefix s p \<longleftrightarrow> prefix p s"
  by (metis HasPrefix_def append_take_drop_id prefix_def append_eq_conv_conj)

lemma HasPrefix_append [simp]: "HasPrefix (p @ s) p"
  by (simp add: HasPrefix_def)

lemma TrimPrefix_append [simp]: "TrimPrefix (p @ s) p = s"
  by (simp add: TrimPrefix_def HasPrefix_def)

lemma TrimPrefix_same_or_shorter:
  "TrimPrefix s p = s \<or> s = p @ TrimPrefix s p"
  by (auto simp: TrimPrefix_def HasPrefix_def) (metis append_take_drop_id)

lemma length_TrimPrefix: "length (TrimPrefix s p) \<le> length s"
  by (simp add: TrimPrefix_def)

lemma TrimPrefix_fixpoint: "p \<noteq> [] \<Longrightarrow> TrimPrefix s p = s \<longleftrightarrow> \<not> HasPrefix s p"
proof (cases "HasPrefix s p")
  case True
  moreover assume "p \<noteq> []"
  ultimately have "length (drop (length p) s) < length s"
    by (cases s) (auto simp: HasPrefix_def)
  with True show ?thesis by (metis TrimPrefix_def less_irrefl)
qed (simp add: TrimPrefix_def)

lemma TrimLeft_head: "TrimLeft s cs = c # t \<Longrightarrow> c \<notin> set cs"
  unfolding TrimLeft_def by (induction s) (auto split: if_splits)

lemma TrimSpace_no_space: "\<forall>c \<in> set s. \<not> is_space c \<Longrightarrow> TrimSpace s = s"
proof -
  assume a: "\<forall>c \<in> set s. \<not> is_space c"
  have "dropWhile is_space t = t" if "\<forall>c \<in> set t. \<not> is_space c" for t
    using that by (cases t) auto
  from this [of s] this [of "rev s"] a show ?thesis by (simp add: TrimSpace_def)
qed

lemma Index_Some_split:
  "Index s sub = Some i \<Longrightarrow> HasPrefix (drop i s) sub \<and> i \<le> length s"
proof (induction s arbitrary: i)
  case Nil
  then show ?case by (auto simp: Index.simps split: if_splits)
next
  case (Cons x s)
  then show ?case
    by (subst (asm) (2) Index.simps) (auto split: if_splits)
qed

lemma Index_byte_None: "Index s [c] = None \<longleftrightarrow> c \<notin> set s"
proof (induction s)
  case Nil
  then show ?case by (simp add: Index.simps HasPrefix_def)
next
  case (Cons x s)
  then show ?case by (subst Index.simps) (auto simp: HasPrefix_def)
qed

lemma Index_byte_append: "c \<notin> set xs \<Longrightarrow> Index (xs @ c # ys) [c] = Some (length xs)"
proof (induction xs)
  case Nil
  then show ?case by (subst Index.simps) (simp add: HasPrefix_def)
next
  case (Cons x xs)
  then show ?case by (subst Index.simps) (auto simp: HasPrefix_def)
qed

lemma LastIndexByte_None: "LastIndexByte s c = None \<longleftrightarrow> c \<notin> set s"
  by (induction s) (auto split: option.splits)

lemma LastIndexByte_split:
  "LastIndexByte s c = Some i \<Longrightarrow>
     i < length s \<and> s ! i = c \<and> c \<notin> set (drop (Suc i) s)"
  by (induction s arbitrary: i)
     (auto split: option.splits if_splits simp: LastIndexByte_None)

subsection \<open>Split, Join, Replace\<close>

text \<open>\<open>strings.Split\<close> and \<open>strings.SplitN\<close> (positive count) at a one-byte separator.\<close>

fun Split :: "string \<Rightarrow> char \<Rightarrow> string list" where
  "Split [] c = [[]]"
| "Split (x # s) c =
     (if x = c then [] # Split s c
      else case Split s c of [] \<Rightarrow> [[x]] | w # ws \<Rightarrow> (x # w) # ws)"

fun SplitN :: "string \<Rightarrow> char \<Rightarrow> nat \<Rightarrow> string list" where
  "SplitN s c 0 = []"
| "SplitN s c (Suc 0) = [s]"
| "SplitN s c (Suc (Suc n)) =
     (if c \<in> set s
      then takeWhile (\<lambda>x. x \<noteq> c) s # SplitN (tl (dropWhile (\<lambda>x. x \<noteq> c) s)) c (Suc n)
      else [s])"

fun Join :: "string list \<Rightarrow> string \<Rightarrow> string" where
  "Join [] sep = []"
| "Join [w] sep = w"
| "Join (w # v # ws) sep = w @ sep @ Join (v # ws) sep"

text \<open>\<open>strings.Replace\<close> with count -1 and a non-empty old text, left to right.\<close>

function ReplaceAll :: "string \<Rightarrow> string \<Rightarrow> string \<Rightarrow> string" where
  "ReplaceAll s old new =
     (case s of [] \<Rightarrow> []
      | x # t \<Rightarrow>
          if old \<noteq> [] \<and> HasPrefix s old then new @ ReplaceAll (drop (length old) s) old new
          else x # ReplaceAll t old new)"
  by pat_completeness auto
termination
  by (relation "measure (\<lambda>(s, old, new). length s)") auto

declare ReplaceAll.simps [simp del]

lemma Split_nonempty [simp]: "Split s c \<noteq> []"
  by (cases "(s, c)" rule: Split.cases) (auto split: list.splits)

lemma Split_no_sep: "c \<notin> set s \<Longrightarrow> Split s c = [s]"
  by (induction s c rule: Split.induct) auto

lemma Split_append: "c \<notin> set xs \<Longrightarrow> Split (xs @ c # ys) c = xs # Split ys c"
  by (induction xs) auto

lemma Split_parts_no_sep: "w \<in> set (Split s c) \<Longrightarrow> c \<notin> set w"
  by (induction s c arbitrary: w rule: Split.induct) (auto split: if_splits list.splits)

lemma Join_Split: "Join (Split s c) [c] = s"
proof (induction s c rule: Split.induct)
  case (2 x s c)
  show ?case
  proof (cases "x = c")
    case True
    then show ?thesis using "2.IH"(1) by (cases "Split s c") auto
  next
    case False
    then obtain w ws where *: "Split s c = w # ws" by (cases "Split s c") auto
    then show ?thesis using False "2.IH"(2) by (cases ws) auto
  qed
qed simp

lemma Split_Join:
  "ws \<noteq> [] \<Longrightarrow> \<forall>w \<in> set ws. c \<notin> set w \<Longrightarrow> Split (Join ws [c]) c = ws"
  by (induction ws "[c]" rule: Join.induct) (auto simp: Split_no_sep Split_append)

lemma SplitN_sep_free: "c \<notin> set s \<Longrightarrow> SplitN s c (Suc n) = [s]"
  by (cases n) auto

lemma SplitN_append:
  "c \<notin> set xs \<Longrightarrow> SplitN (xs @ c # ys) c (Suc (Suc n)) = xs # SplitN ys c (Suc n)"
  by (simp add: takeWhile_neq_append dropWhile_neq_append)

lemma length_SplitN: "length (SplitN s c n) \<le> n"
  by (induction s c n rule: SplitN.induct) auto

lemma ReplaceAll_Nil [simp]: "ReplaceAll [] old new = []"
  by (simp add: ReplaceAll.simps)

lemma ReplaceAll_miss:
  "old = [] \<or> \<not> HasPrefix (x # t) old \<Longrightarrow>
     ReplaceAll (x # t) old new = x # ReplaceAll t old new"
  by (subst ReplaceAll.simps) auto

lemma ReplaceAll_hit:
  "old \<noteq> [] \<Longrightarrow> ReplaceAll (old @ t) old new = new @ ReplaceAll t old new"
proof (cases old)
  case (Cons x xs)
  then show ?thesis by (simp add: ReplaceAll.simps [of "x # xs @ t"] HasPrefix_def)
qed simp

subsection \<open>Letter case\<close>

definition to_lower_char :: "char \<Rightarrow> char" where
  "to_lower_char c =
     (let n = of_char c :: nat in if 65 \<le> n \<and> n \<le> 90 then char_of (n + 32) else c)"

definition ToLower :: "string \<Rightarrow> string" where
  "ToLower s = map to_lower_char s"

definition EqualFold :: "string \<Rightarrow> string \<Rightarrow> bool" where
  "EqualFold s t \<longleftrightarrow> ToLower s = ToLower t"

lemma EqualFold_refl [simp]: "EqualFold s s"
  by (simp add: EqualFold_def)

lemma TrimSpace_Nil [simp]: "TrimSpace [] = []"
  by (simp add: TrimSpace_def)

subsection \<open>Numbers\<close>

definition digit_char :: "nat \<Rightarrow> char" where
  "digit_char d = char_of (48 + d)"

text \<open>\<open>fmt\<close>'s \<open>%v\<close> / \<open>%d\<close> of an unsigned number, \<open>strconv.FormatInt(_, 10)\<close>.\<close>

fun dec :: "nat \<Rightarrow> string" where
  "dec n = (if n < 10 then [digit_char n] else dec (n div 10) @ [digit_char (n mod 10)])"

declare dec.simps [simp del]

definition dec_int :: "int \<Rightarrow> string" where
  "dec_int n = (if n < 0 then ''-'' @ dec (nat (- n)) else dec (nat n))"

definition digit_val :: "char \<Rightarrow> nat option" where
  "digit_val c = (let n = of_char c :: nat in if 48 \<le> n \<and> n \<le> 57 then Some (n - 48) else None)"

text \<open>
  \<open>strconv\<close>'s scan of decimal digits into 64 bits: the first bad digit or the first
  overflow, from the left, decides the error.
\<close>

datatype num_error = ErrSyntax | ErrRange

fun parse_digits :: "nat \<Rightarrow> string \<Rightarrow> num_error + nat" where
  "parse_digits acc [] = Inr acc"
| "parse_digits acc (c # s) =
     (case digit_val c of
        None \<Rightarrow> Inl ErrSyntax
      | Some d \<Rightarrow> if 10 * acc + d < 2 ^ 64 then parse_digits (10 * acc + d) s else Inl ErrRange)"

definition parse_unsigned :: "string \<Rightarrow> num_error + nat" where
  "parse_unsigned s = (if s = [] then Inl ErrSyntax else parse_digits 0 s)"

definition parse_signed :: "string \<Rightarrow> num_error + int" where
  "parse_signed s =
     (if s = [] then Inl ErrSyntax
      else
        let neg = (hd s = CHR ''-'');
            digits = (if neg \<or> hd s = CHR ''+'' then tl s else s)
        in case parse_unsigned digits of
             Inl e \<Rightarrow> Inl e
           | Inr n \<Rightarrow>
               if \<not> neg \<and> n \<ge> 2 ^ 63 \<or> neg \<and> n > 2 ^ 63 then Inl ErrRange
               else Inr (if neg then - int n else int n))"

definition num_error_text :: "string \<Rightarrow> string \<Rightarrow> num_error \<Rightarrow> go_error" where
  "num_error_text func s e =
     ''strconv.'' @ func @ '': parsing \"'' @ s @ ''\": '' @
     (case e of ErrSyntax \<Rightarrow> ''invalid syntax'' | ErrRange \<Rightarrow> ''value out of range'')"

text \<open>\<open>strconv.ParseUint(s, 10, 64)\<close>, \<open>strconv.ParseInt(s, 10, 64)\<close> and \<open>strconv.Atoi\<close>.\<close>

definition ParseUint64 :: "string \<Rightarrow> go_error + uint64" where
  "ParseUint64 s =
     (case parse_unsigned s of
        Inl e \<Rightarrow> Inl (num_error_text ''ParseUint'' s e)
      | Inr n \<Rightarrow> Inr (of_nat n))"

definition ParseInt64 :: "string \<Rightarrow> go_error + int" where
  "ParseInt64 s =
     (case parse_signed s of
        Inl e \<Rightarrow> Inl (num_error_text ''ParseInt'' s e)
      | Inr n \<Rightarrow> Inr n)"

definition Atoi :: "string \<Rightarrow> go_error + int" where
  "Atoi s =
     (case parse_signed s of
        Inl e \<Rightarrow> Inl (num_error_text ''Atoi'' s e)
      | Inr n \<Rightarrow> Inr n)"

lemma digit_val_digit_char: "d < 10 \<Longrightarrow> digit_val (digit_char d) = Some d"
  by (simp add: digit_val_def digit_char_def)

lemma dec_nonempty [simp]: "dec n \<noteq> []"
  by (subst dec.simps) simp

lemma parse_digits_bound: "acc < 2 ^ 64 \<Longrightarrow> parse_digits acc s = Inr n \<Longrightarrow> n < 2 ^ 64"
  by (induction acc s rule: parse_digits.induct) (auto split: option.splits if_splits)

lemma parse_digits_append:
  "parse_digits acc (s @ t) =
     (case parse_digits acc s of Inl e \<Rightarrow> Inl e | Inr a \<Rightarrow> parse_digits a t)"
  by (induction acc s rule: parse_digits.induct) (auto split: option.splits)

lemma parse_digits_dec: "n < 2 ^ 64 \<Longrightarrow> parse_digits 0 (dec n) = Inr n"
proof (induction n rule: dec.induct)
  case (1 n)
  show ?case
  proof (cases "n < 10")
    case True
    then show ?thesis by (subst dec.simps) (simp add: digit_val_digit_char)
  next
    case False
    from 1(2) have "n div 10 < 2 ^ 64" by (meson div_le_dividend le_less_trans)
    with False have "parse_digits 0 (dec (n div 10)) = Inr (n div 10)" by (rule 1(1))
    with False 1(2) show ?thesis
      by (subst dec.simps) (simp add: parse_digits_append digit_val_digit_char)
  qed
qed

lemma dec_uint64_inject: "dec (unat v) = dec (unat w) \<longleftrightarrow> v = (w :: uint64)"
proof
  assume "dec (unat v) = dec (unat w)"
  then have "parse_digits 0 (dec (unat v)) = parse_digits 0 (dec (unat w))" by simp
  then show "v = w"
    unfolding parse_digits_dec [OF unat_uint64] by (simp add: word_unat_eq_iff)
qed simp

lemma digit_char_neq_slash: "d < 10 \<Longrightarrow> digit_char d \<noteq> CHR ''/''"
  using digit_val_digit_char [of d] by (auto simp: digit_val_def)

lemma dec_no_slash: "CHR ''/'' \<notin> set (dec n)"
proof (induction n rule: dec.induct)
  case (1 n)
  then show ?case
    using digit_char_neq_slash [of n] digit_char_neq_slash [of "n mod 10"]
    by (subst dec.simps) (auto split: if_splits)
qed

lemma ParseUint64_dec: "ParseUint64 (dec (unat w)) = Inr w"
  by (simp add: ParseUint64_def parse_unsigned_def parse_digits_dec [OF unat_uint64])

end
