(* ===== verification/HttpMessage.thy ===== *)
theory HttpMessage
  imports GoStrings
begin

text \<open>
  The part of \<open>net/http\<close>, \<open>net/url\<close> and \<open>encoding/json\<close> that requests are built from:
  a request with its header (canonical keys), query escaping, and the JSON values that
  struct literals marshal to.
\<close>

subsection \<open>JSON values\<close>

datatype json =
    JNull
  | JBool bool
  | JNum int
  | JStr string
  | JArr "json list"
  | JObj "(string \<times> json) list"

text \<open>
  The bodies the source sends: \<open>json.Marshal\<close> of a struct, kept as the value it encodes;
  a reader over given text; a multipart form, whose parts are files.
\<close>

datatype body =
    NoBody
  | TextBody string
  | JsonBody json
  | MultipartBody "(string \<times> string) list"   \<comment> \<open>form field, file name\<close>

subsection \<open>Headers\<close>

definition is_token_char :: "char \<Rightarrow> bool" where
  "is_token_char c \<longleftrightarrow>
     (let n = of_char c :: nat in
      48 \<le> n \<and> n \<le> 57 \<or> 65 \<le> n \<and> n \<le> 90 \<or> 97 \<le> n \<and> n \<le> 122)
     \<or> c \<in> set ''!#$%&*+-.^_`|~'' \<or> c = CHR 0x27"

definition to_upper_char :: "char \<Rightarrow> char" where
  "to_upper_char c =
     (let n = of_char c :: nat in if 97 \<le> n \<and> n \<le> 122 then char_of (n - 32) else c)"

fun canonical_loop :: "bool \<Rightarrow> string \<Rightarrow> string" where
  "canonical_loop upper [] = []"
| "canonical_loop upper (c # s) =
     (let d = (if upper then to_upper_char c else to_lower_char c)
      in d # canonical_loop (c = CHR ''-'') s)"

definition CanonicalHeaderKey :: "string \<Rightarrow> string" where
  "CanonicalHeaderKey k =
     (if (\<forall>c \<in> set k. is_token_char c) then canonical_loop True k else k)"

type_synonym header = "string \<rightharpoonup> string list"

definition Header_Set :: "string \<Rightarrow> string \<Rightarrow> header \<Rightarrow> header" where
  "Header_Set k v h = h(CanonicalHeaderKey k \<mapsto> [v])"

definition Header_Add :: "string \<Rightarrow> string \<Rightarrow> header \<Rightarrow> header" where
  "Header_Add k v h =
     h(CanonicalHeaderKey k \<mapsto>
        (case h (CanonicalHeaderKey k) of None \<Rightarrow> [v] | Some vs \<Rightarrow> vs @ [v]))"

definition Header_Get :: "string \<Rightarrow> header \<Rightarrow> string" where
  "Header_Get k h = (case h (CanonicalHeaderKey k) of Some (v # _) \<Rightarrow> v | _ \<Rightarrow> [])"

lemma Header_Get_Set: "Header_Get k (Header_Set k' v h)
    = (if CanonicalHeaderKey k = CanonicalHeaderKey k' then v else Header_Get k h)"
  by (simp add: Header_Get_def Header_Set_def)

subsection \<open>Requests\<close>

record http_request =
  rq_method :: string
  rq_url :: string
  rq_header :: header
  rq_body :: body

text \<open>
  \<open>http.NewRequest\<close> refuses a method or a URL it cannot parse; which ones is the
  parameter \<open>url_error\<close>.
\<close>

type_synonym url_check = "string \<Rightarrow> string \<Rightarrow> go_error option"

definition http_NewRequest :: "url_check \<Rightarrow> string \<Rightarrow> string \<Rightarrow> body \<Rightarrow> go_error + http_request" where
  "http_NewRequest url_error method url b =
     (case url_error method url of
        Some e \<Rightarrow> Inl e
      | None \<Rightarrow> Inr \<lparr>rq_method = method, rq_url = url, rq_header = Map.empty, rq_body = b\<rparr>)"

subsection \<open>Query strings\<close>

definition hex_digit :: "nat \<Rightarrow> char" where
  "hex_digit d = (if d < 10 then char_of (48 + d) else char_of (55 + d))"

definition is_unreserved :: "char \<Rightarrow> bool" where
  "is_unreserved c \<longleftrightarrow>
     (let n = of_char c :: nat in
      48 \<le> n \<and> n \<le> 57 \<or> 65 \<le> n \<and> n \<le> 90 \<or> 97 \<le> n \<and> n \<le> 122)
     \<or> c \<in> set ''-_.~''"

definition escape_char :: "char \<Rightarrow> string" where
  "escape_char c =
     (if is_unreserved c then [c]
      else if c = CHR '' '' then ''+''
      else (let n = of_char c :: nat in [CHR ''%'', hex_digit (n div 16), hex_digit (n mod 16)]))"

definition QueryEscape :: "string \<Rightarrow> string" where
  "QueryEscape s = concat (map escape_char s)"

fun char_list_less :: "string \<Rightarrow> string \<Rightarrow> bool" where
  "char_list_less _ [] = False"
| "char_list_less [] (_ # _) = True"
| "char_list_less (c # s) (d # t) =
     (let m = of_char c :: nat; n = of_char d :: nat in m < n \<or> m = n \<and> char_list_less s t)"

text \<open>\<open>url.Values\<close>: keys with their values in the order they were added.\<close>

type_synonym url_values = "(string \<times> string list) list"

fun Values_Append :: "string \<Rightarrow> string list \<Rightarrow> url_values \<Rightarrow> url_values" where
  "Values_Append k vs [] = [(k, vs)]"
| "Values_Append k vs ((k', ws) # m) =
     (if k = k' then (k', ws @ vs) # m else (k', ws) # Values_Append k vs m)"

definition Values_Add :: "string \<Rightarrow> string \<Rightarrow> url_values \<Rightarrow> url_values" where
  "Values_Add k v m = Values_Append k [v] m"

fun insert_key :: "(string \<times> string list) \<Rightarrow> url_values \<Rightarrow> url_values" where
  "insert_key kv [] = [kv]"
| "insert_key kv (x # m) = (if char_list_less (fst x) (fst kv) then x # insert_key kv m else kv # x # m)"

text \<open>\<open>Values.Encode\<close>: sorted by key, \<open>key=value\<close> joined by \<open>&\<close>.\<close>

definition Encode :: "url_values \<Rightarrow> string" where
  "Encode m = Join (concat (map (\<lambda>(k, vs). map (\<lambda>v. QueryEscape k @ ''='' @ QueryEscape v) vs)
     (foldr insert_key m []))) ''&''"

end
