(* ===== verification/InetUrl.thy ===== *)
theory InetUrl
  imports HttpMessage
begin

text \<open>
  \<open>agent/pkg/httpclient/customhttp/request.go\<close>: requests for addresses of the form
  \<open>inet://host?args/dest/path\<close> go to a fixed portal, with the host and the destination
  in headers. The package variable \<open>inetAddr\<close> is passed in and out.
\<close>

record inet_url =
  portalHost :: string
  portalDest :: string
  portalUrl :: string
  portalArgs :: "string \<rightharpoonup> string"

definition no_inet_url :: inet_url where
  "no_inet_url = \<lparr>portalHost = [], portalDest = [], portalUrl = [], portalArgs = Map.empty\<rparr>"

definition ErrInvalidAddr :: go_error where
  "ErrInvalidAddr = ''customhttp: invalid inetaddr''"

definition portalHostHeader :: string where
  "portalHostHeader = ''X-Portal-Host''"

definition portalDestHeader :: string where
  "portalDestHeader = ''X-Portal-Dest''"

text \<open>The loop over \<open>argPairs\<close>: pairs that are not \<open>key=value\<close> are skipped.\<close>

definition add_pair :: "(string \<rightharpoonup> string) \<Rightarrow> string \<Rightarrow> (string \<rightharpoonup> string)" where
  "add_pair args pair =
     (let argParts = Split pair CHR ''=''
      in if length argParts = 2 then args(argParts ! 0 \<mapsto> argParts ! 1) else args)"

definition parseInetUrl :: "string \<Rightarrow> inet_url \<times> go_error option" where
  "parseInetUrl url0 =
     (let url1 = TrimPrefix url0 ''inet://'';
          url = ReplaceAll url1 ''//'' ''/'';
          parts = SplitN url CHR ''/'' 3
      in if length parts < 2 then (no_inet_url, Some (''addr:'' @ url @ '': '' @ ErrInvalidAddr))
         else
           let host = parts ! 0;
               dest = parts ! 1;
               purl = (if length parts > 2 then parts ! 2 else [])
           in case Index host ''?'' of
                None \<Rightarrow> (\<lparr>portalHost = host, portalDest = dest, portalUrl = purl,
                           portalArgs = Map.empty\<rparr>, None)
              | Some pos \<Rightarrow>
                  (\<lparr>portalHost = take pos host, portalDest = dest, portalUrl = purl,
                    portalArgs = foldl add_pair Map.empty
                      (Split (drop (Suc pos) host) CHR ''&'')\<rparr>, None))"

text \<open>\<open>NewRequest\<close>: the result and the new value of \<open>inetAddr\<close>.\<close>

definition custom_NewRequest :: "url_check \<Rightarrow> string \<Rightarrow> string \<Rightarrow> string \<Rightarrow> body \<Rightarrow>
    (go_error + http_request) \<times> string" where
  "custom_NewRequest url_error inetAddr0 method url b =
     (if \<not> HasPrefix url ''inet://'' then (http_NewRequest url_error method url b, inetAddr0)
      else
        let inetAddr = TrimPrefix inetAddr0 ''http://''
        in case parseInetUrl url of
             (_, Some e) \<Rightarrow> (Inl e, inetAddr)
           | (p, None) \<Rightarrow>
               (case http_NewRequest url_error method
                       (''http://'' @ inetAddr @ ''/'' @ portalUrl p) b of
                  Inl e \<Rightarrow> (Inl e, inetAddr)
                | Inr req \<Rightarrow>
                    (Inr (req\<lparr>rq_header :=
                       Header_Set portalDestHeader (portalDest p)
                         (Header_Set portalHostHeader (portalHost p) (rq_header req))\<rparr>),
                     inetAddr)))"

subsection \<open>Which addresses are accepted\<close>

lemma ReplaceAll_slash: "CHR ''/'' \<in> set (ReplaceAll s ''//'' ''/'') \<longleftrightarrow> CHR ''/'' \<in> set s"
proof (induction s rule: length_induct)
  case (1 s)
  show ?case
  proof (cases "HasPrefix s ''//''")
    case True
    then obtain t where "s = ''//'' @ t" by (metis HasPrefix_iff_prefix prefix_def)
    then show ?thesis using ReplaceAll_hit [of "''//''" t "''/''"] by simp
  next
    case False
    then show ?thesis using 1 by (cases s) (auto simp: ReplaceAll_miss)
  qed
qed

lemma ReplaceAll_none: "Index s old = None \<Longrightarrow> ReplaceAll s old new = s"
proof (induction s)
  case (Cons x s)
  from Cons.prems have "\<not> HasPrefix (x # s) old" "Index s old = None"
    by (subst (asm) Index.simps; simp split: if_splits)+
  then show ?case by (simp add: ReplaceAll_miss Cons.IH)
qed simp

lemma length_SplitN_2: "length (SplitN s c 3) < 2 \<longleftrightarrow> c \<notin> set s"
  by (simp add: numeral_3_eq_3)

text \<open>
  \<open>parseInetUrl\<close> refuses an address exactly when it holds no slash after the
  \<open>inet://\<close> prefix (repeated slashes do not matter), and then returns empty parts.
\<close>

lemma parseInetUrl_error_iff:
  "(snd (parseInetUrl u) = None \<longleftrightarrow> CHR ''/'' \<in> set (TrimPrefix u ''inet://''))
    \<and> (fst (parseInetUrl u) = no_inet_url \<or> snd (parseInetUrl u) = None)"
proof -
  let ?u = "ReplaceAll (TrimPrefix u ''inet://'') ''//'' ''/''"
  have "length (SplitN ?u CHR ''/'' 3) < 2 \<longleftrightarrow> CHR ''/'' \<notin> set (TrimPrefix u ''inet://'')"
    by (simp only: length_SplitN_2 ReplaceAll_slash)
  then show ?thesis by (auto simp: parseInetUrl_def Let_def split: option.split)
qed

definition show_args :: "(string \<times> string) list \<Rightarrow> string" where
  "show_args args =
     (if args = [] then [] else ''?'' @ Join (map (\<lambda>(k, v). k @ ''='' @ v) args) ''&'')"

definition arg_safe :: "string \<Rightarrow> bool" where
  "arg_safe s \<longleftrightarrow> CHR ''='' \<notin> set s \<and> CHR ''&'' \<notin> set s \<and> CHR ''/'' \<notin> set s"

lemma add_pair_show: "arg_safe k \<Longrightarrow> arg_safe v \<Longrightarrow> add_pair m (k @ ''='' @ v) = m(k \<mapsto> v)"
  by (simp add: add_pair_def arg_safe_def Split_append Split_no_sep)

lemma fold_show_args:
  "\<forall>(k, v) \<in> set args. arg_safe k \<and> arg_safe v \<Longrightarrow>
     foldl add_pair m (map (\<lambda>(k, v). k @ ''='' @ v) args) = m ++ map_of (rev args)"
proof (induction args arbitrary: m)
  case (Cons a args)
  obtain k v where a: "a = (k, v)" by (cases a)
  with Cons.prems have "add_pair m (k @ ''='' @ v) = m(k \<mapsto> v)"
    by (intro add_pair_show) auto
  moreover have "foldl add_pair (m(k \<mapsto> v)) (map (\<lambda>(k, v). k @ ''='' @ v) args)
      = m(k \<mapsto> v) ++ map_of (rev args)"
    using Cons.prems by (intro Cons.IH) simp
  ultimately show ?case by (simp add: a)
qed simp

lemma Split_show_args:
  "args \<noteq> [] \<Longrightarrow> \<forall>(k, v) \<in> set args. arg_safe k \<and> arg_safe v \<Longrightarrow>
     Split (Join (map (\<lambda>(k, v). k @ ''='' @ v) args) ''&'') CHR ''&''
       = map (\<lambda>(k, v). k @ ''='' @ v) args"
  by (rule Split_Join) (simp, fastforce simp: arg_safe_def)

lemma Join_no_char: "c \<notin> set sep \<Longrightarrow> \<forall>w \<in> set ws. c \<notin> set w \<Longrightarrow> c \<notin> set (Join ws sep)"
  by (induction ws sep rule: Join.induct) auto

lemma show_args_no_slash:
  assumes "\<forall>(k, v) \<in> set args. arg_safe k \<and> arg_safe v"
  shows "CHR ''/'' \<notin> set (show_args args)"
proof -
  have "\<forall>w \<in> set (map (\<lambda>(k, v). k @ ''='' @ v) args). CHR ''/'' \<notin> set w"
    using assms by (fastforce simp: arg_safe_def)
  then have "CHR ''/'' \<notin> set (Join (map (\<lambda>(k, v). k @ ''='' @ v) args) ''&'')"
    by (intro Join_no_char) simp_all
  then show ?thesis by (simp add: show_args_def)
qed

text \<open>
  C39. Printing and parsing: an address with a host (no slash, no question mark), query
  arguments, a destination without slash and a path, no two slashes in a row after the
  prefix, is parsed back into exactly these parts; a key given twice keeps its last value.
\<close>

theorem parseInetUrl_roundtrip:
  assumes host: "CHR ''/'' \<notin> set host" "CHR ''?'' \<notin> set host"
    and args: "\<forall>(k, v) \<in> set args. arg_safe k \<and> arg_safe v"
    and dest: "CHR ''/'' \<notin> set dest"
    and single: "\<not> Contains (host @ show_args args @ ''/'' @ dest @ ''/'' @ path) ''//''"
  shows "parseInetUrl (''inet://'' @ host @ show_args args @ ''/'' @ dest @ ''/'' @ path)
    = (\<lparr>portalHost = host, portalDest = dest, portalUrl = path,
        portalArgs = map_of (rev args)\<rparr>, None)"
proof -
  let ?h = "host @ show_args args"
  let ?u = "host @ show_args args @ ''/'' @ dest @ ''/'' @ path"
  have rep: "ReplaceAll ?u ''//'' ''/'' = ?u"
    using single by (intro ReplaceAll_none) (simp add: Contains_def)
  have h: "CHR ''/'' \<notin> set ?h" using host(1) show_args_no_slash [OF args] by simp
  have u: "?u = ?h @ CHR ''/'' # dest @ CHR ''/'' # path" by simp
  have parts: "SplitN ?u CHR ''/'' 3 = [?h, dest, path]"
    unfolding u numeral_3_eq_3 SplitN_append [OF h] SplitN_append [OF dest] by simp
  have p: "parseInetUrl (''inet://'' @ ?u)
      = (case Index ?h ''?'' of
           None \<Rightarrow> (\<lparr>portalHost = ?h, portalDest = dest, portalUrl = path,
                      portalArgs = Map.empty\<rparr>, None)
         | Some pos \<Rightarrow> (\<lparr>portalHost = take pos ?h, portalDest = dest, portalUrl = path,
             portalArgs = foldl add_pair Map.empty (Split (drop (Suc pos) ?h) CHR ''&'')\<rparr>, None))"
    unfolding parseInetUrl_def Let_def TrimPrefix_append rep parts by (simp split: option.split)
  show ?thesis
  proof (cases "args = []")
    case True
    then have "Index ?h ''?'' = None" using host(2) by (simp add: show_args_def Index_byte_None)
    then show ?thesis unfolding p by (simp add: True show_args_def)
  next
    case False
    let ?a = "Join (map (\<lambda>(k, v). k @ ''='' @ v) args) ''&''"
    have ha: "?h = host @ CHR ''?'' # ?a" using False by (simp add: show_args_def)
    have "Index ?h ''?'' = Some (length host)" unfolding ha using host(2) by (rule Index_byte_append)
    moreover have "foldl add_pair Map.empty (Split ?a CHR ''&'') = map_of (rev args)"
      unfolding Split_show_args [OF False args] fold_show_args [OF args] by simp
    moreover have "take (length host) ?h = host" "drop (Suc (length host)) ?h = ?a"
      by (simp_all add: ha)
    ultimately show ?thesis unfolding p by simp
  qed
qed

theorem parseInetUrl_roundtrip_witness:
  "parseInetUrl ''inet://abc?ssl=on&direct=on/123/qq?a=b''
    = (\<lparr>portalHost = ''abc'', portalDest = ''123'', portalUrl = ''qq?a=b'',
        portalArgs = map_of (rev [(''ssl'', ''on''), (''direct'', ''on'')])\<rparr>, None)"
proof -
  let ?args = "[(''ssl'', ''on''), (''direct'', ''on'')]"
  have "CHR ''/'' \<notin> set ''abc''" "CHR ''?'' \<notin> set ''abc''" "CHR ''/'' \<notin> set ''123''"
    "\<forall>(k, v) \<in> set ?args. arg_safe k \<and> arg_safe v"
    by (simp_all add: arg_safe_def)
  moreover have "\<not> Contains (''abc'' @ show_args ?args @ ''/'' @ ''123'' @ ''/'' @ ''qq?a=b'') ''//''"
    by (simp add: show_args_def Contains_def Index.simps HasPrefix_def)
  ultimately show ?thesis
    using parseInetUrl_roundtrip [of "''abc''" ?args "''123''" "''qq?a=b''"]
    by (simp add: show_args_def)
qed

text \<open>
  A request for an accepted \<open>inet://\<close> address goes to the portal (its configured
  address less an \<open>http://\<close> prefix) at the parsed path, and carries the parsed host and
  destination in the two portal headers; a request for any other address is an ordinary
  request and leaves the portal address as it is.
\<close>

lemma custom_NewRequest_portal:
  "case custom_NewRequest (\<lambda>_ _. None) addr method url b of
     (r, addr') \<Rightarrow>
       if HasPrefix url ''inet://''
       then addr' = TrimPrefix addr ''http://'' \<and>
         (case parseInetUrl url of
            (_, Some e) \<Rightarrow> r = Inl e
          | (p, None) \<Rightarrow>
              (\<exists>req. r = Inr req \<and> rq_url req = ''http://'' @ addr' @ ''/'' @ portalUrl p
                 \<and> rq_method req = method \<and> rq_body req = b
                 \<and> Header_Get ''X-Portal-Host'' (rq_header req) = portalHost p
                 \<and> Header_Get ''X-Portal-Dest'' (rq_header req) = portalDest p))
       else addr' = addr \<and> r = http_NewRequest (\<lambda>_ _. None) method url b"
proof -
  have "CanonicalHeaderKey ''X-Portal-Host'' \<noteq> CanonicalHeaderKey ''X-Portal-Dest''"
    by code_simp
  then show ?thesis
    by (auto simp: custom_NewRequest_def http_NewRequest_def Let_def Header_Get_Set
        portalHostHeader_def portalDestHeader_def split: prod.split option.split)
qed

end
