(* ===== verification/Goroutines.thy ===== *)
theory Goroutines
  imports Machine GoMonad
begin

text \<open>
  A process of goroutines over one shared store. A goroutine is the list of actions it has
  left; an action runs at once, and answers with the actions that replace it. It may panic,
  which ends the process, or block, which leaves the goroutine where it is. \<open>spawned\<close> reads
  the new goroutines off the action and the stores before and after it; the first argument
  of \<open>act\<close> resolves what a \<open>select\<close> or an outside caller chooses.

  The locale \<open>critical_sections\<close> is the contract between such a process and its mutexes:
  which action waits for which lock, which are inside a section, and what an action may do
  to a lock. Mutual exclusion, the fate of a lock that was not given back and the progress
  of the waiting are proved once in it.
\<close>

subsection \<open>Processes\<close>

record ('s, 'i) process =
  store :: 's
  pool :: "'i list list"
  crashed :: bool

inductive pool_step :: "('c \<Rightarrow> 'i \<Rightarrow> ('s, 'i list) prog) \<Rightarrow> ('i \<Rightarrow> 's \<Rightarrow> 's \<Rightarrow> 'i list list) \<Rightarrow>
    ('s, 'i) process \<Rightarrow> ('s, 'i) process \<Rightarrow> bool" for act spawned where
  runs: "\<not> crashed P \<Longrightarrow> k < length (pool P) \<Longrightarrow> pool P ! k = i # is \<Longrightarrow>
    act c i (store P) = (Ret js, t) \<Longrightarrow>
    pool_step act spawned P
      (P\<lparr>store := t, pool := (pool P)[k := js @ is] @ spawned i (store P) t\<rparr>)"
| panics: "\<not> crashed P \<Longrightarrow> k < length (pool P) \<Longrightarrow> pool P ! k = i # is \<Longrightarrow>
    act c i (store P) = (Panic e, t) \<Longrightarrow> pool_step act spawned P (P\<lparr>store := t, crashed := True\<rparr>)"

inductive_cases pool_stepE: "pool_step act spawned P Q"

definition start_process :: "'s \<Rightarrow> 'i list \<Rightarrow> ('s, 'i) process \<Rightarrow> bool" where
  "start_process s code P \<longleftrightarrow> P = \<lparr>store = s, pool = [code], crashed = False\<rparr>"

lemma reach_act:
  assumes "reach init (pool_step act spawned) P" "\<not> crashed P" "k < length (pool P)"
    and "pool P ! k = i # rest" "act c i (store P) = (Ret js, t)"
    and "Q = P\<lparr>store := t, pool := (pool P)[k := js @ rest] @ spawned i (store P) t\<rparr>"
  shows "reach init (pool_step act spawned) Q"
  unfolding assms(6) by (rule reach_step [OF assms(1)], rule pool_step.runs) (rule assms)+

text \<open>One goroutine on its own.\<close>

inductive solo :: "('c \<Rightarrow> 'i \<Rightarrow> ('s, 'i list) prog) \<Rightarrow> 'i list \<times> 's \<Rightarrow> 'i list \<times> 's \<Rightarrow> bool" for act where
  solo_stop: "solo act x x"
| solo_act: "act c i s = (Ret js, t) \<Longrightarrow> solo act (js @ is, t) x \<Longrightarrow> solo act (i # is, s) x"

lemma solo_trans: "solo act x y \<Longrightarrow> solo act y z \<Longrightarrow> solo act x z"
  by (induction rule: solo.induct) (auto intro: solo_act)

lemma solo_append: "solo act x y \<Longrightarrow> solo act (fst x @ is, snd x) (fst y @ is, snd y)"
  by (induction rule: solo.induct) (auto intro: solo_stop solo_act)

lemma solo_then:
  assumes "solo act (xs, s) ([], t)" "solo act (ys, t) z"
  shows "solo act (xs @ ys, s) z"
  using solo_trans [OF solo_append [OF assms(1), of ys]] assms(2) by simp

text \<open>What a goroutine does on its own it can do in the process, the others waiting.\<close>

lemma steps_append: "steps R n P Q \<Longrightarrow> steps R m Q S \<Longrightarrow> steps R (n + m) P S"
  by (induction rule: steps.induct) (auto intro: steps_Suc)

lemma solo_steps:
  assumes "solo act x y" "\<not> crashed P" "k < length (pool P)" "pool P ! k = fst x" "store P = snd x"
  shows "\<exists>n born. steps (pool_step act spawned) n P
     (P\<lparr>store := snd y, pool := (pool P)[k := fst y] @ born\<rparr>)"
  using assms
proof (induction arbitrary: P rule: solo.induct)
  case (solo_stop x)
  have "steps (pool_step act spawned) 0 P P" by (rule steps_0)
  moreover have "P\<lparr>store := snd x, pool := (pool P)[k := fst x] @ []\<rparr> = P"
    using solo_stop by (cases P) (simp, metis list_update_id)
  ultimately show ?case by metis
next
  case (solo_act c i s js t "is" x)
  let ?b = "spawned i s t"
  let ?Q = "P\<lparr>store := t, pool := (pool P)[k := js @ is] @ ?b\<rparr>"
  have Q: "\<not> crashed ?Q" "k < length (pool ?Q)" "pool ?Q ! k = fst (js @ is, t)" "store ?Q = snd (js @ is, t)"
    using solo_act.prems by (simp_all add: nth_append)
  from solo_act.IH [OF this] obtain n born where
    n: "steps (pool_step act spawned) n ?Q
          (?Q\<lparr>store := snd x, pool := (pool ?Q)[k := fst x] @ born\<rparr>)" by blast
  have "pool_step act spawned P ?Q"
    using pool_step.runs [of P k i "is" act c js t spawned] solo_act by simp
  from steps_Suc [OF this n] show ?case
    using solo_act.prems by (auto simp: list_update_append)
qed

subsection \<open>Mutexes\<close>

definition enters :: "('i \<Rightarrow> 'l option) \<Rightarrow> 'l \<Rightarrow> 'i list \<Rightarrow> bool" where
  "enters inside l code = (case code of [] \<Rightarrow> False | i # _ \<Rightarrow> inside i = Some l)"

lemma enters_simps [simp]:
  "enters inside l [] = False" "enters inside l (i # is) = (inside i = Some l)"
  by (simp_all add: enters_def)

text \<open>
  An action outside of the section leaves the lock alone or takes it when it is free; one
  inside stays inside, or leaves and does with the lock what it likes.
\<close>

fun lock_change :: "bool \<Rightarrow> bool \<Rightarrow> bool \<Rightarrow> bool \<Rightarrow> bool" where
  "lock_change False False h h' = (h' = h)"
| "lock_change False True h h' = (\<not> h \<and> h')"
| "lock_change True True h h' = (h' = h)"
| "lock_change True False h h' = True"

lemma length_filter_update:
  assumes "k < length xs"
  shows "length (filter Q (xs[k := y])) + (if Q (xs ! k) then 1 else 0)
       = length (filter Q xs) + (if Q y then 1 else 0)"
proof -
  have "length (filter Q xs) = length (filter Q (take k xs @ xs ! k # drop (Suc k) xs))"
    using id_take_nth_drop [OF assms] by simp
  then show ?thesis by (simp add: upd_conv_take_nth_drop [OF assms])
qed

lemma two_in_filter:
  assumes "i < length xs" "j < length xs" "Q (xs ! i)" "Q (xs ! j)" "i \<noteq> j"
  shows "2 \<le> length (filter Q xs)"
proof -
  have "card {i, j} \<le> card {k. k < length xs \<and> Q (xs ! k)}"
    using assms by (intro card_mono) auto
  then show ?thesis using assms(5) by (simp add: length_filter_conv_card)
qed

lemma filter_none: "(\<And>x. x \<in> set xs \<Longrightarrow> \<not> Q x) \<Longrightarrow> length (filter Q xs) = 0"
  by (simp add: filter_empty_conv)

locale critical_sections =
  fixes act :: "'c \<Rightarrow> 'i \<Rightarrow> ('s, 'i list) prog"
    and spawned :: "'i \<Rightarrow> 's \<Rightarrow> 's \<Rightarrow> 'i list list"
    and ok :: "'s \<Rightarrow> bool" and knows :: "'s \<Rightarrow> 'i \<Rightarrow> bool"
    and inside :: "'i \<Rightarrow> 'l option" and waits :: "'i \<Rightarrow> 'l option"
    and held :: "'s \<Rightarrow> 'l \<Rightarrow> bool" and rank :: "'i \<Rightarrow> nat"
  assumes ok_step: "ok s \<Longrightarrow> knows s i \<Longrightarrow> act c i s = (Ret js, t) \<Longrightarrow> ok t"
    and knows_step: "ok s \<Longrightarrow> knows s i \<Longrightarrow> act c i s = (Ret js, t) \<Longrightarrow> list_all (knows t) js"
    and knows_grows: "ok s \<Longrightarrow> knows s i \<Longrightarrow> act c i s = (Ret js, t) \<Longrightarrow> knows s j \<Longrightarrow> knows t j"
    and spawned_fine: "ok s \<Longrightarrow> knows s i \<Longrightarrow> act c i s = (Ret js, t) \<Longrightarrow> code \<in> set (spawned i s t) \<Longrightarrow>
      list_all (knows t) code \<and> list_all (\<lambda>j. inside j = None) code"
    and tail_outside: "ok s \<Longrightarrow> knows s i \<Longrightarrow> act c i s = (Ret js, t) \<Longrightarrow> list_all (\<lambda>j. inside j = None) (tl js)"
    and lock_law: "ok s \<Longrightarrow> knows s i \<Longrightarrow> act c i s = (Ret js, t) \<Longrightarrow>
      lock_change (inside i = Some l) (enters inside l js) (held s l) (held t l)"
    and section_runs: "ok s \<Longrightarrow> knows s i \<Longrightarrow> inside i = Some l \<Longrightarrow> fst (act c i s) \<noteq> Blocked"
    and section_short: "inside i = Some l \<Longrightarrow> act c i s = (Ret js, t) \<Longrightarrow> enters inside l js \<Longrightarrow>
      rank (hd js) < rank i"
    and waits_outside: "waits i = Some l \<Longrightarrow> inside i = None"
    and waits_blocked: "waits i = Some l \<Longrightarrow> held s l \<Longrightarrow> fst (act c i s) = Blocked"
    and waits_over: "ok s \<Longrightarrow> knows s i \<Longrightarrow> waits i = Some l \<Longrightarrow> \<not> held s l \<Longrightarrow> fst (act c i s) \<noteq> Blocked"
begin

definition code_ok :: "'s \<Rightarrow> 'i list \<Rightarrow> bool" where
  "code_ok s code \<longleftrightarrow> list_all (knows s) code \<and> list_all (\<lambda>j. inside j = None) (tl code)"

text \<open>How many goroutines are inside the section of a lock.\<close>

definition crowd :: "('s, 'i) process \<Rightarrow> 'l \<Rightarrow> nat" where
  "crowd P l = length (filter (enters inside l) (pool P))"

definition pool_inv :: "('s, 'i) process \<Rightarrow> bool" where
  "pool_inv P \<longleftrightarrow> crashed P \<or> (ok (store P) \<and> (\<forall>code \<in> set (pool P). code_ok (store P) code)
     \<and> (\<forall>l. crowd P l \<le> (if held (store P) l then 1 else 0)))"

text \<open>A lock that is held while nobody is inside of its section.\<close>

definition leaked :: "'l \<Rightarrow> ('s, 'i) process \<Rightarrow> bool" where
  "leaked l P \<longleftrightarrow> held (store P) l \<and> crowd P l = 0"

lemma enters_append:
  "list_all (\<lambda>j. inside j = None) is \<Longrightarrow> enters inside l (js @ is) = enters inside l js"
  by (cases js; cases "is") auto

text \<open>How an action of one goroutine changes the crowd at a lock.\<close>

lemma crowd_run:
  assumes "pool_inv P" "\<not> crashed P" "k < length (pool P)" "pool P ! k = i # is"
    and "act c i (store P) = (Ret js, t)"
    and "Q = P\<lparr>store := t, pool := (pool P)[k := js @ is] @ spawned i (store P) t\<rparr>"
  shows "crowd Q l + (if inside i = Some l then 1 else 0)
       = crowd P l + (if enters inside l js then 1 else 0)"
proof -
  have "code_ok (store P) (i # is)"
    using assms(1-4) nth_mem [OF assms(3)] by (simp add: pool_inv_def)
  then have k: "ok (store P)" "knows (store P) i" "list_all (\<lambda>j. inside j = None) is"
    using assms(1,2) by (simp_all add: code_ok_def pool_inv_def)
  have "length (filter (enters inside l) (spawned i (store P) t)) = 0"
  proof (rule filter_none)
    fix code assume "code \<in> set (spawned i (store P) t)"
    from spawned_fine [OF k(1,2) assms(5) this] show "\<not> enters inside l code"
      by (cases code) auto
  qed
  then show ?thesis
    using length_filter_update [OF assms(3), of "enters inside l" "js @ is"] assms(4,6)
      enters_append [OF k(3)] by (simp add: crowd_def)
qed

lemma crowd_allowed:
  assumes "lock_change a b h h'" "n' + (if a then 1 else 0) = n + (if b then 1 else (0::nat))"
    and "n \<le> (if h then 1 else 0)"
  shows "n' \<le> (if h' then 1 else 0)"
  using assms by (cases "(a, b, h, h')" rule: lock_change.cases) (auto split: if_splits)

lemma pool_step_inv:
  assumes "pool_inv P" "pool_step act spawned P Q" shows "pool_inv Q"
  using assms(2)
proof (cases rule: pool_step.cases)
  case (runs k i "is" c js t)
  have "code_ok (store P) (i # is)"
    using assms(1) runs(2-4) nth_mem [OF runs(3)] by (simp add: pool_inv_def)
  then have k: "ok (store P)" "knows (store P) i" and
    tl: "list_all (knows (store P)) is" "list_all (\<lambda>j. inside j = None) is"
    using assms(1) runs(2) by (simp_all add: code_ok_def pool_inv_def)
  note step = k runs(5)
  have old: "code_ok t code" if "code_ok (store P) code" for code
    using that knows_grows [OF step] by (auto simp: code_ok_def list_all_iff)
  have new: "code_ok t (js @ is)"
    using knows_step [OF step] tail_outside [OF step] tl knows_grows [OF step]
    by (cases js; cases "is") (auto simp: code_ok_def list_all_iff)
  have born: "code_ok t code" if "code \<in> set (spawned i (store P) t)" for code
    using spawned_fine [OF step that] by (cases code) (auto simp: code_ok_def)
  have "crowd P l \<le> (if held (store P) l then 1 else 0)" for l
    using assms(1) runs(2) by (simp add: pool_inv_def)
  then have "crowd Q l \<le> (if held t l then 1 else 0)" for l
    by (rule crowd_allowed [OF lock_law [OF step] crowd_run [OF assms(1) runs(2-5,1)]])
  moreover have "code_ok t code" if "code \<in> set (pool Q)" for code
    using that old new born assms(1) runs(1,2)
    by (auto simp: pool_inv_def dest!: subsetD [OF set_update_subset_insert])
  ultimately show ?thesis
    using ok_step [OF step] runs(1) by (simp add: pool_inv_def)
next
  case (panics k i "is" c e t)
  then show ?thesis by (simp add: pool_inv_def)
qed

lemma steps_pool_inv: "steps (pool_step act spawned) n P Q \<Longrightarrow> pool_inv P \<Longrightarrow> pool_inv Q"
  by (induction rule: steps.induct) (auto intro: pool_step_inv)

lemma reach_pool_inv:
  assumes "\<And>P. init P \<Longrightarrow> pool_inv P"
  shows "reach init (pool_step act spawned) P \<Longrightarrow> pool_inv P"
  by (induction rule: reach.induct) (auto intro: assms pool_step_inv)

lemma start_pool_inv:
  assumes "ok s" "code_ok s code" "\<And>l. \<not> enters inside l code" "start_process s code P"
  shows "pool_inv P"
  using assms by (auto simp: start_process_def pool_inv_def crowd_def)

subsection \<open>Mutual exclusion\<close>

lemma sections_exclude:
  assumes "pool_inv P" "\<not> crashed P" "j < length (pool P)" "k < length (pool P)"
    and "enters inside l (pool P ! j)" "enters inside l (pool P ! k)"
  shows "j = k \<and> held (store P) l"
proof -
  have c: "crowd P l \<le> (if held (store P) l then 1 else 0)"
    using assms(1,2) by (simp add: pool_inv_def)
  then have "j = k" using two_in_filter [OF assms(3-6)] by (fastforce simp: crowd_def split: if_splits)
  moreover have "crowd P l \<noteq> 0"
    using assms(3,5) nth_mem [OF assms(3)] by (auto simp: crowd_def filter_empty_conv)
  ultimately show ?thesis using c by (auto split: if_splits)
qed

subsection \<open>Locks that are not given back\<close>

lemma leak_step:
  assumes "pool_inv P" "leaked l P" "pool_step act spawned P Q" "\<not> crashed Q"
  shows "leaked l Q"
  using assms(3)
proof (cases rule: pool_step.cases)
  case (runs k i "is" c js t)
  have "code_ok (store P) (i # is)"
    using assms(1) runs(2-4) nth_mem [OF runs(3)] by (simp add: pool_inv_def)
  then have k: "ok (store P)" "knows (store P) i"
    using assms(1) runs(2) by (simp_all add: code_ok_def pool_inv_def)
  have "\<not> enters inside l (pool P ! k)"
    using assms(2) nth_mem [OF runs(3)] by (auto simp: leaked_def crowd_def filter_empty_conv)
  then have o: "inside i \<noteq> Some l" using runs(4) by simp
  have "lock_change False (enters inside l js) True (held t l)"
    using lock_law [OF k runs(5), of l] o assms(2) by (simp add: leaked_def)
  then have "\<not> enters inside l js \<and> held t l" by (cases "enters inside l js") auto
  then show ?thesis
    using crowd_run [OF assms(1) runs(2-5,1), of l] o assms(2) runs(1) by (simp add: leaked_def)
qed (use assms(4) in simp)

lemma crashed_end: "crashed P \<Longrightarrow> \<not> pool_step act spawned P Q"
  by (auto elim: pool_stepE)

lemma waiter_stuck:
  assumes "steps (pool_step act spawned) n P Q" "pool_inv P" "leaked l P" "\<not> crashed Q"
    and "k < length (pool P)" "pool P ! k = i # is" "waits i = Some l"
  shows "leaked l Q \<and> k < length (pool Q) \<and> pool Q ! k = i # is"
  using assms
proof (induction rule: steps.induct)
  case (steps_Suc P R n Q)
  have "\<not> crashed R"
    using steps_Suc.hyps(2) steps_Suc.prems(3) by (cases rule: steps.cases) (auto dest: crashed_end)
  have l: "leaked l R" by (rule leak_step [OF steps_Suc.prems(1,2) steps_Suc.hyps(1) \<open>\<not> crashed R\<close>])
  have "k < length (pool R) \<and> pool R ! k = i # is"
    using steps_Suc.hyps(1)
  proof (cases rule: pool_step.cases)
    case (runs k' j "js" c ks t)
    have "k' \<noteq> k"
      using waits_blocked [OF steps_Suc.prems(6), of "store P" c] runs(4,5) steps_Suc.prems(2,5)
      by (auto simp: leaked_def)
    then show ?thesis using runs steps_Suc.prems by (simp add: nth_append)
  qed (use steps_Suc.prems in simp)
  with l show ?case
    using steps_Suc pool_step_inv by blast
qed simp

text \<open>A lock leaks only when a goroutine leaves its section without giving it back.\<close>

lemma leak_origin:
  assumes "pool_inv P" "pool_step act spawned P Q" "\<not> crashed Q" "\<not> leaked l P" "leaked l Q"
  shows "\<exists>k < length (pool P). \<exists>i is c js. pool P ! k = i # is \<and> inside i = Some l
    \<and> act c i (store P) = (Ret js, store Q) \<and> \<not> enters inside l js
    \<and> k < length (pool Q) \<and> pool Q ! k = js @ is"
  using assms(2)
proof (cases rule: pool_step.cases)
  case (runs k i "is" c js t)
  have "code_ok (store P) (i # is)"
    using assms(1) runs(2-4) nth_mem [OF runs(3)] by (simp add: pool_inv_def)
  then have k: "ok (store P)" "knows (store P) i"
    using assms(1) runs(2) by (simp_all add: code_ok_def pool_inv_def)
  note law = lock_law [OF k runs(5), of l] and crowd = crowd_run [OF assms(1) runs(2-5,1), of l]
  have t: "store Q = t" "held t l" "crowd Q l = 0"
    using runs(1) assms(5) by (simp_all add: leaked_def)
  have out: "\<not> enters inside l js"
  proof
    assume e: "enters inside l js"
    then have "inside i = Some l" "crowd P l = 0" using crowd t(3) by (auto split: if_splits)
    then show False
      using nth_mem [OF runs(3)] runs(4) by (auto simp: crowd_def filter_empty_conv)
  qed
  have "inside i = Some l"
  proof (rule ccontr)
    assume "inside i \<noteq> Some l"
    then have "leaked l P" using law crowd out t by (simp add: leaked_def)
    then show False using assms(4) by simp
  qed
  moreover have "k < length (pool Q)" "pool Q ! k = js @ is"
    using runs(1,3) by (simp_all add: nth_append)
  ultimately show ?thesis using runs(3-5) t(1) out by metis
qed (use assms(3) in simp)

subsection \<open>Progress\<close>

lemma section_ends:
  assumes "pool_inv P" "\<not> crashed P" "k < length (pool P)" "pool P ! k = i # is" "inside i = Some l"
  shows "\<exists>n Q. n \<le> Suc (rank i) \<and> steps (pool_step act spawned) n P Q \<and> (crashed Q \<or>
     (k < length (pool Q) \<and> crowd Q l = 0
        \<and> (\<forall>j < length (pool P). j < length (pool Q) \<and> (j \<noteq> k \<longrightarrow> pool Q ! j = pool P ! j))))"
  using assms
proof (induction "rank i" arbitrary: P i "is" rule: less_induct)
  case less
  have "code_ok (store P) (i # is)"
    using less.prems nth_mem [OF less.prems(3)] by (simp add: pool_inv_def)
  then have k: "ok (store P)" "knows (store P) i" and tl: "list_all (\<lambda>j. inside j = None) is"
    using less.prems(1,2) by (simp_all add: code_ok_def pool_inv_def)
  obtain c :: 'c where True by simp
  obtain r t where a: "act c i (store P) = (r, t)" by fastforce
  then consider js where "r = Ret js" | e where "r = Panic e"
    using section_runs [OF k less.prems(5), of c] by (cases r) auto
  then show ?case
  proof cases
    case (2 e)
    have "pool_step act spawned P (P\<lparr>store := t, crashed := True\<rparr>)"
      using pool_step.panics [OF less.prems(2-4), of act c e t spawned] a 2 by simp
    from steps_Suc [where step = "pool_step act spawned", OF this steps_0] show ?thesis by force
  next
    case (1 js)
    let ?Q = "P\<lparr>store := t, pool := (pool P)[k := js @ is] @ spawned i (store P) t\<rparr>"
    have st: "pool_step act spawned P ?Q"
      using pool_step.runs [OF less.prems(2-4), of act c js t spawned] a 1 by simp
    have Q: "\<not> crashed ?Q" "k < length (pool ?Q)" "pool ?Q ! k = js @ is"
      "\<forall>j < length (pool P). j < length (pool ?Q) \<and> (j \<noteq> k \<longrightarrow> pool ?Q ! j = pool P ! j)"
      using less.prems(2,3) by (simp_all add: nth_append)
    show ?thesis
    proof (cases "enters inside l js")
      case False
      moreover have "crowd P l \<le> 1"
        using less.prems(1,2) by (auto simp: pool_inv_def split: if_splits dest: spec [of _ l])
      ultimately have "crowd ?Q l = 0"
        using crowd_run [OF less.prems(1-4) _ refl, of c js t l] a 1 less.prems(5) by simp
      then show ?thesis
        using steps_Suc [where step = "pool_step act spawned", OF st steps_0] Q by (intro exI [of _ "Suc 0"] exI [of _ ?Q]) auto
    next
      case True
      then obtain i' js' where js: "js = i' # js'" "inside i' = Some l" by (cases js) auto
      have "act c i (store P) = (Ret js, t)" using a 1 by simp
      from section_short [OF less.prems(5) this True] have r: "rank i' < rank i" using js by simp
      obtain n R where n: "n \<le> Suc (rank i')" "steps (pool_step act spawned) n ?Q R"
        and R: "crashed R \<or> (k < length (pool R) \<and> crowd R l = 0
          \<and> (\<forall>j < length (pool ?Q). j < length (pool R) \<and> (j \<noteq> k \<longrightarrow> pool R ! j = pool ?Q ! j)))"
        using less.hyps [OF r pool_step_inv [OF less.prems(1) st] Q(1,2) _ js(2), of "js' @ is"]
          Q(3) js(1) by auto
      have "Suc n \<le> Suc (rank i)" using n(1) r by simp
      moreover have "crashed R \<or> (k < length (pool R) \<and> crowd R l = 0
          \<and> (\<forall>j < length (pool P). j < length (pool R) \<and> (j \<noteq> k \<longrightarrow> pool R ! j = pool P ! j)))"
        using R Q(4) by auto
      ultimately show ?thesis using steps_Suc [OF st n(2)] by blast
    qed
  qed
qed

text \<open>
  Who waits for a lock that has not leaked can be served: within the few actions that the
  goroutine inside has left, the lock is free (or lost, or the process has ended).
\<close>

lemma waiter_served:
  assumes "pool_inv P" "\<not> crashed P" "\<not> leaked l P" "\<And>i. rank i \<le> B"
    and "j < length (pool P)" "pool P ! j = w # ws" "waits w = Some l"
  shows "\<exists>n Q. n \<le> Suc B \<and> steps (pool_step act spawned) n P Q \<and> (crashed Q \<or> leaked l Q
     \<or> (j < length (pool Q) \<and> pool Q ! j = w # ws \<and> (\<forall>c. fst (act c w (store Q)) \<noteq> Blocked)))"
proof -
  have free: "fst (act c w (store Q)) \<noteq> Blocked" if "pool_inv Q" "\<not> crashed Q" "j < length (pool Q)"
    "pool Q ! j = w # ws" "\<not> held (store Q) l" for Q c
  proof -
    have "code_ok (store Q) (w # ws)" using that nth_mem [OF that(3)] by (simp add: pool_inv_def)
    then show ?thesis
      using that(1,2,5) assms(7) by (intro waits_over) (auto simp: code_ok_def pool_inv_def)
  qed
  show ?thesis
  proof (cases "held (store P) l")
    case False
    then show ?thesis using free [OF assms(1,2,5,6)] assms(5,6)
      by (intro exI [of _ 0] exI [of _ P]) (auto intro: steps_0)
  next
    case True
    then have "crowd P l \<noteq> 0" using assms(3) by (simp add: leaked_def)
    then obtain k where k: "k < length (pool P)" "enters inside l (pool P ! k)"
      by (auto simp: crowd_def filter_empty_conv in_set_conv_nth)
    then obtain i "is" where i: "pool P ! k = i # is" "inside i = Some l"
      by (cases "pool P ! k") auto
    have "j \<noteq> k" using i waits_outside [OF assms(7)] assms(6) by auto
    obtain n Q where n: "n \<le> Suc (rank i)" "steps (pool_step act spawned) n P Q" and
      Q: "crashed Q \<or> (k < length (pool Q) \<and> crowd Q l = 0
        \<and> (\<forall>j < length (pool P). j < length (pool Q) \<and> (j \<noteq> k \<longrightarrow> pool Q ! j = pool P ! j)))"
      using section_ends [OF assms(1,2) k(1) i] by blast
    have inv: "pool_inv Q" by (rule steps_pool_inv [OF n(2) assms(1)])
    have "n \<le> Suc B" using n(1) assms(4) [of i] by simp
    moreover have "crashed Q \<or> leaked l Q
       \<or> (j < length (pool Q) \<and> pool Q ! j = w # ws \<and> (\<forall>c. fst (act c w (store Q)) \<noteq> Blocked))"
      using Q free [OF inv] assms(5,6) \<open>j \<noteq> k\<close> unfolding leaked_def by metis
    ultimately show ?thesis using n(2) by blast
  qed
qed

end

end
