(* ===== verification/PortalAddr.thy ===== *)
theory PortalAddr
  imports InetUrl Goroutines
begin

text \<open>
  The package variable \<open>inetAddr\<close> of \<open>customhttp/request.go\<close> under interleaving.
  \<open>SetInetAddr\<close> writes it under the mutex \<open>mtx\<close>; \<open>NewRequest\<close> reads it, strips the scheme
  and writes it back without taking the mutex.
\<close>

record portal =
  inetAddr :: string
  mtx :: bool

datatype portal_action =
    LockAddr string                \<comment> \<open>\<open>SetInetAddr(addr)\<close>: \<open>mtx.Lock()\<close>\<close>
  | StoreAddr string               \<comment> \<open>\<open>inetAddr = addr\<close>\<close>
  | UnlockAddr                     \<comment> \<open>\<open>mtx.Unlock()\<close>\<close>
  | ReadAddr                       \<comment> \<open>\<open>strings.TrimPrefix(inetAddr, "http://")\<close>\<close>
  | WriteTrimmed string            \<comment> \<open>\<open>inetAddr = ...\<close>\<close>

definition SetInetAddr :: "string \<Rightarrow> portal_action list" where
  "SetInetAddr addr = [LockAddr addr]"

definition trim_addr :: "portal_action list" where
  "trim_addr = [ReadAddr]"

primrec portal_act :: "unit \<Rightarrow> portal_action \<Rightarrow> (portal, portal_action list) prog" where
  "portal_act c (LockAddr addr) = (\<lambda>s. if mtx s then (Blocked, s)
     else (Ret [StoreAddr addr], s\<lparr>mtx := True\<rparr>))"
| "portal_act c (StoreAddr addr) = (\<lambda>s. (Ret [UnlockAddr], s\<lparr>inetAddr := addr\<rparr>))"
| "portal_act c UnlockAddr = (\<lambda>s. if mtx s then (Ret [], s\<lparr>mtx := False\<rparr>)
     else (Panic ''sync: unlock of unlocked mutex'', s))"
| "portal_act c ReadAddr = (\<lambda>s. (Ret [WriteTrimmed (TrimPrefix (inetAddr s) ''http://'')], s))"
| "portal_act c (WriteTrimmed addr) = (\<lambda>s. (Ret [], s\<lparr>inetAddr := addr\<rparr>))"

definition portal_waits :: "portal_action \<Rightarrow> unit option" where
  "portal_waits a = (case a of LockAddr addr \<Rightarrow> Some () | _ \<Rightarrow> None)"

definition portal_inside :: "portal_action \<Rightarrow> unit option" where
  "portal_inside a = (case a of StoreAddr addr \<Rightarrow> Some () | UnlockAddr \<Rightarrow> Some () | _ \<Rightarrow> None)"

definition portal_rank :: "portal_action \<Rightarrow> nat" where
  "portal_rank a = (case a of UnlockAddr \<Rightarrow> 0 | _ \<Rightarrow> 1)"

definition no_spawn :: "portal_action \<Rightarrow> portal \<Rightarrow> portal \<Rightarrow> portal_action list list" where
  "no_spawn a s t = []"

abbreviation portal_step :: "(portal, portal_action) process \<Rightarrow> (portal, portal_action) process \<Rightarrow> bool" where
  "portal_step \<equiv> pool_step portal_act no_spawn"

interpretation portal_sections: critical_sections portal_act no_spawn "\<lambda>_. True" "\<lambda>_ _. True"
  portal_inside portal_waits "\<lambda>s l. mtx s" portal_rank
proof unfold_locales
  fix s t :: portal and i :: portal_action and js c l
  show "portal_act c i s = (Ret js, t) \<Longrightarrow>
      lock_change (portal_inside i = Some l) (enters portal_inside l js) (mtx s) (mtx t)"
    by (cases i) (auto simp: portal_inside_def split: if_splits)
  show "portal_act c i s = (Ret js, t) \<Longrightarrow> list_all (\<lambda>j. portal_inside j = None) (tl js)"
    by (cases i) (auto simp: portal_inside_def split: if_splits)
  show "portal_inside i = Some l \<Longrightarrow> fst (portal_act c i s) \<noteq> Blocked"
    by (cases i) (auto simp: portal_inside_def)
  show "portal_inside i = Some l \<Longrightarrow> portal_act c i s = (Ret js, t) \<Longrightarrow> enters portal_inside l js \<Longrightarrow>
      portal_rank (hd js) < portal_rank i"
    by (cases i) (auto simp: portal_inside_def portal_rank_def split: if_splits)
  show "portal_waits i = Some l \<Longrightarrow> portal_inside i = None"
    by (cases i) (simp_all add: portal_inside_def portal_waits_def)
  show "portal_waits i = Some l \<Longrightarrow> mtx s \<Longrightarrow> fst (portal_act c i s) = Blocked"
    by (cases i) (simp_all add: portal_waits_def)
  show "portal_waits i = Some l \<Longrightarrow> \<not> mtx s \<Longrightarrow> fst (portal_act c i s) \<noteq> Blocked"
    by (cases i) (simp_all add: portal_waits_def)
qed (simp_all add: no_spawn_def list_all_iff)

text \<open>Any number of callers, each setting or trimming the address.\<close>

definition portal_start :: "string \<Rightarrow> portal_action list list \<Rightarrow> (portal, portal_action) process" where
  "portal_start addr callers = \<lparr>store = \<lparr>inetAddr = addr, mtx = False\<rparr>, pool = callers, crashed = False\<rparr>"

lemma portal_start_inv:
  assumes "list_all (\<lambda>code. code = trim_addr \<or> (\<exists>a. code = SetInetAddr a)) callers"
  shows "portal_sections.pool_inv (portal_start addr callers)"
  using assms
  by (auto simp: portal_sections.pool_inv_def portal_sections.code_ok_def portal_sections.crowd_def
      portal_start_def trim_addr_def SetInetAddr_def portal_inside_def list_all_iff filter_empty_conv)

text \<open>Setting the address is exclusive, and the mutex is always given back.\<close>

lemma SetInetAddr_exclusive:
  assumes "list_all (\<lambda>code. code = trim_addr \<or> (\<exists>a. code = SetInetAddr a)) callers"
    and "steps portal_step n (portal_start addr callers) P" "\<not> crashed P"
    and "j < length (pool P)" "k < length (pool P)"
    and "enters portal_inside () (pool P ! j)" "enters portal_inside () (pool P ! k)"
  shows "j = k"
  using portal_sections.sections_exclude [OF portal_sections.steps_pool_inv [OF assms(2)
      portal_start_inv [OF assms(1)]] assms(3-7)] by blast

lemma portal_step_no_leak:
  assumes "portal_sections.pool_inv P" "portal_step P Q" "\<not> crashed Q" "\<not> portal_sections.leaked () P"
  shows "\<not> portal_sections.leaked () Q"
proof
  assume l: "portal_sections.leaked () Q"
  from portal_sections.leak_origin [OF assms l] obtain i c js where
    a: "portal_inside i = Some ()" "portal_act c i (store P) = (Ret js, store Q)" "\<not> enters portal_inside () js"
    by blast
  then have "\<not> mtx (store Q)"
    by (cases i) (auto simp: portal_inside_def split: if_splits dest!: sym [of _ "store Q"])
  then show False using l by (simp add: portal_sections.leaked_def)
qed

lemma SetInetAddr_released:
  assumes "steps portal_step n P Q" "portal_sections.pool_inv P" "\<not> portal_sections.leaked () P" "\<not> crashed Q"
  shows "\<not> portal_sections.leaked () Q"
  using assms
proof (induction rule: steps.induct)
  case (steps_Suc P R n Q)
  have "\<not> crashed R"
    using steps_Suc.hyps(2) steps_Suc.prems(3)
    by (cases rule: steps.cases) (auto dest: portal_sections.crashed_end)
  then show ?case
    using steps_Suc portal_step_no_leak portal_sections.pool_step_inv by blast
qed

text \<open>
  The write back of \<open>NewRequest\<close> is not under the mutex: an address that is set between its
  read and its write is lost.
\<close>

lemma SetInetAddr_lost:
  "steps portal_step 5 (portal_start ''http://old'' [trim_addr, SetInetAddr ''new''])
     \<lparr>store = \<lparr>inetAddr = ''old'', mtx = False\<rparr>, pool = [[], []], crashed = False\<rparr>"
proof -
  let ?p = "\<lambda>a m x y. \<lparr>store = \<lparr>inetAddr = a, mtx = m\<rparr>, pool = [x, y], crashed = False\<rparr>"
  have t: "TrimPrefix ''http://old'' ''http://'' = ''old''" by code_simp
  have 1: "portal_step (?p ''http://old'' False [ReadAddr] [LockAddr ''new''])
      (?p ''http://old'' False [WriteTrimmed ''old''] [LockAddr ''new''])"
    using pool_step.runs [of "?p ''http://old'' False [ReadAddr] [LockAddr ''new'']" 0 ReadAddr "[]"
        portal_act "()" "[WriteTrimmed ''old'']" "\<lparr>inetAddr = ''http://old'', mtx = False\<rparr>" no_spawn]
    by (simp add: t no_spawn_def)
  have 2: "portal_step (?p ''http://old'' False [WriteTrimmed ''old''] [LockAddr ''new''])
      (?p ''http://old'' True [WriteTrimmed ''old''] [StoreAddr ''new''])"
    using pool_step.runs [of "?p ''http://old'' False [WriteTrimmed ''old''] [LockAddr ''new'']" 1
        "LockAddr ''new''" "[]" portal_act "()" "[StoreAddr ''new'']" "\<lparr>inetAddr = ''http://old'', mtx = True\<rparr>" no_spawn]
    by (simp add: no_spawn_def)
  have 3: "portal_step (?p ''http://old'' True [WriteTrimmed ''old''] [StoreAddr ''new''])
      (?p ''new'' True [WriteTrimmed ''old''] [UnlockAddr])"
    using pool_step.runs [of "?p ''http://old'' True [WriteTrimmed ''old''] [StoreAddr ''new'']" 1
        "StoreAddr ''new''" "[]" portal_act "()" "[UnlockAddr]" "\<lparr>inetAddr = ''new'', mtx = True\<rparr>" no_spawn]
    by (simp add: no_spawn_def)
  have 4: "portal_step (?p ''new'' True [WriteTrimmed ''old''] [UnlockAddr])
      (?p ''new'' False [WriteTrimmed ''old''] [])"
    using pool_step.runs [of "?p ''new'' True [WriteTrimmed ''old''] [UnlockAddr]" 1
        UnlockAddr "[]" portal_act "()" "[]" "\<lparr>inetAddr = ''new'', mtx = False\<rparr>" no_spawn]
    by (simp add: no_spawn_def)
  have 5: "portal_step (?p ''new'' False [WriteTrimmed ''old''] []) (?p ''old'' False [] [])"
    using pool_step.runs [of "?p ''new'' False [WriteTrimmed ''old''] []" 0
        "WriteTrimmed ''old''" "[]" portal_act "()" "[]" "\<lparr>inetAddr = ''old'', mtx = False\<rparr>" no_spawn]
    by (simp add: no_spawn_def)
  have "steps portal_step (Suc (Suc (Suc (Suc (Suc 0)))))
      (?p ''http://old'' False [ReadAddr] [LockAddr ''new'']) (?p ''old'' False [] [])"
    by (rule steps_Suc, rule 1, rule steps_Suc, rule 2, rule steps_Suc, rule 3, rule steps_Suc, rule 4,
        rule steps_Suc, rule 5, rule steps_0)
  then show ?thesis by (simp add: portal_start_def trim_addr_def SetInetAddr_def numeral_eq_Suc)
qed

end
