(* ===== verification/EnvConf.thy ===== *)
theory EnvConf
  imports HttpMessage GoMonad
begin

text \<open>
  \<open>agent/conf/envconf.go\<close> and \<open>agent/conf/conf.go\<close>: filling a struct from environment
  variables by its field tags. A struct type is the list of its fields, a struct value
  the list of the fields' values.
\<close>

subsection \<open>Struct types, tags and values\<close>

datatype kind = KString | KInt | KInt64 | KDuration | KUint64 | KFloat64 | KBool | KOther

record field =
  f_env :: string           \<comment> \<open>tag \<open>env\<close>, empty when absent\<close>
  f_default :: string       \<comment> \<open>tag \<open>default\<close>\<close>
  f_required :: string      \<comment> \<open>tag \<open>required\<close>\<close>
  f_kind :: kind

datatype val =
    VString string
  | VInt int
  | VDuration int
  | VUint uint64
  | VFloat string
  | VBool bool
  | VOther json

text \<open>
  Parsing a duration, a floating-point number and a JSON text are the parameters of
  the loader; \<open>strconv\<close>'s integer parsers are those of \<open>GoStrings\<close>.
\<close>

record parsers =
  parse_duration :: "string \<Rightarrow> go_error + int"
  parse_float :: "string \<Rightarrow> go_error + string"
  decode_json :: "string \<Rightarrow> go_error + json"

subsection \<open>Loading one field\<close>

definition upper_letter :: "char \<Rightarrow> bool" where
  "upper_letter c \<longleftrightarrow> (let n = of_char c :: nat in 65 \<le> n \<and> n \<le> 90)"

definition key_char :: "char \<Rightarrow> bool" where
  "key_char c \<longleftrightarrow> upper_letter c \<or> digit_val c \<noteq> None \<or> c = CHR ''_''"

text \<open>The regular expression \<open>^[A-Z][A-Z0-9_]*$\<close>.\<close>

definition key_matches :: "string \<Rightarrow> bool" where
  "key_matches k = (case k of [] \<Rightarrow> False | c # s \<Rightarrow> upper_letter c \<and> (\<forall>d \<in> set s. key_char d))"

text \<open>\<open>envs\<close> is the passed-in map, if any; otherwise the process environment \<open>getenv\<close> counts.\<close>

definition raw_value :: "(string \<rightharpoonup> string) option \<Rightarrow> (string \<Rightarrow> string) \<Rightarrow> field \<Rightarrow> string" where
  "raw_value envs getenv f =
     (case envs of
        Some m \<Rightarrow> (case m (f_env f) of None \<Rightarrow> [] | Some v \<Rightarrow> v)
      | None \<Rightarrow> (if getenv (f_env f) \<noteq> [] then getenv (f_env f) else f_default f))"

definition set_value :: "parsers \<Rightarrow> field \<Rightarrow> string \<Rightarrow> val \<Rightarrow> go_error + val" where
  "set_value P f value old =
     (case f_kind f of
        KString \<Rightarrow> Inr (VString value)
      | KInt \<Rightarrow> map_sum id VInt (Atoi value)
      | KInt64 \<Rightarrow> map_sum id VInt (ParseInt64 value)
      | KDuration \<Rightarrow> map_sum id VDuration (parse_duration P value)
      | KUint64 \<Rightarrow> map_sum id VUint (ParseUint64 value)
      | KFloat64 \<Rightarrow> map_sum id VFloat (parse_float P value)
      | KBool \<Rightarrow>
          Inr (if ToLower value = ''true'' then VBool True
               else if ToLower value = ''false'' then VBool False
               else old)
      | KOther \<Rightarrow>
          map_sum (\<lambda>e. ''failed to parse json ENV: '' @ f_env f @ '', value: '' @ value
                     @ '', err: '' @ e) VOther (decode_json P value))"

definition bad_key_error :: "string \<Rightarrow> go_error" where
  "bad_key_error key = ''failed to match \"^[A-Z][A-Z0-9_]*$\", key: '' @ key"

definition missing_error :: "string \<Rightarrow> go_error" where
  "missing_error key = ''failed to found required environment variable, key: '' @ key"

definition load_field :: "parsers \<Rightarrow> (string \<rightharpoonup> string) option \<Rightarrow> (string \<Rightarrow> string) \<Rightarrow> field \<Rightarrow> val \<Rightarrow>
    go_error + val" where
  "load_field P envs getenv f old =
     (let key = f_env f
      in if key = [] then Inr old
         else if \<not> key_matches key
         then Inl (bad_key_error key)
         else
           let value = TrimSpace (raw_value envs getenv f)
           in if EqualFold (f_required f) ''true'' \<and> value = []
              then Inl (missing_error key)
              else if value = [] then Inr old
              else set_value P f value old)"

subsection \<open>Loading a struct\<close>

text \<open>
  The loop over the fields: the values as far as they were set, and the error that ended
  the loop. \<open>envOpts\<close> is variadic: its first element counts.
\<close>

fun load_fields :: "parsers \<Rightarrow> (string \<rightharpoonup> string) option \<Rightarrow> (string \<Rightarrow> string) \<Rightarrow>
    (field \<times> val) list \<Rightarrow> val list \<times> go_error option" where
  "load_fields P envs getenv [] = ([], None)"
| "load_fields P envs getenv ((f, old) # fs) =
     (case load_field P envs getenv f old of
        Inl e \<Rightarrow> (old # map snd fs, Some e)
      | Inr v \<Rightarrow> (let (vs, e) = load_fields P envs getenv fs in (v # vs, e)))"

definition Load :: "parsers \<Rightarrow> (string \<rightharpoonup> string) list \<Rightarrow> (string \<Rightarrow> string) \<Rightarrow> bool \<Rightarrow>
    (field \<times> val) list \<Rightarrow> val list \<times> go_error option" where
  "Load P envOpts getenv is_pointer obj =
     (if \<not> is_pointer then (map snd obj, Some ''not a pointer'')
      else load_fields P (case envOpts of [] \<Rightarrow> None | m # _ \<Rightarrow> Some m) getenv obj)"

definition MustLoad :: "parsers \<Rightarrow> (string \<Rightarrow> string) \<Rightarrow> (field \<times> val) list \<Rightarrow> val list res" where
  "MustLoad P getenv obj =
     (case Load P [] getenv True obj of (vs, None) \<Rightarrow> Ret vs | (_, Some e) \<Rightarrow> Panic e)"

subsection \<open>The agent's configuration\<close>

record Conf =
  CenterHost :: string
  CenterToken :: string
  ProjectID :: uint64
  ProjectNs :: string
  OrgName :: string
  Workspace :: string

definition required_field :: "string \<Rightarrow> kind \<Rightarrow> field" where
  "required_field key k = \<lparr>f_env = key, f_default = [], f_required = ''true'', f_kind = k\<rparr>"

definition conf_fields :: "(field \<times> val) list" where
  "conf_fields =
     [(required_field ''CENTER_HOST'' KString, VString []),
      (required_field ''CENTER_TOKEN'' KString, VString []),
      (required_field ''PROJECT_ID'' KUint64, VUint 0),
      (required_field ''PROJECT_NS'' KString, VString []),
      (required_field ''ORG_NAME'' KString, VString []),
      (required_field ''WORKSPACE'' KString, VString [])]"

definition WorkDir :: string where
  "WorkDir = ''/jacoco/work''"

definition JacocoCliAddr :: string where
  "JacocoCliAddr = ''/app/jacococli.jar''"

definition ExtractCliAddr :: string where
  "ExtractCliAddr = ''/app/extract-jar.sh''"

text \<open>The six values of the struct as a record; \<open>init\<close> loads them and panics when that fails.\<close>

fun as_string :: "val \<Rightarrow> string" where
  "as_string (VString s) = s"
| "as_string _ = []"

fun as_uint :: "val \<Rightarrow> uint64" where
  "as_uint (VUint w) = w"
| "as_uint _ = 0"

definition conf_of :: "val list \<Rightarrow> Conf" where
  "conf_of vs = \<lparr>CenterHost = as_string (vs ! 0), CenterToken = as_string (vs ! 1),
     ProjectID = as_uint (vs ! 2), ProjectNs = as_string (vs ! 3),
     OrgName = as_string (vs ! 4), Workspace = as_string (vs ! 5)\<rparr>"

definition conf_init :: "parsers \<Rightarrow> (string \<Rightarrow> string) \<Rightarrow> Conf res" where
  "conf_init P getenv =
     (case MustLoad P getenv conf_fields of
        Ret vs \<Rightarrow> Ret (conf_of vs)
      | Panic e \<Rightarrow> Panic e
      | Blocked \<Rightarrow> Blocked)"

subsection \<open>Properties\<close>

lemma load_fields_length: "length (fst (load_fields P envs getenv obj)) = length obj"
  by (induction P envs getenv obj rule: load_fields.induct) (auto split: sum.split prod.split)

lemma load_fields_ok:
  "load_fields P envs getenv obj = (vs, None) \<longleftrightarrow>
     list_all2 (\<lambda>(f, old) v. load_field P envs getenv f old = Inr v) obj vs"
proof (induction P envs getenv obj arbitrary: vs rule: load_fields.induct)
  case (2 P envs getenv f old fs)
  show ?case
  proof (cases "load_field P envs getenv f old")
    case (Inr v)
    obtain ws e where "load_fields P envs getenv fs = (ws, e)" by fastforce
    then show ?thesis using 2 [OF Inr] by (cases vs) (auto simp: Inr)
  qed (auto simp: list_all2_Cons1)
qed auto

lemma set_value_kind_error:
  "set_value P f value old = Inl e \<Longrightarrow> f_kind f \<notin> {KString, KBool}"
  by (auto simp: set_value_def split: kind.splits)

lemma load_field_untagged: "f_env f = [] \<Longrightarrow> load_field P envs getenv f old = Inr old"
  by (simp add: load_field_def)

lemma load_field_blank:
  "key_matches (f_env f) \<Longrightarrow> \<not> EqualFold (f_required f) ''true'' \<Longrightarrow>
     TrimSpace (raw_value envs getenv f) = [] \<Longrightarrow> load_field P envs getenv f old = Inr old"
  by (simp add: load_field_def Let_def)

text \<open>
  \<open>Load\<close> succeeds exactly when every field can be loaded on its own, and then every
  field has its own value; it never changes the number of fields, and a \<open>Load\<close> of
  something that is not a pointer changes nothing.
\<close>

lemma Load_succeeds_iff:
  "(Load P envOpts getenv ptr obj = (vs, None) \<longleftrightarrow>
      ptr \<and> list_all2 (\<lambda>(f, old) v.
        load_field P (case envOpts of [] \<Rightarrow> None | m # _ \<Rightarrow> Some m) getenv f old = Inr v) obj vs)
   \<and> length (fst (Load P envOpts getenv ptr obj)) = length obj
   \<and> (ptr \<or> fst (Load P envOpts getenv ptr obj) = map snd obj)"
  by (simp add: Load_def load_fields_ok load_fields_length)

lemma load_required_string:
  "key_matches k \<Longrightarrow> k \<noteq> [] \<Longrightarrow>
     load_field P None getenv (required_field k KString) old =
       (if TrimSpace (getenv k) = []
        then Inl (missing_error k)
        else Inr (VString (TrimSpace (getenv k))))"
  by (auto simp: load_field_def required_field_def raw_value_def set_value_def Let_def)

lemma load_required_uint:
  "key_matches k \<Longrightarrow> k \<noteq> [] \<Longrightarrow>
     load_field P None getenv (required_field k KUint64) old =
       (if TrimSpace (getenv k) = []
        then Inl (missing_error k)
        else map_sum id VUint (ParseUint64 (TrimSpace (getenv k))))"
  by (auto simp: load_field_def required_field_def raw_value_def set_value_def Let_def)

lemma conf_keys_match:
  "key_matches ''CENTER_HOST''" "key_matches ''CENTER_TOKEN''" "key_matches ''PROJECT_ID''"
  "key_matches ''PROJECT_NS''" "key_matches ''ORG_NAME''" "key_matches ''WORKSPACE''"
  by code_simp+

definition blank :: "(string \<Rightarrow> string) \<Rightarrow> string \<Rightarrow> bool" where
  "blank getenv k \<longleftrightarrow> TrimSpace (getenv k) = []"

definition conf_value :: "(string \<Rightarrow> string) \<Rightarrow> string \<Rightarrow> string" where
  "conf_value getenv k = TrimSpace (getenv k)"

text \<open>
  C40. The agent's configuration: start-up panics exactly when one of the six variables is
  blank or \<open>PROJECT_ID\<close> is not a number of 64 bits; otherwise every field is its
  variable without the surrounding white space.
\<close>

theorem conf_init_spec:
  "conf_init P getenv =
     (case find (blank getenv) [''CENTER_HOST'', ''CENTER_TOKEN'', ''PROJECT_ID''] of
        Some k \<Rightarrow> Panic (missing_error k)
      | None \<Rightarrow>
          (case ParseUint64 (conf_value getenv ''PROJECT_ID'') of
             Inl e \<Rightarrow> Panic e
           | Inr p \<Rightarrow>
               (case find (blank getenv) [''PROJECT_NS'', ''ORG_NAME'', ''WORKSPACE''] of
                  Some k \<Rightarrow> Panic (missing_error k)
                | None \<Rightarrow> Ret \<lparr>CenterHost = conf_value getenv ''CENTER_HOST'',
                    CenterToken = conf_value getenv ''CENTER_TOKEN'', ProjectID = p,
                    ProjectNs = conf_value getenv ''PROJECT_NS'',
                    OrgName = conf_value getenv ''ORG_NAME'',
                    Workspace = conf_value getenv ''WORKSPACE''\<rparr>)))"
  by (simp add: conf_init_def MustLoad_def Load_def conf_fields_def load_required_string
      load_required_uint conf_keys_match blank_def conf_value_def conf_of_def
      split: sum.split)

end
