(* ===== verification/HttpRetry.thy ===== *)
theory HttpRetry
  imports GoMonad
begin

text \<open>
  \<open>agent/pkg/httpclient/retry.go\<close> and the two retry loops at the end of
  \<open>agent/pkg/httpclient/request.go\<close>. What one attempt returns is Go's pair of a response
  and an error, either of which may be nil (\<open>None\<close>). An attempt, a wait and a log are
  effects on a state the loops know nothing about.
\<close>

subsection \<open>Responses, errors and retry options\<close>

record response =
  status_code :: int
  content_type :: string
  body_text :: "go_error + string"    \<comment> \<open>what reading the whole body gives\<close>

text \<open>An error of \<open>http.Client.Do\<close>: its text, and whether it is a \<open>net.Error\<close> that timed out.\<close>

datatype http_error = HttpError (error_text: string) (is_timeout: bool)

type_synonym outcome = "response option \<times> http_error option"
type_synonym retry_func = "response option \<Rightarrow> http_error option \<Rightarrow> bool res"

record retry_option =
  MaxTime :: int
  Interval :: int
  Fns :: "retry_func list"

definition nil_deref :: string where
  "nil_deref = ''invalid memory address or nil pointer dereference''"

text \<open>Go's integer division truncates towards zero.\<close>

definition go_div :: "int \<Rightarrow> int \<Rightarrow> int" where
  "go_div a b = sgn a * sgn b * (\<bar>a\<bar> div \<bar>b\<bar>)"

definition is_5xx :: retry_func where
  "is_5xx resp respErr =
     (case resp of None \<Rightarrow> Panic nil_deref | Some r \<Rightarrow> Ret (go_div (status_code r) 100 = 5))"

definition is_err_resp :: retry_func where
  "is_err_resp resp respErr = Ret (respErr \<noteq> None)"

definition Retry5XX :: retry_option where
  "Retry5XX = \<lparr>MaxTime = 3, Interval = 2, Fns = [is_5xx]\<rparr>"

definition RetryErrResp :: retry_option where
  "RetryErrResp = \<lparr>MaxTime = 3, Interval = 2, Fns = [is_err_resp]\<rparr>"

definition NoRetry :: retry_option where
  "NoRetry = \<lparr>MaxTime = 0, Interval = 0, Fns = []\<rparr>"

definition is_zero_option :: "retry_option \<Rightarrow> bool" where
  "is_zero_option op \<longleftrightarrow> MaxTime op = 0 \<and> Interval op = 0 \<and> length (Fns op) = 0"

fun merge_loop :: "retry_option \<Rightarrow> retry_option list \<Rightarrow> retry_option" where
  "merge_loop r [] = r"
| "merge_loop r (op # rs) =
     (if is_zero_option op then NoRetry\<lparr>MaxTime := 1\<rparr>
      else merge_loop
        \<lparr>MaxTime = (if MaxTime op > MaxTime r then MaxTime op else MaxTime r),
         Interval = (if Interval op > Interval r then Interval op else Interval r),
         Fns = Fns r @ Fns op\<rparr> rs)"

definition mergeRetryOptions :: "retry_option list \<Rightarrow> retry_option" where
  "mergeRetryOptions rs = merge_loop \<lparr>MaxTime = 3, Interval = 2, Fns = []\<rparr> rs"

subsection \<open>The loops\<close>

definition MAX_RETRY_TIMES_FOR_TIMEOUT :: nat where
  "MAX_RETRY_TIMES_FOR_TIMEOUT = 2"

definition timed_out :: "outcome \<Rightarrow> bool" where
  "timed_out oc = (case snd oc of None \<Rightarrow> False | Some e \<Rightarrow> is_timeout e)"

fun timeout_loop :: "nat \<Rightarrow> ('s, outcome) prog \<Rightarrow> outcome \<Rightarrow> ('s, outcome) prog" where
  "timeout_loop 0 fn oc = go_ret oc"
| "timeout_loop (Suc i) fn oc =
     (if timed_out oc then go_bind fn (timeout_loop i fn) else go_ret oc)"

definition retryIfTimeout :: "('s, outcome) prog \<Rightarrow> ('s, outcome) prog" where
  "retryIfTimeout fn = go_bind fn (timeout_loop MAX_RETRY_TIMES_FOR_TIMEOUT fn)"

text \<open>Some function of the list asks for a retry (the first that does ends the search).\<close>

fun wants_retry :: "retry_func list \<Rightarrow> outcome \<Rightarrow> bool res" where
  "wants_retry [] oc = Ret False"
| "wants_retry (f # fs) oc =
     (case f (fst oc) (snd oc) of
        Ret True \<Rightarrow> Ret True
      | Ret False \<Rightarrow> wants_retry fs oc
      | Panic e \<Rightarrow> Panic e
      | Blocked \<Rightarrow> Blocked)"

fun retry_loop :: "nat \<Rightarrow> (int \<Rightarrow> ('s, unit) prog) \<Rightarrow> retry_option \<Rightarrow> ('s, outcome) prog \<Rightarrow>
    outcome \<Rightarrow> ('s, outcome) prog" where
  "retry_loop 0 sleep op fn oc = go_ret oc"
| "retry_loop (Suc i) sleep op fn oc =
     go_bind (retryIfTimeout fn) (\<lambda>oc'.
       case wants_retry (Fns op) oc' of
         Ret True \<Rightarrow> go_seq (sleep (Interval op)) (retry_loop i sleep op fn oc')
       | Ret False \<Rightarrow> go_ret oc'
       | Panic e \<Rightarrow> go_panic e
       | Blocked \<Rightarrow> go_block)"

definition retry :: "(int \<Rightarrow> ('s, unit) prog) \<Rightarrow> retry_option \<Rightarrow> ('s, outcome) prog \<Rightarrow> ('s, outcome) prog" where
  "retry sleep op fn = retry_loop (nat (MaxTime op)) sleep op fn (None, None)"

subsection \<open>Merged options\<close>

lemma merge_loop_closed:
  "merge_loop r rs =
     (if \<exists>op \<in> set rs. is_zero_option op then \<lparr>MaxTime = 1, Interval = 0, Fns = []\<rparr>
      else \<lparr>MaxTime = foldl (\<lambda>m op. max m (MaxTime op)) (MaxTime r) rs,
            Interval = foldl (\<lambda>m op. max m (Interval op)) (Interval r) rs,
            Fns = Fns r @ concat (map Fns rs)\<rparr>)"
  by (induction r rs rule: merge_loop.induct) (auto simp: NoRetry_def max_def)

lemma MaxTime_merge_pos: "1 \<le> MaxTime (mergeRetryOptions rs)"
  using foldl_max_ge [of 3 MaxTime rs] by (simp add: mergeRetryOptions_def merge_loop_closed)

text \<open>
  Merging retry options: one option with no attempts, no interval and no function
  switches retrying off, whatever its position, and leaves exactly one attempt; otherwise
  the attempts and the interval are the maxima (never below 3 and 2) and the conditions
  are all kept, in order.
\<close>

lemma mergeRetryOptions_closed:
  "mergeRetryOptions rs =
     (if \<exists>op \<in> set rs. is_zero_option op then \<lparr>MaxTime = 1, Interval = 0, Fns = []\<rparr>
      else \<lparr>MaxTime = Max (insert 3 (set (map MaxTime rs))),
            Interval = Max (insert 2 (set (map Interval rs))),
            Fns = concat (map Fns rs)\<rparr>)"
  by (simp only: mergeRetryOptions_def merge_loop_closed foldl_max_Max) simp

subsection \<open>Counting attempts and waits\<close>

text \<open>
  To say how often the loops call their function, run them against a world that counts:
  attempt number \<open>n\<close> has the outcome \<open>out n\<close>, and the waits are listed.
\<close>

record attempts =
  tries :: nat
  slept :: "int list"

definition attempt :: "(nat \<Rightarrow> outcome) \<Rightarrow> (attempts, outcome) prog" where
  "attempt out = (\<lambda>s. (Ret (out (tries s)), s\<lparr>tries := Suc (tries s)\<rparr>))"

definition note_sleep :: "int \<Rightarrow> (attempts, unit) prog" where
  "note_sleep d = go_mod (\<lambda>s. s\<lparr>slept := slept s @ [d]\<rparr>)"

text \<open>The world after \<open>k\<close> attempts and \<open>j\<close> waits more.\<close>

definition after :: "attempts \<Rightarrow> nat \<Rightarrow> int list \<Rightarrow> attempts" where
  "after s k ds = \<lparr>tries = tries s + k, slept = slept s @ ds\<rparr>"

lemma attempt_eval: "attempt out s = (Ret (out (tries s)), after s 1 [])"
  by (simp add: attempt_def after_def)

lemma after_after [simp]: "after (after s j ds) k es = after s (j + k) (ds @ es)"
  by (simp add: after_def)

lemma after_fields [simp]: "tries (after s k ds) = tries s + k" "slept (after s k ds) = slept s @ ds"
  by (simp_all add: after_def)

lemma after_0 [simp]: "after s 0 [] = s"
  by (simp add: after_def)

lemma retryIfTimeout_eval:
  "retryIfTimeout (attempt out) s =
     (let n = tries s in
      if \<not> timed_out (out n) then (Ret (out n), after s 1 [])
      else if \<not> timed_out (out (n + 1)) then (Ret (out (n + 1)), after s 2 [])
      else (Ret (out (n + 2)), after s 3 []))"
  by (simp add: retryIfTimeout_def MAX_RETRY_TIMES_FOR_TIMEOUT_def numeral_2_eq_2
      go_bind_def attempt_eval go_ret_def Let_def numeral_3_eq_3)

lemma retryIfTimeout_bounds:
  "\<exists>k. retryIfTimeout (attempt out) s = (Ret (out (tries s + k)), after s (Suc k) []) \<and> k \<le> 2
     \<and> (\<forall>i < k. timed_out (out (tries s + i)))
     \<and> (k < 2 \<longrightarrow> \<not> timed_out (out (tries s + k)))"
proof -
  let ?n = "tries s"
  consider "\<not> timed_out (out ?n)" | "timed_out (out ?n)" "\<not> timed_out (out (?n + 1))"
    | "timed_out (out ?n)" "timed_out (out (?n + 1))" by blast
  then show ?thesis
  proof cases
    case 1
    then show ?thesis by (intro exI [of _ 0]) (simp add: retryIfTimeout_eval)
  next
    case 2
    then show ?thesis
      by (intro exI [of _ 1]) (simp add: retryIfTimeout_eval numeral_2_eq_2)
  next
    case 3
    then have "\<forall>i < 2. timed_out (out (?n + i))" by (auto simp: less_2_cases_iff)
    with 3 show ?thesis
      by (intro exI [of _ 2]) (simp add: retryIfTimeout_eval numeral_3_eq_3 numeral_2_eq_2)
  qed
qed

text \<open>
  \<open>retryIfTimeout\<close> calls its function at most three times, stops at the first outcome
  that is not a time-out, and returns the outcome of its last call.
\<close>

lemma retryIfTimeout_spec:
  "retryIfTimeout (attempt out) \<lparr>tries = 0, slept = []\<rparr>
     = (let k = if timed_out (out 0) then if timed_out (out 1) then 2 else 1 else 0
        in (Ret (out k), \<lparr>tries = Suc k, slept = []\<rparr>))"
proof -
  let ?s = "\<lparr>tries = 0, slept = []\<rparr> :: attempts"
  obtain k where k: "retryIfTimeout (attempt out) ?s = (Ret (out k), after ?s (Suc k) [])" "k \<le> 2"
    "\<forall>i < k. timed_out (out i)" "k < 2 \<longrightarrow> \<not> timed_out (out k)"
    using retryIfTimeout_bounds [of out ?s] by auto
  consider "k = 0" | "k = 1" | "k = 2" using k(2) by linarith
  then have "k = (if timed_out (out 0) then if timed_out (out 1) then 2 else 1 else 0)"
    using k(3,4) by cases auto
  with k(1) show ?thesis by (simp add: after_def Let_def)
qed

lemma retry_loop_bounds:
  assumes ok: "\<And>n. \<exists>b. wants_retry (Fns op) (out n) = Ret b"
  shows "0 < i \<Longrightarrow> \<exists>k j. retry_loop i note_sleep op (attempt out) oc s
      = (Ret (out (tries s + k)), after s (Suc k) (replicate j (Interval op)))
    \<and> Suc k \<le> 3 * i \<and> j \<le> i
    \<and> wants_retry (Fns op) (out (tries s + k)) = Ret (j = i)"
proof (induction i arbitrary: oc s)
  case (Suc i)
  obtain k where k: "retryIfTimeout (attempt out) s
      = (Ret (out (tries s + k)), after s (Suc k) [])" "k \<le> 2"
    using retryIfTimeout_bounds by blast
  let ?oc = "out (tries s + k)"
  obtain b where b: "wants_retry (Fns op) ?oc = Ret b" using ok by blast
  show ?case
  proof (cases b)
    case False
    with b k show ?thesis
      by (intro exI [of _ k] exI [of _ 0]) (simp add: go_eval)
  next
    case True
    let ?s = "after s (Suc k) [Interval op]"
    have step: "retry_loop (Suc i) note_sleep op (attempt out) oc s
        = retry_loop i note_sleep op (attempt out) ?oc ?s"
      using True b k(1) by (simp add: go_eval note_sleep_def after_def)
    show ?thesis
    proof (cases "i = 0")
      case True
      with b k(2) step \<open>b\<close> show ?thesis
        by (intro exI [of _ k] exI [of _ 1]) (simp add: go_eval)
    next
      case False
      then obtain k' j where kj: "retry_loop i note_sleep op (attempt out) ?oc ?s
          = (Ret (out (tries ?s + k')), after ?s (Suc k') (replicate j (Interval op)))"
        "Suc k' \<le> 3 * i" "j \<le> i" "wants_retry (Fns op) (out (tries ?s + k')) = Ret (j = i)"
        using Suc.IH [of ?oc ?s] by auto
      then show ?thesis using step k(2)
        by (intro exI [of _ "Suc (k + k')"] exI [of _ "Suc j"]) (simp add: add_ac)
    qed
  qed
qed simp

text \<open>
  C30. \<open>retry\<close> with at least one attempt allowed, and conditions that do not panic on the
  outcomes that occur: it returns the outcome of the last attempt it made, it makes at
  least one and at most three times \<open>MaxTime\<close> attempts, it waits \<open>Interval\<close> seconds after
  each round that some condition wants repeated, and it gives up on an outcome that is
  still retryable only after \<open>MaxTime\<close> rounds.
\<close>

theorem retry_spec:
  assumes "1 \<le> MaxTime op" and "\<And>n. \<exists>b. wants_retry (Fns op) (out n) = Ret b"
  shows "\<exists>k j. retry note_sleep op (attempt out) \<lparr>tries = 0, slept = []\<rparr>
      = (Ret (out k), \<lparr>tries = Suc k, slept = replicate j (Interval op)\<rparr>)
    \<and> int (Suc k) \<le> 3 * MaxTime op \<and> int j \<le> MaxTime op
    \<and> wants_retry (Fns op) (out k) = Ret (int j = MaxTime op)"
proof -
  have pos: "0 < nat (MaxTime op)" using assms(1) by simp
  from retry_loop_bounds [where out = out and oc = "(None, None)" and s = "\<lparr>tries = 0, slept = []\<rparr>",
      OF assms(2) pos]
  obtain k j where kj: "retry note_sleep op (attempt out) \<lparr>tries = 0, slept = []\<rparr>
      = (Ret (out k), after \<lparr>tries = 0, slept = []\<rparr> (Suc k) (replicate j (Interval op)))"
    "Suc k \<le> 3 * nat (MaxTime op)" "j \<le> nat (MaxTime op)"
    "wants_retry (Fns op) (out k) = Ret (j = nat (MaxTime op))"
    by (auto simp: retry_def)
  moreover have "(j = nat (MaxTime op)) = (int j = MaxTime op)" using assms(1) by auto
  ultimately show ?thesis
    using assms(1) by (intro exI [of _ k] exI [of _ j]) (auto simp: after_def)
qed

theorem retry_spec_witness:
  "\<exists>k j. retry note_sleep RetryErrResp (attempt (\<lambda>n. (None, Some (HttpError ''EOF'' (n = 1)))))
        \<lparr>tries = 0, slept = []\<rparr>
      = (Ret (None, Some (HttpError ''EOF'' (k = 1))), \<lparr>tries = Suc k, slept = replicate j 2\<rparr>)
    \<and> k = 3 \<and> j = 3"
proof -
  let ?out = "\<lambda>n::nat. (None, Some (HttpError ''EOF'' (n = 1))) :: outcome"
  have 1: "1 \<le> MaxTime RetryErrResp" by (simp add: RetryErrResp_def)
  have 2: "\<exists>b. wants_retry (Fns RetryErrResp) (?out n) = Ret b" for n
    by (auto simp: RetryErrResp_def is_err_resp_def)
  from retry_spec [of RetryErrResp ?out, OF 1 2]
  obtain k j where kj: "retry note_sleep RetryErrResp (attempt ?out) \<lparr>tries = 0, slept = []\<rparr>
      = (Ret (?out k), \<lparr>tries = Suc k, slept = replicate j (Interval RetryErrResp)\<rparr>)" by blast
  moreover have "retry note_sleep RetryErrResp (attempt ?out) \<lparr>tries = 0, slept = []\<rparr>
      = (Ret (?out 3), \<lparr>tries = 4, slept = [2, 2, 2]\<rparr>)"
    by (simp add: retry_def RetryErrResp_def is_err_resp_def numeral_3_eq_3 retryIfTimeout_eval
        go_bind_def go_seq_def note_sleep_def go_defs timed_out_def Let_def after_def)
  ultimately have "k = 3" "j = 3" by (auto dest: arg_cong [of _ _ length] simp: RetryErrResp_def)
  with kj show ?thesis by (intro exI [of _ k] exI [of _ j]) (simp add: RetryErrResp_def)
qed

text \<open>
  The conditions of an automatic retry (\<open>RetryErrResp\<close> before \<open>Retry5XX\<close>, as
  \<open>HTTPClient.Get\<close> lists them) never dereference a nil response: on every outcome of
  \<open>http.Client.Do\<close> (a response, or an error and no response) they answer, and they ask
  for a retry exactly on an error and on a 5xx status. In the other order the same
  conditions panic on every error.
\<close>

lemma auto_retry_conditions:
  shows "wants_retry (Fns (mergeRetryOptions [RetryErrResp, Retry5XX])) (None, Some e) = Ret True
    \<and> wants_retry (Fns (mergeRetryOptions [RetryErrResp, Retry5XX])) (Some r, None)
        = Ret (500 \<le> status_code r \<and> status_code r < 600)
    \<and> wants_retry (Fns (mergeRetryOptions [Retry5XX, RetryErrResp])) (None, Some e) = Panic nil_deref"
proof -
  have "go_div n 100 = 5 \<longleftrightarrow> 500 \<le> n \<and> n < 600" for n
    by (auto simp: go_div_def sgn_if)
  then show ?thesis
    by (simp add: mergeRetryOptions_def RetryErrResp_def Retry5XX_def is_zero_option_def
        is_err_resp_def is_5xx_def split: bool.split)
qed

end
