(* ===== verification/HttpClient.thy ===== *)
theory HttpClient
  imports InetUrl HttpRetry
begin

text \<open>
  \<open>agent/pkg/httpclient\<close>: the client and its options (\<open>client.go\<close>), the request builder,
  \<open>Do\<close>, \<open>doRequest\<close> and the readers of the answer (\<open>request.go\<close>, \<open>response.go\<close>), and
  dialling through the DNS cache (\<open>client.go\<close>, \<open>dnscache.go\<close>). Sending one request, and
  waiting, are the parameters \<open>send\<close> and \<open>sleep\<close>. Opaque pointers (a writer, a tracer, a
  cookie jar, a redirect policy) are the fact whether they are set; times are nanoseconds.
\<close>

subsection \<open>Options and the client\<close>

record client_option =
  isHTTPS :: bool
  ca :: "string option"
  keyPair :: string
  debugWriter :: bool
  tracer :: bool
  checkRedirect :: bool
  loadingPrint :: bool
  loadingDesc :: string
  proxy :: string
  clusterDialKey :: string
  cookieJar :: bool
  dnscache :: bool
  dialerKeepalive :: int
  acceptEncoding :: string
  dialTimeout :: int
  clientTimeout :: int
  enableAutoRetry :: bool

type_synonym op_option = "client_option \<Rightarrow> client_option"

definition second :: int where
  "second = 1000000000"

definition zero_option :: client_option where
  "zero_option = \<lparr>isHTTPS = False, ca = None, keyPair = [], debugWriter = False, tracer = False,
     checkRedirect = False, loadingPrint = False, loadingDesc = [], proxy = [],
     clusterDialKey = [], cookieJar = False, dnscache = False, dialerKeepalive = 0,
     acceptEncoding = [], dialTimeout = 0, clientTimeout = 0, enableAutoRetry = False\<rparr>"

definition WithClusterDialer :: "(string \<Rightarrow> string) \<Rightarrow> string \<Rightarrow> op_option" where
  "WithClusterDialer getenv clusterKey = (\<lambda>op.
     if clusterKey \<noteq> getenv ''DICE_CLUSTER_NAME'' then op\<lparr>clusterDialKey := clusterKey\<rparr> else op)"

definition WithHTTPS :: op_option where
  "WithHTTPS = (\<lambda>op. op\<lparr>isHTTPS := True\<rparr>)"

definition WithAcceptEncoding :: "string \<Rightarrow> op_option" where
  "WithAcceptEncoding ae = (\<lambda>op. op\<lparr>acceptEncoding := ae\<rparr>)"

definition WithProxy :: "string \<Rightarrow> op_option" where
  "WithProxy p = (\<lambda>op. op\<lparr>proxy := p\<rparr>)"

definition WithHttpsCertFromJSON :: "(string \<Rightarrow> string \<Rightarrow> string) \<Rightarrow> string \<Rightarrow> string \<Rightarrow> string option \<Rightarrow> op_option" where
  "WithHttpsCertFromJSON x509KeyPair certFile keyFile caCrt =
     (let pair = x509KeyPair certFile keyFile
      in case caCrt of
           None \<Rightarrow> (\<lambda>op. op\<lparr>isHTTPS := True, keyPair := pair\<rparr>)
         | Some pool \<Rightarrow> (\<lambda>op. op\<lparr>isHTTPS := True, ca := Some pool, keyPair := pair\<rparr>))"

definition WithDebug :: op_option where
  "WithDebug = (\<lambda>op. op\<lparr>debugWriter := True\<rparr>)"

definition WithTracer :: op_option where
  "WithTracer = (\<lambda>op. op\<lparr>debugWriter := True, tracer := True\<rparr>)"

definition WithDnsCache :: op_option where
  "WithDnsCache = (\<lambda>op. op\<lparr>dnscache := True\<rparr>)"

definition WithCompleteRedirect :: op_option where
  "WithCompleteRedirect = (\<lambda>op. op\<lparr>checkRedirect := True\<rparr>)"

definition WithLoadingPrint :: "string \<Rightarrow> op_option" where
  "WithLoadingPrint desc = (\<lambda>op. op\<lparr>loadingPrint := True, loadingDesc := desc\<rparr>)"

definition WithDialerKeepAlive :: "int \<Rightarrow> op_option" where
  "WithDialerKeepAlive keepalive = (\<lambda>op. op\<lparr>dialerKeepalive := keepalive\<rparr>)"

definition WithTimeout :: "int \<Rightarrow> int \<Rightarrow> op_option" where
  "WithTimeout dial cli = (\<lambda>op. op\<lparr>dialTimeout := dial, clientTimeout := cli\<rparr>)"

definition WithCookieJar :: op_option where
  "WithCookieJar = (\<lambda>op. op\<lparr>cookieJar := True\<rparr>)"

definition WithEnableAutoRetry :: "bool \<Rightarrow> op_option" where
  "WithEnableAutoRetry b = (\<lambda>op. op\<lparr>enableAutoRetry := b\<rparr>)"

datatype tls_config =
    NoTLS
  | RootCAs string string           \<comment> \<open>verify against the pool, with this certificate\<close>
  | InsecureSkipVerify string

record http_client =
  hc_option :: client_option
  hc_proto :: string
  hc_proxy :: "string option"
  hc_idleTimeout :: int
  hc_tls :: tls_config
  hc_timeout :: int
  hc_basicAuth :: "(string \<times> string) option"
  hc_tokenAuth :: string
  hc_bearerTokenAuth :: string

definition apply_options :: "op_option list \<Rightarrow> client_option" where
  "apply_options ops = foldl (\<lambda>acc op. op acc)
     (zero_option\<lparr>dialTimeout := 15 * second, clientTimeout := 60 * second\<rparr>) ops"

definition New :: "op_option list \<Rightarrow> http_client" where
  "New ops =
     (let op = apply_options ops
      in \<lparr>hc_option = op,
          hc_proto = (if isHTTPS op then ''https'' else ''http''),
          hc_proxy = (if proxy op \<noteq> [] then Some (proxy op) else None),
          hc_idleTimeout = (if dialerKeepalive op \<noteq> 0 then dialerKeepalive op else 0),
          hc_tls = (if isHTTPS op
                    then (case ca op of
                            Some pool \<Rightarrow> RootCAs pool (keyPair op)
                          | None \<Rightarrow> InsecureSkipVerify (keyPair op))
                    else NoTLS),
          hc_timeout = clientTimeout op,
          hc_basicAuth = None, hc_tokenAuth = [], hc_bearerTokenAuth = []\<rparr>)"

definition BasicAuth :: "string \<Rightarrow> string \<Rightarrow> http_client \<Rightarrow> http_client" where
  "BasicAuth user password c = c\<lparr>hc_basicAuth := Some (user, password)\<rparr>"

definition TokenAuth :: "string \<Rightarrow> http_client \<Rightarrow> http_client" where
  "TokenAuth token c = c\<lparr>hc_tokenAuth := token\<rparr>"

definition BearerTokenAuth :: "string \<Rightarrow> http_client \<Rightarrow> http_client" where
  "BearerTokenAuth token c = c\<lparr>hc_bearerTokenAuth := token\<rparr>"

subsection \<open>Basic authentication: standard base 64\<close>

definition b64_char :: "nat \<Rightarrow> char" where
  "b64_char n = ''ABCDEFGHIJKLMNOPQRSTUVWXYZabcdefghijklmnopqrstuvwxyz0123456789+/'' ! n"

fun base64 :: "nat list \<Rightarrow> string" where
  "base64 [] = []"
| "base64 [a] = [b64_char (a div 4), b64_char (a mod 4 * 16), CHR ''='', CHR ''='']"
| "base64 [a, b] = [b64_char (a div 4), b64_char (a mod 4 * 16 + b div 16),
     b64_char (b mod 16 * 4), CHR ''='']"
| "base64 (a # b # c # s) = b64_char (a div 4) # b64_char (a mod 4 * 16 + b div 16) #
     b64_char (b mod 16 * 4 + c div 64) # b64_char (c mod 64) # base64 s"

definition constructBasicAuth :: "string \<Rightarrow> string \<Rightarrow> string" where
  "constructBasicAuth username password = base64 (map of_char (username @ '':'' @ password))"

subsection \<open>Requests under construction\<close>

record request =
  r_path :: string
  r_header :: "string \<rightharpoonup> string"
  r_cookie :: "string list"            \<comment> \<open>each printed as \<open>name=value\<close>\<close>
  r_params :: url_values
  r_body :: body
  r_err :: "go_error option"
  r_method :: string
  r_host :: string
  r_proto :: string
  r_internal :: "http_request option"
  r_option :: client_option
  r_traced :: bool
  r_retry :: retry_option

definition auth_header :: "http_client \<Rightarrow> (string \<rightharpoonup> string)" where
  "auth_header c =
     (let h0 = (case hc_basicAuth c of
                  None \<Rightarrow> Map.empty
                | Some (n, p) \<Rightarrow> [''Authorization'' \<mapsto> ''Basic '' @ constructBasicAuth n p]);
          h1 = (if length (hc_tokenAuth c) > 0
                then h0(''Authorization'' \<mapsto> ''token='' @ hc_tokenAuth c) else h0)
      in if length (hc_bearerTokenAuth c) > 0
         then h1(''Authorization'' \<mapsto> ''Bearer '' @ hc_bearerTokenAuth c) else h1)"

definition newRequest :: "http_client \<Rightarrow> retry_option list \<Rightarrow> request" where
  "newRequest c rs =
     (let h1 = auth_header c;
          h2 = (if isHTTPS (hc_option c) then h1(''X-Portal-Scheme'' \<mapsto> ''https'') else h1);
          h3 = (if length (acceptEncoding (hc_option c)) > 0
                then h2(''Accept-Encoding'' \<mapsto> acceptEncoding (hc_option c)) else h2)
      in \<lparr>r_path = [], r_header = h3, r_cookie = [], r_params = [], r_body = NoBody,
          r_err = None, r_method = [], r_host = [], r_proto = hc_proto c, r_internal = None,
          r_option = hc_option c, r_traced = debugWriter (hc_option c),
          r_retry = mergeRetryOptions rs\<rparr>)"

definition start :: "string \<Rightarrow> string \<Rightarrow> request \<Rightarrow> request" where
  "start method host req = req\<lparr>r_method := method, r_host := host\<rparr>"

text \<open>The variadic \<open>retry\<close> is nil exactly when no option is given.\<close>

definition Get :: "http_client \<Rightarrow> string \<Rightarrow> retry_option list \<Rightarrow> request" where
  "Get c host rs =
     (let rs' = (if rs = [] \<and> enableAutoRetry (hc_option c) then [RetryErrResp, Retry5XX] else rs)
      in start ''GET'' host (newRequest c rs'))"

definition Post :: "http_client \<Rightarrow> string \<Rightarrow> retry_option list \<Rightarrow> request" where
  "Post c host rs = start ''POST'' host (newRequest c rs)"

definition Delete :: "http_client \<Rightarrow> string \<Rightarrow> retry_option list \<Rightarrow> request" where
  "Delete c host rs = start ''DELETE'' host (newRequest c rs)"

definition Put :: "http_client \<Rightarrow> string \<Rightarrow> retry_option list \<Rightarrow> request" where
  "Put c host rs = start ''PUT'' host (newRequest c rs)"

definition Patch :: "http_client \<Rightarrow> string \<Rightarrow> retry_option list \<Rightarrow> request" where
  "Patch c host rs = start ''PATCH'' host (newRequest c rs)"

definition Head :: "http_client \<Rightarrow> string \<Rightarrow> retry_option list \<Rightarrow> request" where
  "Head c host rs = start ''HEAD'' host (newRequest c (if rs = [] then [RetryErrResp] else rs))"

definition Method :: "http_client \<Rightarrow> string \<Rightarrow> string \<Rightarrow> retry_option list \<Rightarrow> request res" where
  "Method c method host rs =
     (if method = ''GET'' then Ret (Get c host rs)
      else if method = ''POST'' then Ret (Post c host rs)
      else if method = ''DELETE'' then Ret (Delete c host rs)
      else if method = ''PUT'' then Ret (Put c host rs)
      else if method = ''PATCH'' then Ret (Patch c host rs)
      else if method = ''HEAD'' then Ret (Head c host rs)
      else Panic (''unsupported http method: '' @ method))"

definition Path :: "string \<Rightarrow> request \<Rightarrow> request" where
  "Path p r = r\<lparr>r_path := p\<rparr>"

definition Param :: "string \<Rightarrow> string \<Rightarrow> request \<Rightarrow> request" where
  "Param k v r = r\<lparr>r_params := Values_Add k v (r_params r)\<rparr>"

definition Params :: "(string \<times> string list) list \<Rightarrow> request \<Rightarrow> request" where
  "Params kvs r = r\<lparr>r_params :=
     foldl (\<lambda>m (k, vs). Values_Append k vs m) (r_params r) kvs\<rparr>"

definition Header :: "string \<Rightarrow> string \<Rightarrow> request \<Rightarrow> request" where
  "Header k v r = r\<lparr>r_header := (r_header r)(k \<mapsto> v)\<rparr>"

definition Headers :: "(string \<times> string list) list \<Rightarrow> request \<Rightarrow> request" where
  "Headers hs r = r\<lparr>r_header :=
     foldl (\<lambda>m (k, vs). case vs of [] \<Rightarrow> m | v # _ \<Rightarrow> m(k \<mapsto> v)) (r_header r) hs\<rparr>"

definition Cookie :: "string \<Rightarrow> request \<Rightarrow> request" where
  "Cookie v r = r\<lparr>r_cookie := r_cookie r @ [v]\<rparr>"

definition JSONBody :: "go_error + json \<Rightarrow> request \<Rightarrow> request" where
  "JSONBody marshalled r =
     Header ''Content-Type'' ''application/json''
       (case marshalled of
          Inl e \<Rightarrow> r\<lparr>r_err := Some e, r_body := NoBody\<rparr>
        | Inr j \<Rightarrow> r\<lparr>r_body := JsonBody j\<rparr>)"

definition RawBody :: "body \<Rightarrow> request \<Rightarrow> request" where
  "RawBody b r = r\<lparr>r_body := b\<rparr>"

definition FormBody :: "url_values \<Rightarrow> request \<Rightarrow> request" where
  "FormBody form r =
     Header ''Content-Type'' ''application/x-www-form-urlencoded''
       (r\<lparr>r_body := TextBody (Encode form)\<rparr>)"

text \<open>The boundary of the form is chosen at random: a parameter.\<close>

definition MultipartFormDataBody :: "string \<Rightarrow> (string \<times> string) list \<Rightarrow> request \<Rightarrow> request" where
  "MultipartFormDataBody boundary items r =
     Header ''Content-Type'' (''multipart/form-data; boundary='' @ boundary)
       (r\<lparr>r_body := MultipartBody items\<rparr>)"

subsection \<open>\<open>Do\<close>: the request that is sent\<close>

definition split_proto :: "request \<Rightarrow> request" where
  "split_proto r =
     (if HasPrefix (r_host r) ''https://''
      then r\<lparr>r_proto := ''https'', r_host := TrimPrefix (r_host r) ''https://''\<rparr>
      else if HasPrefix (r_host r) ''http://''
      then r\<lparr>r_proto := ''http'', r_host := TrimPrefix (r_host r) ''http://''\<rparr>
      else if HasPrefix (r_host r) ''inet://''
      then r\<lparr>r_proto := ''inet'', r_host := TrimPrefix (r_host r) ''inet://''\<rparr>
      else r)"

definition do_url :: "request \<Rightarrow> string" where
  "do_url r = r_proto r @ ''://'' @ r_host r @ r_path r @
     (if length (r_params r) > 0 then ''?'' @ Encode (r_params r) else [])"

definition GetUrl :: "request \<Rightarrow> string" where
  "GetUrl r = r_proto r @ ''://'' @ r_host r @ r_path r @ ''?'' @ Encode (r_params r)"

text \<open>The loops over the header map (in the order \<open>ks\<close>) and over the cookies.\<close>

definition set_headers :: "(string \<rightharpoonup> string) \<Rightarrow> string list \<Rightarrow> header \<Rightarrow> header" where
  "set_headers m ks h =
     foldl (\<lambda>h k. case m k of None \<Rightarrow> h | Some v \<Rightarrow> Header_Set k v h) h ks"

definition add_cookies :: "string list \<Rightarrow> header \<Rightarrow> header" where
  "add_cookies cs h =
     foldl (\<lambda>h c. case Header_Get ''Cookie'' h of
                    [] \<Rightarrow> Header_Set ''Cookie'' c h
                  | d # e \<Rightarrow> Header_Set ''Cookie'' ((d # e) @ ''; '' @ c) h) h cs"

definition default_accept :: "header \<Rightarrow> header" where
  "default_accept h =
     (if length (Header_Get ''Accept'' h) = 0
      then Header_Set ''Accept'' ''application/json, */*'' h else h)"

text \<open>\<open>Do\<close> with the portal address \<open>inetAddr\<close>: the request and the address it leaves.\<close>

definition Do :: "url_check \<Rightarrow> string list \<Rightarrow> string \<Rightarrow> request \<Rightarrow> request \<times> string" where
  "Do url_error ks inetAddr r0 =
     (if r_err r0 \<noteq> None then (r0, inetAddr)
      else if r_host r0 = [] then (r0\<lparr>r_err := Some ''not found host''\<rparr>, inetAddr)
      else
        let r = split_proto r0
        in case custom_NewRequest url_error inetAddr (r_method r) (do_url r) (r_body r) of
             (Inl e, a) \<Rightarrow> (r\<lparr>r_err := Some e\<rparr>, a)
           | (Inr req, a) \<Rightarrow>
               (r\<lparr>r_internal := Some (req\<lparr>rq_header :=
                  default_accept (add_cookies (r_cookie r)
                    (set_headers (r_header r) ks (rq_header req)))\<rparr>)\<rparr>, a))"

subsection \<open>\<open>doRequest\<close> and the readers of the answer\<close>

text \<open>
  \<open>dupRequest\<close> reads the body and builds two requests with it; they share the header.
\<close>

definition dupRequest :: "url_check \<Rightarrow> http_request \<Rightarrow> go_error + http_request \<times> http_request" where
  "dupRequest url_error req =
     (case http_NewRequest url_error (rq_method req) (rq_url req) (rq_body req) of
        Inl e \<Rightarrow> Inl e
      | Inr req1 \<Rightarrow> Inr (req1\<lparr>rq_header := rq_header req\<rparr>, req1\<lparr>rq_header := rq_header req\<rparr>))"

definition is_multipart :: "http_request \<Rightarrow> bool" where
  "is_multipart req \<longleftrightarrow> Index (Header_Get ''Content-Type'' (rq_header req)) ''multipart/form-data;'' = Some 0"

definition attempt_once :: "url_check \<Rightarrow> (http_request \<Rightarrow> ('s, outcome) prog) \<Rightarrow> http_request \<Rightarrow>
    ('s, outcome) prog" where
  "attempt_once url_error send req =
     (case dupRequest url_error req of
        Inl e \<Rightarrow> go_ret (None, Some (HttpError e False))
      | Inr (req1, req2) \<Rightarrow> send req2)"

definition doRequest :: "url_check \<Rightarrow> (int \<Rightarrow> ('s, unit) prog) \<Rightarrow> (http_request \<Rightarrow> ('s, outcome) prog) \<Rightarrow>
    request \<Rightarrow> ('s, outcome) prog" where
  "doRequest url_error sleep send r =
     (case r_err r of
        Some e \<Rightarrow> go_ret (None, Some (HttpError e False))
      | None \<Rightarrow>
          (case r_internal r of
             None \<Rightarrow> go_panic nil_deref
           | Some req \<Rightarrow>
               go_bind
                 (if is_multipart req then send req
                  else retry sleep (r_retry r) (attempt_once url_error send req))
                 (\<lambda>(resp, err).
                    if err \<noteq> None then go_ret (None, err) else go_ret (resp, None))))"

definition contentTypeIsJson :: "string \<Rightarrow> bool" where
  "contentTypeIsJson ct \<longleftrightarrow> Contains ct ''json''"

text \<open>
  \<open>JSON(o)\<close>: the response, and what was decoded into \<open>o\<close> (\<open>None\<close>: \<open>o\<close> is untouched).
  \<open>unmarshal\<close> is \<open>json.Unmarshal\<close> into the type of \<open>o\<close>.
\<close>

definition unmarshal_error :: "string \<Rightarrow> string \<Rightarrow> string" where
  "unmarshal_error e b = ''failed to Unmarshal JSON, err:'' @ e
     @ [CHR 0xEF, CHR 0xBC, CHR 0x8C] @ ''body :'' @ b"

definition read_JSON :: "(string \<Rightarrow> go_error + 'a) \<Rightarrow> ('s, outcome) prog \<Rightarrow>
    ('s, http_error + response \<times> 'a option) prog" where
  "read_JSON unmarshal sent =
     go_bind sent (\<lambda>(resp, err).
       case err of
         Some e \<Rightarrow> go_ret (Inl e)
       | None \<Rightarrow>
           (case resp of
              None \<Rightarrow> go_panic nil_deref
            | Some r \<Rightarrow>
                (case body_text r of
                   Inl e \<Rightarrow> go_ret (Inl (HttpError e False))
                 | Inr b \<Rightarrow>
                     if length (content_type r) > 0 \<and> \<not> contentTypeIsJson (content_type r)
                     then go_ret (Inr (r, None))
                     else (case unmarshal b of
                             Inl e \<Rightarrow> go_ret (Inl (HttpError (unmarshal_error e b) False))
                           | Inr v \<Rightarrow> go_ret (Inr (r, Some v))))))"

definition read_Body :: "('s, outcome) prog \<Rightarrow> ('s, http_error + response \<times> string) prog" where
  "read_Body sent =
     go_bind sent (\<lambda>(resp, err).
       case err of
         Some e \<Rightarrow> go_ret (Inl e)
       | None \<Rightarrow>
           (case resp of
              None \<Rightarrow> go_panic nil_deref
            | Some r \<Rightarrow>
                (case body_text r of
                   Inl e \<Rightarrow> go_ret (Inl (HttpError e False))
                 | Inr b \<Rightarrow> go_ret (Inr (r, b)))))"

definition read_DiscardBody :: "('s, outcome) prog \<Rightarrow> ('s, http_error + response) prog" where
  "read_DiscardBody sent =
     go_bind sent (\<lambda>(resp, err).
       case err of
         Some e \<Rightarrow> go_ret (Inl e)
       | None \<Rightarrow> (case resp of None \<Rightarrow> go_panic nil_deref | Some r \<Rightarrow> go_ret (Inr r)))"

definition IsOK :: "response \<Rightarrow> bool" where
  "IsOK r \<longleftrightarrow> go_div (status_code r) 100 = 2"

definition IsNotfound :: "response \<Rightarrow> bool" where
  "IsNotfound r \<longleftrightarrow> status_code r = 404"

definition IsConflict :: "response \<Rightarrow> bool" where
  "IsConflict r \<longleftrightarrow> status_code r = 409"

definition IsBadRequest :: "response \<Rightarrow> bool" where
  "IsBadRequest r \<longleftrightarrow> status_code r = 400"

subsection \<open>Dialling through the DNS cache\<close>

text \<open>
  The cache maps a host to its addresses (printed). \<open>resolve\<close> is \<open>net.LookupIP\<close>,
  \<open>is_ip\<close> says whether \<open>net.ParseIP\<close> accepts a text, \<open>raw\<close> is the dialer: an error or a
  connection. The result lists the addresses that were dialled.
\<close>

type_synonym dns_map = "string \<rightharpoonup> string list"

definition dns_lookup :: "(string \<Rightarrow> go_error + string list) \<Rightarrow> string \<Rightarrow> dns_map \<Rightarrow>
    (go_error + string list) \<times> dns_map" where
  "dns_lookup resolve host m =
     (case m host of
        Some ips \<Rightarrow> (Inr ips, m)
      | None \<Rightarrow>
          (case resolve host of
             Inl e \<Rightarrow> (Inl e, m)
           | Inr ips \<Rightarrow> (Inr ips, m(host \<mapsto> ips))))"

definition dns_refresh :: "dns_map \<Rightarrow> dns_map" where
  "dns_refresh m = Map.empty"

fun dial_ips :: "(string \<Rightarrow> go_error + 'c) \<Rightarrow> string \<Rightarrow> string list \<Rightarrow> string list \<times> 'c option" where
  "dial_ips raw remain [] = ([], None)"
| "dial_ips raw remain (ip # ips) =
     (case raw (ip @ remain) of
        Inl e \<Rightarrow> (let (tried, c) = dial_ips raw remain ips in ((ip @ remain) # tried, c))
      | Inr c \<Rightarrow> ([ip @ remain], Some c))"

definition split_addr :: "string \<Rightarrow> string \<times> string" where
  "split_addr addr =
     (case LastIndexByte addr CHR '':'' of
        None \<Rightarrow> (addr, [])
      | Some idx \<Rightarrow> (take idx addr, drop idx addr))"

definition dial_cached :: "(string \<Rightarrow> go_error + 'c) \<Rightarrow> (string \<Rightarrow> go_error + string list) \<Rightarrow>
    (string \<Rightarrow> bool) \<Rightarrow> string \<Rightarrow> string \<Rightarrow> dns_map \<Rightarrow> (string list \<times> (go_error + 'c)) \<times> dns_map" where
  "dial_cached raw resolve is_ip network addr m =
     (let (host, remain) = split_addr addr
      in if is_ip host \<or> (\<not> HasPrefix network ''tcp'' \<and> \<not> HasPrefix network ''udp'')
         then (([addr], raw addr), m)
         else case dns_lookup resolve host m of
                (Inl e, m') \<Rightarrow> (([addr], raw addr), m')
              | (Inr ips, m') \<Rightarrow>
                  (case dial_ips raw remain ips of
                     (tried, Some c) \<Rightarrow> ((tried, Inr c), m')
                   | (tried, None) \<Rightarrow> ((tried @ [addr], raw addr), m')))"

definition mkDialContext :: "client_option \<Rightarrow> (string \<Rightarrow> go_error + 'c) \<Rightarrow>
    (string \<Rightarrow> go_error + string list) \<Rightarrow> (string \<Rightarrow> bool) \<Rightarrow> string \<Rightarrow> string \<Rightarrow> dns_map \<Rightarrow>
    (string list \<times> (go_error + 'c)) \<times> dns_map" where
  "mkDialContext op raw resolve is_ip network addr m =
     (if dnscache op then dial_cached raw resolve is_ip network addr m
      else (([addr], raw addr), m))"

subsection \<open>Properties of the client\<close>

text \<open>
  The credentials of a new request: a bearer token wins over a token, which wins over
  basic authentication; without any of them there is no \<open>Authorization\<close> header.
\<close>

lemma authorization_precedence:
  "r_header (newRequest c rs) ''Authorization'' =
     (if hc_bearerTokenAuth c \<noteq> [] then Some (''Bearer '' @ hc_bearerTokenAuth c)
      else if hc_tokenAuth c \<noteq> [] then Some (''token='' @ hc_tokenAuth c)
      else map_option (\<lambda>(n, p). ''Basic '' @ constructBasicAuth n p) (hc_basicAuth c))"
  by (auto simp: newRequest_def auth_header_def Let_def split: option.split)

text \<open>
  C32. \<open>Do\<close> on a host that names \<open>http\<close> or \<open>https\<close>, when the URL is accepted: the scheme
  of the host wins over the client's, the URL is scheme, host, path and the encoded
  parameters, method and body are the builder's, and an \<open>Accept\<close> header is present.
\<close>

theorem Do_builds_request:
  assumes "r_err r = None" and "s \<in> {''http'', ''https''}" and "r_host r = s @ ''://'' @ rest"
  shows "\<exists>req. r_internal (fst (Do (\<lambda>_ _. None) ks addr r)) = Some req
    \<and> rq_url req = s @ ''://'' @ rest @ r_path r
        @ (if r_params r = [] then [] else ''?'' @ Encode (r_params r))
    \<and> rq_method req = r_method r \<and> rq_body req = r_body r
    \<and> Header_Get ''Accept'' (rq_header req) \<noteq> []
    \<and> r_err (fst (Do (\<lambda>_ _. None) ks addr r)) = None
    \<and> snd (Do (\<lambda>_ _. None) ks addr r) = addr"
proof -
  have acc: "Header_Get ''Accept'' (default_accept h) \<noteq> []" for h
    by (auto simp: default_accept_def Header_Get_Set)
  have s: "s = ''http'' \<or> s = ''https''" using assms(2) by blast
  have sp: "split_proto r = r\<lparr>r_proto := s, r_host := rest\<rparr>"
    using s
  proof
    assume "s = ''http''"
    then show ?thesis using assms(3) by (simp add: split_proto_def HasPrefix_def TrimPrefix_def)
  next
    assume "s = ''https''"
    then show ?thesis using assms(3) by (simp add: split_proto_def HasPrefix_def TrimPrefix_def)
  qed
  have u: "do_url (split_proto r) = s @ ''://'' @ rest @ r_path r
      @ (if r_params r = [] then [] else ''?'' @ Encode (r_params r))"
    by (simp add: do_url_def sp)
  have "\<not> HasPrefix (do_url (split_proto r)) ''inet://''"
    using s unfolding u by (auto simp: HasPrefix_def)
  then have c: "custom_NewRequest (\<lambda>_ _. None) addr (r_method (split_proto r))
        (do_url (split_proto r)) (r_body (split_proto r))
      = (Inr \<lparr>rq_method = r_method r, rq_url = do_url (split_proto r), rq_header = Map.empty,
           rq_body = r_body r\<rparr>, addr)"
    by (simp add: custom_NewRequest_def http_NewRequest_def sp)
  have "r_host r \<noteq> []" using s assms(3) by auto
  then have "Do (\<lambda>_ _. None) ks addr r
    = ((split_proto r)\<lparr>r_internal := Some \<lparr>rq_method = r_method r, rq_url = do_url (split_proto r),
         rq_header = default_accept (add_cookies (r_cookie r) (set_headers (r_header r) ks Map.empty)),
         rq_body = r_body r\<rparr>\<rparr>, addr)"
    using assms(1) by (simp add: Do_def Let_def c) (simp add: sp)
  then show ?thesis using assms(1) acc by (simp add: u) (simp add: sp)
qed

theorem Do_builds_request_witness:
  "\<exists>req. r_internal (fst (Do (\<lambda>_ _. None) [] [] (Path ''/api/files''
       (Post (New []) ''https://erda.cloud'' [])))) = Some req
    \<and> rq_url req = ''https://erda.cloud/api/files'' \<and> rq_method req = ''POST''"
proof -
  let ?r = "Path ''/api/files'' (Post (New []) ''https://erda.cloud'' [])"
  have "r_err ?r = None" "''https'' \<in> {''http'', ''https''}" "r_host ?r = ''https'' @ ''://'' @ ''erda.cloud''"
    by (simp_all add: Path_def Post_def start_def newRequest_def Let_def)
  from Do_builds_request [OF this, of "[]" "[]"]
  show ?thesis by (auto simp: Path_def Post_def start_def newRequest_def Let_def)
qed

text \<open>
  \<open>only_sends req\<close>: a world that lists the requests it was sent grows by copies of \<open>req\<close>
  only.
\<close>

definition note_send :: "(nat \<Rightarrow> outcome) \<Rightarrow> http_request \<Rightarrow> (http_request list, outcome) prog" where
  "note_send out req = (\<lambda>s. (Ret (out (length s)), s @ [req]))"

definition only_sends :: "http_request \<Rightarrow> http_request list \<Rightarrow> http_request list \<Rightarrow> bool" where
  "only_sends req s t \<longleftrightarrow> (\<exists>k. t = s @ replicate k req)"

interpretation sending: frame_rel "only_sends req" for req
  by unfold_locales (auto simp: only_sends_def replicate_add [symmetric])

lemma dupRequest_same:
  "dupRequest url_error req = Inr (req1, req2) \<Longrightarrow> req1 = req \<and> req2 = req"
  by (auto simp: dupRequest_def http_NewRequest_def split: option.splits sum.splits)

lemma note_send_keeps: "keeps (only_sends req) (note_send out req)"
  by (auto simp: keeps_def note_send_def only_sends_def intro: exI [of _ 1])

lemma attempt_once_keeps:
  "keeps (only_sends req) (attempt_once url_error (note_send out) req)"
  unfolding attempt_once_def
  by (auto split: sum.split dest!: dupRequest_same intro: frame note_send_keeps)

lemma timeout_loop_keeps: "keeps (only_sends req) fn \<Longrightarrow> keeps (only_sends req) (timeout_loop i fn oc)"
  by (induction i fn oc rule: timeout_loop.induct) (auto intro!: frame)

lemma retry_loop_keeps:
  "keeps (only_sends req) fn \<Longrightarrow> (\<And>d. keeps (only_sends req) (sleep d)) \<Longrightarrow>
     keeps (only_sends req) (retry_loop i sleep op fn oc)"
proof (induction i sleep op fn oc rule: retry_loop.induct)
  case (2 i sleep op fn oc)
  then show ?case
    by (auto intro!: frame timeout_loop_keeps simp: retryIfTimeout_def split: res.split bool.split)
qed (auto intro: frame)

lemma doRequest_keeps:
  "r_internal r = Some req \<Longrightarrow>
     keeps (only_sends req) (doRequest url_error (\<lambda>_. go_ret ()) (note_send out) r)"
  unfolding doRequest_def retry_def
  by (auto intro!: frame note_send_keeps retry_loop_keeps attempt_once_keeps split: option.split)


lemma dial_ips_spec:
  "(case dial_ips raw remain ips of
      (tried, None) \<Rightarrow> tried = map (\<lambda>ip. ip @ remain) ips \<and> (\<forall>a \<in> set tried. \<exists>e. raw a = Inl e)
    | (tried, Some c) \<Rightarrow> tried \<noteq> [] \<and> raw (last tried) = Inr c
        \<and> (\<forall>a \<in> set (butlast tried). \<exists>e. raw a = Inl e))"
proof (induction ips)
  case (Cons ip ips)
  show ?case
  proof (cases "raw (ip @ remain)")
    case (Inr c)
    then show ?thesis by simp
  next
    case (Inl e)
    obtain tried oc where "dial_ips raw remain ips = (tried, oc)" by fastforce
    then show ?thesis using Cons Inl by (cases oc) auto
  qed
qed simp

text \<open>
  C36. Dialling through the DNS cache returns what the dialer returned for the last
  address that was tried; every address tried before it failed; an error is only reported
  after the original address itself was tried; the cache changes at most by an answer of
  the resolver for the host.
\<close>

theorem mkDialContext_spec:
  "case mkDialContext op raw resolve is_ip network addr m of
     ((tried, result), m') \<Rightarrow>
       tried \<noteq> [] \<and> result = raw (last tried)
       \<and> list_all (\<lambda>a. \<exists>e. raw a = Inl e) (butlast tried)
       \<and> (case result of Inl e \<Rightarrow> last tried = addr | Inr c \<Rightarrow> True)
       \<and> (m' = m \<or> (\<exists>ips. resolve (fst (split_addr addr)) = Inr ips
              \<and> m' = m(fst (split_addr addr) \<mapsto> ips)))"
proof -
  obtain host remain where hr: "split_addr addr = (host, remain)" by fastforce
  have dns: "m' = m \<or> (\<exists>ips. resolve host = Inr ips \<and> m' = m(host \<mapsto> ips))"
    if "dns_lookup resolve host m = (x, m')" for x m'
    using that [symmetric] by (cases "m host"; cases "resolve host") (simp_all add: dns_lookup_def)
  have cached: ?thesis if "dnscache op" and "\<not> (is_ip host \<or> (\<not> HasPrefix network ''tcp'' \<and> \<not> HasPrefix network ''udp''))"
    and "dns_lookup resolve host m = (Inr ips, m')" for ips m'
  proof -
    obtain tried oc where d: "dial_ips raw remain ips = (tried, oc)" by fastforce
    show ?thesis
      using that hr d dial_ips_spec [where raw = raw and remain = remain and ips = ips] dns [OF that(3)]
      by (cases oc) (auto simp: mkDialContext_def dial_cached_def list_all_iff split: sum.split)
  qed
  show ?thesis
  proof (cases "dns_lookup resolve host m")
    case (Pair x m')
    then show ?thesis
      using cached hr dns [OF Pair]
      by (cases x) (auto simp: mkDialContext_def dial_cached_def list_all_iff split: sum.split)
  qed
qed


end
