(* ===== verification/DnsCache.thy ===== *)
theory DnsCache
  imports Machine HttpClient
begin

text \<open>
  The DNS cache (\<open>httpclient/dnscache.go\<close>) with lookups and refreshes interleaved: a
  lookup takes the pointer of the current map under the mutex and then works on that map,
  while a refresh may put a new one in its place. \<open>HttpClient.dns_lookup\<close> is one lookup
  that nothing interrupts.
\<close>

subsection \<open>The cache, its maps and its lookups\<close>

text \<open>Where a lookup is: before \<open>m := d.m\<close>, or holding the map \<open>r\<close> at one of its actions.\<close>

datatype lookup_at =
    Entering
  | Loading nat
  | Resolving nat
  | Storing nat "string list"
  | Returned nat "go_error + string list"

text \<open>
  \<open>d_m\<close> is the pointer of the cache, \<open>maps\<close> what the pointers refer to. \<open>now\<close> counts the
  steps; \<open>born\<close> notes when a map was made. Neither is read by the code.
\<close>

record dns_cache =
  d_m :: nat
  maps :: "nat \<Rightarrow> dns_map"
  lookups :: "nat \<Rightarrow> lookup_at"
  now :: nat
  born :: "nat \<Rightarrow> nat"

definition NewDNSCache :: dns_cache where
  "NewDNSCache = \<lparr>d_m = 0, maps = (\<lambda>_. Map.empty), lookups = (\<lambda>_. Entering), now = 0, born = (\<lambda>_. 0)\<rparr>"

text \<open>The resolver answers by the time and the host.\<close>

type_synonym resolver = "nat \<Rightarrow> string \<Rightarrow> go_error + string list"

fun lookup_action :: "resolver \<Rightarrow> string \<Rightarrow> lookup_at \<Rightarrow> dns_cache \<Rightarrow> lookup_at \<times> dns_cache" where
  "lookup_action res host Entering d = (Loading (d_m d), d)"
| "lookup_action res host (Loading r) d =
     (case maps d r host of Some ips \<Rightarrow> (Returned r (Inr ips), d) | None \<Rightarrow> (Resolving r, d))"
| "lookup_action res host (Resolving r) d =
     (case res (now d) host of
        Inl e \<Rightarrow> (Returned r (Inl e), d)
      | Inr ips \<Rightarrow> (Storing r ips, d))"
| "lookup_action res host (Storing r ips) d =
     (Returned r (Inr ips), d\<lparr>maps := (maps d)(r := (maps d r)(host \<mapsto> ips))\<rparr>)"
| "lookup_action res host (Returned r x) d = (Returned r x, d)"

text \<open>The new map of a refresh is a new object.\<close>

definition refresh_action :: "dns_cache \<Rightarrow> dns_cache" where
  "refresh_action d =
     d\<lparr>d_m := Suc (d_m d), maps := (maps d)(Suc (d_m d) := Map.empty), born := (born d)(Suc (d_m d) := now d)\<rparr>"

definition tick :: "dns_cache \<Rightarrow> dns_cache" where
  "tick d = d\<lparr>now := Suc (now d)\<rparr>"

definition look :: "resolver \<Rightarrow> string \<Rightarrow> nat \<Rightarrow> dns_cache \<Rightarrow> dns_cache" where
  "look res host i d =
     (let (a, d') = lookup_action res host (lookups d i) d
      in tick (d'\<lparr>lookups := (lookups d')(i := a)\<rparr>))"

definition refresh :: "dns_cache \<Rightarrow> dns_cache" where
  "refresh d = tick (refresh_action d)"

inductive dns_step :: "resolver \<Rightarrow> (nat \<Rightarrow> string) \<Rightarrow> dns_cache \<Rightarrow> dns_cache \<Rightarrow> bool"
  for res hosts where
  looks: "dns_step res hosts d (look res (hosts i) i d)"
| refreshes: "dns_step res hosts d (refresh d)"

inductive_cases dns_stepE: "dns_step res hosts d e"

subsection \<open>One lookup alone\<close>

text \<open>Four actions without a refresh between them are \<open>dns_lookup\<close> on the current map.\<close>

lemma lookup_alone:
  assumes "lookups d i = Entering"
  shows "\<exists>x. lookups ((look res host i ^^ 4) d) i = Returned (d_m d) x
     \<and> dns_lookup (res (now d + 2)) host (maps d (d_m d)) = (x, maps ((look res host i ^^ 4) d) (d_m d))"
  using assms
  by (cases "maps d (d_m d) host"; cases "res (now d + 2) host")
     (simp_all add: eval_nat_numeral look_def tick_def dns_lookup_def)

lemma refresh_empties: "maps (refresh d) (d_m (refresh d)) = dns_refresh (maps d (d_m d))"
  by (simp add: refresh_def refresh_action_def tick_def dns_refresh_def)

subsection \<open>Answers are no older than their map\<close>

definition resolved :: "resolver \<Rightarrow> string \<Rightarrow> nat \<Rightarrow> nat \<Rightarrow> string list \<Rightarrow> bool" where
  "resolved res host t1 t2 ips \<longleftrightarrow> (\<exists>t. t1 \<le> t \<and> t < t2 \<and> res t host = Inr ips)"

lemma resolved_widen: "resolved res host a b ips \<Longrightarrow> a' \<le> a \<Longrightarrow> b \<le> b' \<Longrightarrow> resolved res host a' b' ips"
  unfolding resolved_def using le_trans less_le_trans by blast

fun lookup_ok :: "resolver \<Rightarrow> string \<Rightarrow> dns_cache \<Rightarrow> lookup_at \<Rightarrow> bool" where
  "lookup_ok res host d Entering = True"
| "lookup_ok res host d (Loading r) = (r \<le> d_m d)"
| "lookup_ok res host d (Resolving r) = (r \<le> d_m d)"
| "lookup_ok res host d (Storing r ips) = (r \<le> d_m d \<and> resolved res host (born d r) (now d) ips)"
| "lookup_ok res host d (Returned r (Inl e)) = (r \<le> d_m d)"
| "lookup_ok res host d (Returned r (Inr ips)) = (r \<le> d_m d \<and> resolved res host (born d r) (now d) ips)"

definition cache_ok :: "resolver \<Rightarrow> (nat \<Rightarrow> string) \<Rightarrow> dns_cache \<Rightarrow> bool" where
  "cache_ok res hosts d \<longleftrightarrow>
     (\<forall>r \<le> d_m d. born d r \<le> now d)
     \<and> (\<forall>r r'. r \<le> r' \<longrightarrow> r' \<le> d_m d \<longrightarrow> born d r \<le> born d r')
     \<and> (\<forall>r host ips. r \<le> d_m d \<longrightarrow> maps d r host = Some ips \<longrightarrow> resolved res host (born d r) (now d) ips)
     \<and> (\<forall>i. lookup_ok res (hosts i) d (lookups d i))"


text \<open>How the cache changes: pointers and the clock grow, the birth of a map is fixed.\<close>

definition ages :: "dns_cache \<Rightarrow> dns_cache \<Rightarrow> bool" where
  "ages d e \<longleftrightarrow> d_m d \<le> d_m e \<and> now d \<le> now e \<and> (\<forall>r \<le> d_m d. born e r = born d r)"

lemma ages_refl: "ages d d" and ages_trans: "ages d e \<Longrightarrow> ages e f \<Longrightarrow> ages d f"
  unfolding ages_def using le_trans by auto

lemma lookup_ok_ages: "lookup_ok res host d a \<Longrightarrow> ages d e \<Longrightarrow> lookup_ok res host e a"
  by (cases "(res, host, d, a)" rule: lookup_ok.cases)
     (auto simp: ages_def intro: resolved_widen elim: le_trans)

lemma look_parts:
  assumes "lookup_action res host (lookups d i) d = (a, d')"
  shows "look res host i d = tick (d'\<lparr>lookups := (lookups d)(i := a)\<rparr>)"
    and "d_m d' = d_m d" "now d' = now d" "born d' = born d" "lookups d' = lookups d"
  using assms
  by (cases "(res, host, lookups d i, d)" rule: lookup_action.cases;
      auto simp: look_def split: option.splits sum.splits)+

lemma look_ages: "ages d (look res host i d)"
proof -
  obtain a d' where "lookup_action res host (lookups d i) d = (a, d')" by fastforce
  from look_parts [OF this] show ?thesis by (simp add: ages_def tick_def)
qed

lemma refresh_ages: "ages d (refresh d)"
  by (simp add: ages_def refresh_def refresh_action_def tick_def)

lemma dns_step_ages: "dns_step res hosts d e \<Longrightarrow> ages d e"
  by (erule dns_stepE) (simp_all add: look_ages refresh_ages)

lemma maps_resolved:
  assumes "cache_ok res hosts d" "r \<le> d_m d" "maps d r host = Some ips"
  shows "resolved res host (born d r) (Suc (now d)) ips"
proof -
  have "resolved res host (born d r) (now d) ips" using assms by (simp add: cache_ok_def)
  then show ?thesis by (rule resolved_widen) simp_all
qed

text \<open>What a single action gives: the next position is right at the next time, and so are the maps.\<close>

lemma action_ok:
  assumes "cache_ok res hosts d" "lookup_action res (hosts i) (lookups d i) d = (a, d')"
  shows "lookup_ok res (hosts i) (look res (hosts i) i d) a
    \<and> (\<forall>r host ips. r \<le> d_m d \<longrightarrow> maps d' r host = Some ips \<longrightarrow> resolved res host (born d r) (Suc (now d)) ips)"
proof -
  have here: "lookup_ok res (hosts i) d (lookups d i)" using assms(1) by (simp add: cache_ok_def)
  have maps: "resolved res host (born d r) (Suc (now d)) ips"
    if "r \<le> d_m d" "maps d r host = Some ips" for r host ips
    by (rule maps_resolved [OF assms(1) that])
  note parts = look_parts [OF assms(2)]
  show ?thesis
  proof (cases "lookups d i")
    case (Storing r ips)
    then have "resolved res (hosts i) (born d r) (Suc (now d)) ips" "r \<le> d_m d"
      using here by (auto elim: resolved_widen)
    then show ?thesis using Storing assms(2) maps parts by (auto simp: tick_def split: if_splits)
  next
    case (Resolving r)
    then have "r \<le> d_m d" and born: "born d r \<le> now d"
      using here assms(1) by (simp_all add: cache_ok_def)
    have fresh: "resolved res (hosts i) (born d r) (Suc (now d)) ips" if "res (now d) (hosts i) = Inr ips" for ips
      using born that unfolding resolved_def by (intro exI [of _ "now d"]) simp
    have "d' = d" using Resolving assms(2) by (auto split: sum.splits)
    moreover have "lookup_ok res (hosts i) (look res (hosts i) i d) a"
      using Resolving assms(2) fresh \<open>r \<le> d_m d\<close> unfolding parts(1)
      by (cases "res (now d) (hosts i)") (auto simp: tick_def)
    ultimately show ?thesis using maps by simp
  next
    case (Returned r x)
    then have "a = lookups d i" "d' = d" using assms(2) by auto
    moreover have "lookup_ok res (hosts i) (look res (hosts i) i d) (lookups d i)"
      by (rule lookup_ok_ages [OF here look_ages])
    ultimately show ?thesis using maps by simp
  next
    case Entering
    then have "a = Loading (d_m d)" "d' = d" using assms(2) by auto
    then show ?thesis using maps unfolding parts(1) by (simp add: tick_def)
  next
    case (Loading r)
    then have "d' = d" using assms(2) by (simp split: option.splits)
    moreover have "lookup_ok res (hosts i) (look res (hosts i) i d) a"
      using Loading assms(2) here maps [of r "hosts i"] unfolding parts(1)
      by (cases "maps d r (hosts i)") (auto simp: tick_def)
    ultimately show ?thesis using maps by simp
  qed
qed

lemma cache_ok_look: 
  assumes "cache_ok res hosts d" shows "cache_ok res hosts (look res (hosts i) i d)"
proof -
  obtain a d' where act: "lookup_action res (hosts i) (lookups d i) d = (a, d')" by fastforce
  let ?e = "look res (hosts i) i d"
  have "lookup_ok res (hosts j) ?e (lookups ?e j)" for j
  proof (cases "j = i")
    case True
    then show ?thesis using action_ok [OF assms act] look_parts(1) [OF act] by (simp add: tick_def)
  next
    case False
    then have "lookups ?e j = lookups d j" using look_parts(1) [OF act] by (simp add: tick_def)
    moreover have "lookup_ok res (hosts j) d (lookups d j)" using assms by (simp add: cache_ok_def)
    ultimately show ?thesis using lookup_ok_ages look_ages by metis
  qed
  then show ?thesis
    using action_ok [OF assms act] look_parts [OF act] assms by (simp add: cache_ok_def tick_def le_SucI)
qed

lemma cache_ok_refresh:
  assumes "cache_ok res hosts d" shows "cache_ok res hosts (refresh d)"
proof -
  have "lookup_ok res (hosts j) (refresh d) (lookups (refresh d) j)" for j
  proof -
    have "lookups (refresh d) j = lookups d j" by (simp add: refresh_def refresh_action_def tick_def)
    moreover have "lookup_ok res (hosts j) d (lookups d j)" using assms by (simp add: cache_ok_def)
    ultimately show ?thesis using lookup_ok_ages refresh_ages by metis
  qed
  moreover have "resolved res host (born d r) (Suc (now d)) ips"
    if "r \<le> d_m d" "maps d r host = Some ips" for r host ips
    by (rule maps_resolved [OF assms that])
  ultimately show ?thesis
    using assms by (auto simp: cache_ok_def refresh_def refresh_action_def tick_def le_Suc_eq)
qed

lemma cache_ok_new: "cache_ok res hosts NewDNSCache"
  by (simp add: cache_ok_def NewDNSCache_def)

interpretation dns: machine "\<lambda>d. d = NewDNSCache" "dns_step res hosts" "cache_ok res hosts" for res hosts
  by unfold_locales (use cache_ok_new cache_ok_look cache_ok_refresh in \<open>auto elim: dns_stepE\<close>)

subsection \<open>A lookup never answers with what is older than the last refresh\<close>

fun map_taken :: "lookup_at \<Rightarrow> nat option" where
  "map_taken Entering = None"
| "map_taken (Loading r) = Some r"
| "map_taken (Resolving r) = Some r"
| "map_taken (Storing r ips) = Some r"
| "map_taken (Returned r x) = Some r"

definition takes_from :: "nat \<Rightarrow> nat \<Rightarrow> dns_cache \<Rightarrow> bool" where
  "takes_from m i d \<longleftrightarrow> m \<le> d_m d \<and> (case map_taken (lookups d i) of None \<Rightarrow> True | Some r \<Rightarrow> m \<le> r)"

lemma takes_from_step:
  assumes "dns_step res hosts d e" "takes_from m i d" shows "takes_from m i e"
  using assms(1)
proof (rule dns_stepE)
  fix j assume e: "e = look res (hosts j) j d"
  obtain a d' where act: "lookup_action res (hosts j) (lookups d j) d = (a, d')" by fastforce
  have "m \<le> r" if "j = i" "map_taken a = Some r" for r
    using assms(2) act that
    by (cases "lookups d i"; clarsimp simp: takes_from_def split: option.splits sum.splits)
  then show ?thesis
    using e assms(2) look_parts [OF act] by (auto simp: takes_from_def tick_def split: option.splits)
next
  assume "e = refresh d"
  then show ?thesis
    using assms(2) by (auto simp: takes_from_def refresh_def refresh_action_def tick_def split: option.splits)
qed

lemma steps_from:
  "steps (dns_step res hosts) n d e \<Longrightarrow> takes_from m i d \<Longrightarrow> takes_from m i e \<and> ages d e"
  by (induction rule: steps.induct) (auto intro: ages_refl ages_trans dns_step_ages takes_from_step)

text \<open>
  C35. Lookups and refreshes interleaved in any way: a lookup that has not begun in some
  reached state and later returns addresses returns an answer the resolver gave after the
  last refresh before that state, even when a lookup from before the refresh stores its
  older answer afterwards.
\<close>

theorem dns_fresh:
  assumes "reach (\<lambda>d. d = NewDNSCache) (dns_step res hosts) d" "lookups d i = Entering"
    and "steps (dns_step res hosts) n d e" "lookups e i = Returned r (Inr ips)"
  shows "\<exists>t. born d (d_m d) \<le> t \<and> t < now e \<and> res t (hosts i) = Inr ips"
proof -
  have "cache_ok res hosts d" using dns.reach_inv [OF assms(1)] .
  then have e: "cache_ok res hosts e" using dns.steps_inv [OF assms(3)] by blast
  have "takes_from (d_m d) i e" and a: "ages d e"
    using steps_from [OF assms(3), of "d_m d" i] assms(2) by (simp_all add: takes_from_def)
  then have r: "d_m d \<le> r" using assms(4) by (simp add: takes_from_def)
  have "lookup_ok res (hosts i) e (Returned r (Inr ips))"
    using e assms(4) unfolding cache_ok_def by metis
  then have "r \<le> d_m e" "resolved res (hosts i) (born e r) (now e) ips" by simp_all
  moreover have "born d (d_m d) \<le> born e r"
    using e a r calculation(1) unfolding cache_ok_def ages_def by (metis order_refl)
  ultimately have "resolved res (hosts i) (born d (d_m d)) (now e) ips"
    using resolved_widen by blast
  then show ?thesis by (simp add: resolved_def)
qed

text \<open>
  An example: the lookup 0 resolves the host before a refresh and stores its answer after
  it; the lookup 1, which begins after the refresh, does not see that answer.
\<close>

definition moving :: resolver where
  "moving t host = Inr [if t < 5 then ''10.0.0.1'' else ''10.0.0.2'']"

definition after_refresh :: dns_cache where
  "after_refresh = refresh ((look moving ''h'' 0 ^^ 3) NewDNSCache)"

definition both_done :: dns_cache where
  "both_done = (look moving ''h'' 1 ^^ 4) (look moving ''h'' 0 after_refresh)"

lemma run_look:
  "reach (\<lambda>d. d = NewDNSCache) (dns_step res hosts) d \<Longrightarrow>
     reach (\<lambda>d. d = NewDNSCache) (dns_step res hosts) ((look res (hosts i) i ^^ k) d)"
  by (induction k) (auto intro: reach_step looks)

lemma steps_look: "steps (dns_step res hosts) k d ((look res (hosts i) i ^^ k) d)"
proof (induction k arbitrary: d)
  case (Suc k)
  then show ?case by (simp only: funpow_Suc_right comp_apply) (rule steps_Suc, rule looks, rule Suc)
qed (simp add: steps_0)

theorem dns_fresh_witness:
  "\<exists>t. born after_refresh (d_m after_refresh) \<le> t \<and> t < now both_done \<and> moving t ''h'' = Inr [''10.0.0.2'']"
proof -
  let ?h = "\<lambda>_ :: nat. ''h''"
  have "reach (\<lambda>d. d = NewDNSCache) (dns_step moving ?h) after_refresh"
    unfolding after_refresh_def
    using reach_step [OF run_look [OF reach_init, where k = 3 and i = 0 and hosts = ?h] refreshes] by simp
  moreover have "lookups after_refresh 1 = Entering" by code_simp
  moreover have "steps (dns_step moving ?h) (Suc 4) after_refresh both_done"
    unfolding both_done_def
    by (rule steps_Suc [where t = "look moving ''h'' 0 after_refresh"])
       (rule looks [where hosts = ?h], rule steps_look [where hosts = ?h])
  moreover have "lookups both_done 1 = Returned 1 (Inr [''10.0.0.2''])" by code_simp
  ultimately show ?thesis by (rule dns_fresh)
qed

end
