(* ===== verification/Terminal.thy ===== *)
theory Terminal
  imports HttpClient
begin

text \<open>
  What the HTTP client writes for people: colours (\<open>httpclient/color_str/color_str.go\<close>),
  the progress line (\<open>httpclient/loading.go\<close>) and the default tracer
  (\<open>httpclient/trace.go\<close>). Strings are bytes; a character of the progress line has three.
\<close>

subsection \<open>Colours\<close>

type_synonym color_option = string

definition color_join :: "color_option list \<Rightarrow> string \<Rightarrow> string" where
  "color_join op i = Join op i"

definition BlackBg :: color_option where "BlackBg = ''40''"
definition RedBg :: color_option where "RedBg = ''41''"
definition GreenBg :: color_option where "GreenBg = ''42''"
definition YellowBg :: color_option where "YellowBg = ''43''"
definition BlueBg :: color_option where "BlueBg = ''44''"
definition MagentaBg :: color_option where "MagentaBg = ''45''"
definition CyanBg :: color_option where "CyanBg = ''46''"
definition WhiteBg :: color_option where "WhiteBg = ''47''"
definition ResetAll :: color_option where "ResetAll = ''0''"
definition Bold :: color_option where "Bold = ''1''"
definition Underline :: color_option where "Underline = ''4''"
definition Inverse :: color_option where "Inverse = ''7''"

definition ESC :: char where "ESC = CHR 0x1B"

text \<open>The bodies of the eight functions differ in the code of their colour only.\<close>

definition in_color :: "string \<Rightarrow> string \<Rightarrow> color_option list \<Rightarrow> string" where
  "in_color code s op =
     [ESC] @ ''['' @ color_join (op @ [code]) '';'' @ ''m'' @ s @ [ESC] @ ''[0m''"

definition Black :: "string \<Rightarrow> color_option list \<Rightarrow> string" where "Black = in_color ''30''"
definition Red :: "string \<Rightarrow> color_option list \<Rightarrow> string" where "Red = in_color ''31''"
definition Green :: "string \<Rightarrow> color_option list \<Rightarrow> string" where "Green = in_color ''32''"
definition Yellow :: "string \<Rightarrow> color_option list \<Rightarrow> string" where "Yellow = in_color ''33''"
definition Blue :: "string \<Rightarrow> color_option list \<Rightarrow> string" where "Blue = in_color ''34''"
definition Magenta :: "string \<Rightarrow> color_option list \<Rightarrow> string" where "Magenta = in_color ''35''"
definition Cyan :: "string \<Rightarrow> color_option list \<Rightarrow> string" where "Cyan = in_color ''36''"
definition White :: "string \<Rightarrow> color_option list \<Rightarrow> string" where "White = in_color ''37''"

text \<open>What a terminal shows: everything outside of \<open>ESC [ \<dots> m\<close>.\<close>

fun shown :: "bool \<Rightarrow> string \<Rightarrow> string" where
  "shown hidden [] = []"
| "shown True (c # s) = shown (c \<noteq> CHR ''m'') s"
| "shown False (c # s) = (if c = ESC then shown True s else c # shown False s)"

lemma shown_code: "CHR ''m'' \<notin> set w \<Longrightarrow> shown True (w @ CHR ''m'' # s) = shown False s"
  by (induction w) auto

lemma shown_text: "ESC \<notin> set w \<Longrightarrow> shown False (w @ s) = w @ shown False s"
  by (induction w) auto

lemma set_Join: "set (Join ws sep) \<subseteq> \<Union> (set ` set ws) \<union> set sep"
  by (induction ws sep rule: Join.induct) auto

text \<open>Colouring changes nothing that is read, and ends its own effect.\<close>

lemma in_color_shown:
  assumes "ESC \<notin> set s" "\<forall>w \<in> set (code # op). CHR ''m'' \<notin> set w"
  shows "shown False (in_color code s op @ t) = s @ shown False t"
proof -
  let ?w = "CHR ''['' # color_join (op @ [code]) '';''"
  have "CHR ''m'' \<notin> set ?w"
    using assms(2) set_Join [of "op @ [code]" "'';''"] by (auto simp: color_join_def)
  then have "shown False (in_color code s op @ t) = shown False (s @ ([ESC] @ ''[0m'' @ t))"
    using shown_code [of ?w "s @ [ESC] @ ''[0m'' @ t"] by (simp add: in_color_def)
  also have "\<dots> = s @ shown False t"
    using assms(1) by (simp add: shown_text)
  finally show ?thesis .
qed

subsection \<open>The progress line\<close>

text \<open>In UTF-8: the braille patterns 2827, 2836, 283C, 2839, 281B and 280F.\<close>

definition loadingChars :: "string list" where
  "loadingChars = map (\<lambda>c. [CHR 0xE2, CHR 0xA0, c])
     [CHR 0xA7, CHR 0xB6, CHR 0xBC, CHR 0xB9, CHR 0x9B, CHR 0x8F]"

text \<open>
  \<open>idx\<close> is the package's counter (ten turns a second do not exhaust a 64-bit integer);
  \<open>formats\<close> are the arguments of the calls of \<open>Printf\<close>, \<open>tputs\<close> those of \<open>tput\<close>.
\<close>

record screen =
  idx :: nat
  formats :: "string list"
  tputs :: "string list"

definition printStr :: "string \<Rightarrow> nat \<Rightarrow> string" where
  "printStr desc i = Green (loadingChars ! (i mod length loadingChars)) [] @ '' '' @ desc"

definition CR :: string where "CR = [CHR 0x0D]"

definition show_turn :: "string \<Rightarrow> screen \<Rightarrow> screen" where
  "show_turn desc w = w\<lparr>formats := formats w @ [CR @ printStr desc (idx w)], idx := Suc (idx w)\<rparr>"

definition tput :: "string \<Rightarrow> screen \<Rightarrow> screen" where
  "tput arg w = w\<lparr>tputs := tputs w @ [arg]\<rparr>"

text \<open>
  \<open>ticks\<close>: how often the timer fires before \<open>f\<close> has ended and its goroutine has sent. A
  panic of \<open>f\<close> ends the program; an \<open>f\<close> that blocks is waited for.
\<close>

definition Loading :: "string \<Rightarrow> ('s, unit) prog \<Rightarrow> nat \<Rightarrow> bool \<Rightarrow> bool \<Rightarrow> ('s \<times> screen, unit) prog" where
  "Loading onelineDesc f ticks disappearAfterDone eraseCursor = (\<lambda>(s, w).
     let w1 = (if eraseCursor then tput ''civis'' w else w);
         desc = ReplaceAll onelineDesc [CHR 0x0A] '' '';
         w2 = (show_turn desc ^^ Suc ticks) w1
     in case f s of
          (Ret u, s') \<Rightarrow>
            let w3 = (if disappearAfterDone
                      then w2\<lparr>formats := formats w2 @ [CR @ replicate (length desc + 2) CHR '' '' @ CR]\<rparr>
                      else w2)
            in (Ret (), s', if eraseCursor then tput ''cvvis'' w3 else w3)
        | (Panic e, s') \<Rightarrow> (Panic e, s', w2)
        | (Blocked, s') \<Rightarrow> (Blocked, s', w2))"

text \<open>The progress line does not get in the way: \<open>f\<close> runs once, with its own outcome.\<close>

lemma Loading_runs_once:
  "map_prod id fst (Loading desc f ticks dis era (s, w)) = f s"
  by (cases "f s" rule: prod.exhaust; cases "fst (f s)")
     (auto simp: Loading_def Let_def split: prod.splits res.splits)

lemma show_turns:
  "formats ((show_turn desc ^^ n) w) = formats w @ map (\<lambda>k. CR @ printStr desc (idx w + k)) [0..<n]
   \<and> idx ((show_turn desc ^^ n) w) = idx w + n"
  by (induction n) (simp_all add: show_turn_def)

text \<open>
  Columns: every byte of the line that does not continue a character. A turn of the line
  takes at most the columns that are blanked when it disappears, when the description has
  no escape codes (\<open>Printf\<close> shows its format when that has no verbs).
\<close>

definition columns :: "string \<Rightarrow> nat" where
  "columns s = length (filter (\<lambda>c. \<not> (0x80 \<le> (of_char c :: nat) \<and> (of_char c :: nat) < 0xC0)) s)"

lemma loadingChars_plain: "i < 6 \<Longrightarrow> ESC \<notin> set (loadingChars ! i) \<and> columns (loadingChars ! i) = 1"
proof -
  assume "i < 6"
  then have "i \<in> {0, 1, 2, 3, 4, 5}" by auto
  then show ?thesis by (auto simp: loadingChars_def columns_def ESC_def)
qed

lemma columns_append: "columns (s @ t) = columns s + columns t"
  by (simp add: columns_def)

lemma printStr_columns:
  assumes "ESC \<notin> set desc"
  shows "columns (shown False (printStr desc i)) \<le> length desc + 2"
proof -
  let ?c = "loadingChars ! (i mod length loadingChars)"
  have six: "length loadingChars = 6" by (simp add: loadingChars_def)
  have c: "ESC \<notin> set ?c \<and> columns ?c = 1"
    using loadingChars_plain [of "i mod 6"] by (simp add: six)
  have "shown False (printStr desc i) = ?c @ shown False (('' '' @ desc) @ [])"
    using c in_color_shown [of ?c "''32''" "[]" "'' '' @ desc"] by (simp add: printStr_def Green_def)
  also have "\<dots> = ?c @ '' '' @ desc"
    using assms shown_text [of "'' '' @ desc" "[]"] by (simp add: ESC_def)
  finally have "columns (shown False (printStr desc i)) = 2 + columns desc"
    using c by (simp add: columns_append) (simp add: columns_def)
  moreover have "columns desc \<le> length desc" by (simp add: columns_def)
  ultimately show ?thesis by simp
qed

subsection \<open>The default tracer\<close>

text \<open>
  The state is what was written to its writer. Reading the body consumes it; on success it
  is put back, on failure the response keeps a body that fails to be read.
\<close>

definition TraceRequest :: "http_request \<Rightarrow> string list \<Rightarrow> string list" where
  "TraceRequest req w = w @ [''RequestURL: '' @ rq_url req @ [CHR 0x0A]]"

definition TraceResponse :: "response \<Rightarrow> string list \<Rightarrow> response \<times> string list" where
  "TraceResponse r w =
     (case body_text r of
        Inl e \<Rightarrow> (r, w @ [''TraceResponse: read response body fail: '' @ e])
      | Inr body \<Rightarrow> (r\<lparr>body_text := Inr body\<rparr>, w @ [''ResponseBody: '' @ body @ [CHR 0x0A]]))"

lemma TraceResponse_keeps: "fst (TraceResponse r w) = r"
  by (simp add: TraceResponse_def split: sum.split)

subsection \<open>Answers that are handed through\<close>

text \<open>\<open>StreamBody\<close>: the body that is still to be read, and the response.\<close>

definition read_StreamBody :: "('s, outcome) prog \<Rightarrow> ('s, http_error + (go_error + string) \<times> response) prog" where
  "read_StreamBody sent =
     go_bind sent (\<lambda>(resp, err).
       case err of
         Some e \<Rightarrow> go_ret (Inl e)
       | None \<Rightarrow> (case resp of None \<Rightarrow> go_panic nil_deref | Some r \<Rightarrow> go_ret (Inr (body_text r, r))))"

definition RAW :: "('s, outcome) prog \<Rightarrow> ('s, outcome) prog" where
  "RAW sent = sent"

subsection \<open>A request with its traces and its progress line\<close>

text \<open>
  \<open>doRequest\<close> of \<open>request.go\<close> as it is: the tracer sees the request before it is sent and the
  response afterwards, the sending runs under the progress line when the options ask for it.
  The state holds beside that of the outside the screen and what the tracer wrote. The
  closure \<open>f\<close> assigns the variables \<open>resp, err\<close>, which are the second part of its state.
\<close>

definition assigning :: "('s, outcome) prog \<Rightarrow> ('s \<times> outcome, unit) prog" where
  "assigning m = (\<lambda>(s, v). case m s of
     (Ret out, t) \<Rightarrow> (Ret (), t, out) | (Panic e, t) \<Rightarrow> (Panic e, t, v) | (Blocked, t) \<Rightarrow> (Blocked, t, v))"

definition send_shown :: "request \<Rightarrow> nat \<Rightarrow> ('s, outcome) prog \<Rightarrow> ('s \<times> screen, outcome) prog" where
  "send_shown r ticks m = (\<lambda>(s, w).
     if loadingPrint (r_option r) then
       let desc = (if loadingDesc (r_option r) \<noteq> [] then loadingDesc (r_option r) else r_path r)
       in case Loading desc (assigning m) ticks True False ((s, (None, None)), w) of
            (Ret u, (t, out), w') \<Rightarrow> (Ret out, t, w')
          | (Panic e, (t, out), w') \<Rightarrow> (Panic e, t, w')
          | (Blocked, (t, out), w') \<Rightarrow> (Blocked, t, w')
     else (case m s of (x, t) \<Rightarrow> (x, t, w)))"

definition doRequest_shown :: "url_check \<Rightarrow> (int \<Rightarrow> ('s, unit) prog) \<Rightarrow> (http_request \<Rightarrow> ('s, outcome) prog) \<Rightarrow>
    request \<Rightarrow> nat \<Rightarrow> (('s \<times> screen) \<times> string list, outcome) prog" where
  "doRequest_shown url_error sleep send r ticks = (\<lambda>(sw, tr).
     case r_err r of
       Some e \<Rightarrow> (Ret (None, Some (HttpError e False)), sw, tr)
     | None \<Rightarrow>
         (case r_internal r of
            None \<Rightarrow> (Panic nil_deref, sw, tr)
          | Some req \<Rightarrow>
              let tr1 = (if r_traced r then TraceRequest req tr else tr) in
              (case send_shown r ticks
                      (if is_multipart req then send req
                       else retry sleep (r_retry r) (attempt_once url_error send req)) sw of
                 (Ret (resp, err), sw1) \<Rightarrow>
                   if err \<noteq> None then (Ret (None, err), sw1, tr1)
                   else if \<not> r_traced r then (Ret (resp, None), sw1, tr1)
                   else (case resp of
                           None \<Rightarrow> (Panic nil_deref, sw1, tr1)
                         | Some a \<Rightarrow> (case TraceResponse a tr1 of
                                        (b, tr2) \<Rightarrow> (Ret (Some b, None), sw1, tr2)))
               | (Panic e, sw1) \<Rightarrow> (Panic e, sw1, tr1)
               | (Blocked, sw1) \<Rightarrow> (Blocked, sw1, tr1))))"

lemma send_shown_same: "map_prod id fst (send_shown r ticks m (s, w)) = m s"
proof -
  have "map_prod id fst (Loading desc (assigning m) ticks True False ((s, v), w)) = assigning m (s, v)" for desc v
    by (rule Loading_runs_once)
  then show ?thesis
    by (cases "m s" rule: prod.exhaust; cases "fst (m s)")
       (auto simp: send_shown_def Loading_def assigning_def Let_def split: prod.splits res.splits)
qed


definition traced_request :: request where
  "traced_request = (Get (New []) ''h'' [])\<lparr>r_traced := True, r_internal := Some
     \<lparr>rq_method = ''GET'', rq_url = ''http://h'', rq_header = Map.empty, rq_body = NoBody\<rparr>\<rparr>"

definition short_answer :: response where
  "short_answer = \<lparr>status_code = 200, content_type = [], body_text = Inr ''ok''\<rparr>"


end
