(* ===== verification/Registry.thy ===== *)
theory Registry
  imports Prelude
begin

text \<open>
  What the agent relies on when it keeps its jobs and its services in a \<open>sync.Map\<close>: a
  lookup sees the last store under its key (\<open>registry\<close>) and nothing after a deletion
  (\<open>deletable_registry\<close>).
\<close>

locale registry =
  fixes load :: "'s \<Rightarrow> 'k \<Rightarrow> 'r option"
    and store :: "'k \<Rightarrow> 'r \<Rightarrow> 's \<Rightarrow> 's"
  assumes load_store: "load (store k r s) k' = (if k' = k then Some r else load s k')"
begin

lemma load_same: "load (store k r s) k = Some r"
  by (simp add: load_store)

lemma load_other: "k' \<noteq> k \<Longrightarrow> load (store k r s) k' = load s k'"
  by (simp add: load_store)

lemma store_overwrites: "load (store k r (store k q s)) = load (store k r s)"
  by (rule ext) (simp add: load_store)

lemma store_commute: "k \<noteq> j \<Longrightarrow> load (store k r (store j q s)) = load (store j q (store k r s))"
  by (rule ext) (simp add: load_store)

lemma load_stores:
  "load (foldl (\<lambda>s (k, r). store k r s) s krs) k
     = (case map_of (rev krs) k of None \<Rightarrow> load s k | Some r \<Rightarrow> Some r)"
  by (induction krs arbitrary: s) (auto simp: load_store map_add_def split: option.splits)

end

locale deletable_registry = registry +
  fixes delete :: "'k \<Rightarrow> 's \<Rightarrow> 's"
  assumes load_delete: "load (delete k s) k' = (if k' = k then None else load s k')"
begin

lemma load_deleted: "load (delete k s) k = None"
  by (simp add: load_delete)

lemma delete_twice: "load (delete k (delete k s)) = load (delete k s)"
  by (rule ext) (simp add: load_delete)

lemma delete_store: "load s k = None \<Longrightarrow> load (delete k (store k r s)) = load s"
  by (rule ext) (simp add: load_delete load_store)

end

end
