(* ===== verification/AgentState.thy ===== *)
theory AgentState
  imports EnvConf HttpClient Registry
begin

text \<open>
  The state of the agent process (\<open>agent/core\<close>): the two package-level \<open>sync.Map\<close>s
  \<open>RunJobs\<close> and \<open>Services\<close>, the objects their pointers refer to, and the history of
  everything the agent did to the outside. The outside (files, commands, network, clock)
  answers by arbitrary functions of that history and the call; they are the fields of
  \<open>env\<close>. A \<open>sync.Map\<close> key carries its dynamic type: the key \<open>uint64 7\<close> is not \<open>string "7"\<close>.
\<close>

subsection \<open>Objects\<close>

datatype map_key = KeyUint64 uint64 | KeyString string

text \<open>
  \<open>DetectionJob\<close> (\<open>job.go\<close>): \<open>job_done\<close> says whether its context is cancelled,
  \<open>job_DumpLock\<close> whether its mutex is held.
\<close>

record detection_job =
  job_PlanID :: uint64
  job_Status :: string
  job_JobStatus :: string
  job_MavenSettings :: string
  job_Includes :: string
  job_Excludes :: string
  job_ErrorMsg :: string
  job_done :: bool
  job_DumpLock :: bool

text \<open>\<open>Pod\<close> and \<open>Service\<close> (\<open>watcher.go\<close>).\<close>

record pod =
  pod_Addr :: string
  pod_PodName :: string
  pod_ContainerName :: string
  pod_ErrorMsg :: string
  pod_HasError :: bool

record service =
  svc_Name :: string
  svc_Image :: string
  svc_JarAddrList :: "string list"
  svc_Pods :: "pod list"
  svc_LoadLock :: bool
  svc_ErrorMessage :: string
  svc_IsDelete :: bool
  svc_done :: bool

text \<open>\<open>status.go\<close>.\<close>

definition Running :: string where "Running = ''running''"
definition Ready :: string where "Ready = ''ready''"
definition Success :: string where "Success = ''success''"
definition Fail :: string where "Fail = ''fail''"

definition RunningStatus :: string where "RunningStatus = ''running''"
definition ReadyStatus :: string where "ReadyStatus = ''ready''"
definition EndingStatus :: string where "EndingStatus = ''ending''"
definition CancelStatus :: string where "CancelStatus = ''cancel''"
definition SuccessStatus :: string where "SuccessStatus = ''success''"
definition FailStatus :: string where "FailStatus = ''fail''"

lemmas status_defs = RunningStatus_def ReadyStatus_def EndingStatus_def CancelStatus_def
  SuccessStatus_def FailStatus_def

subsection \<open>History\<close>

datatype goroutine =
    GoScheduling uint64          \<comment> \<open>\<open>go schedulingJob(planID)\<close>\<close>
  | GoAwaitDelete nat            \<comment> \<open>the watcher of a service's context\<close>
  | GoReloadJar nat              \<comment> \<open>\<open>go reloadJarAddr(svc)\<close>\<close>

datatype event =
    EvRun string "string list"
  | EvStat string
  | EvMkdir string
  | EvCreateTemp string string
  | EvMkdirTemp string
  | EvCreate string
  | EvOpen string
  | EvOpenTrunc string
  | EvWriteString string string
  | EvReadDir string
  | EvRemove string
  | EvDial string
  | EvSetenv string string
  | EvHttp http_request
  | EvNow
  | EvSleep int
  | EvMkdirAll string
  | EvEvalSymlinks string
  | EvSymlink string string            \<comment> \<open>target, new name\<close>
  | EvCopyTo string string             \<comment> \<open>file, content\<close>
  | EvExecTar string string            \<comment> \<open>pod, path packed by \<open>tar\<close> in it\<close>
  | EvWalk string
  | EvListPods string
  | EvInClusterConfig
  | EvNewForConfig
  | EvListDeployments
  | EvGo goroutine

type_synonym history = "event list"

text \<open>
  An entry of a tar stream, and what reading the stream gives next: an entry, or an error
  of the reader. The end of the list is the end of the stream.
\<close>

record tar_entry =
  te_Name :: string
  te_isDir :: bool
  te_isSymlink :: bool
  te_Linkname :: string
  te_content :: string

type_synonym tar_item = "go_error + tar_entry"

text \<open>A pod as the cluster lists it: address, name, the names of its containers.\<close>

record k8s_pod =
  kp_IP :: string
  kp_Name :: string
  kp_containers :: "string list"

text \<open>A deployment: its name, the label \<open>app\<close> (empty when missing), its containers.\<close>

record k8s_container =
  kc_Image :: string
  kc_Env :: "(string \<times> string) list"

record deployment =
  dep_Name :: string
  dep_app :: string
  dep_Containers :: "k8s_container list"

text \<open>What the centre asks for (\<open>CodeCoverageExecRecordDetail\<close>, \<open>callback.go\<close>).\<close>

record exec_detail =
  d_PlanID :: uint64
  d_ProjectID :: uint64
  d_Status :: string
  d_MavenSetting :: string
  d_Includes :: string
  d_Excludes :: string

record agent =
  RunJobs :: "map_key \<rightharpoonup> nat"
  Services :: "map_key \<rightharpoonup> nat"
  jobs :: "nat \<Rightarrow> detection_job"
  svcs :: "nat \<Rightarrow> service"
  next_ref :: nat
  inet_addr :: string
  trace :: history
  deployListNum :: nat
  watchListDeployLoadDoneNum :: nat
  poll_detail :: "exec_detail option"  \<comment> \<open>the variable \<open>detail\<close> of \<open>WatchJob\<close>\<close>
  start_lock :: bool                   \<comment> \<open>\<open>WhenStartLoadAllDeploymentLock\<close> is held\<close>

subsection \<open>The outside\<close>

text \<open>
  \<open>x_retry\<close> is \<open>retry.RetryOnConflict\<close> of \<open>k8s.io/client-go\<close>, applied to a closure that
  returns an error. \<open>x_execTar\<close> answers with the error of building the executor, or with the
  stream error that is already there when the copying starts, if any, and what the reader
  of the pipe then yields. \<open>x_copyTo\<close> is \<open>io.Copy\<close> to a file and its \<open>Close\<close>, \<open>x_walk\<close> the
  files \<open>filepath.Walk\<close> visits with their being directories. \<open>x_shuffle\<close> is the order in which
  the values of a Go map are visited. \<open>x_order\<close> is the order in which \<open>Range\<close> visits a \<open>sync.Map\<close>.
\<close>

record env =
  cfg :: Conf
  x_run :: "history \<Rightarrow> string \<Rightarrow> string list \<Rightarrow> go_error option"
  x_stat :: "history \<Rightarrow> string \<Rightarrow> (go_error \<times> bool) option"   \<comment> \<open>error, and \<open>os.IsExist\<close> of it\<close>
  x_mkdir :: "history \<Rightarrow> string \<Rightarrow> go_error option"
  x_createTemp :: "history \<Rightarrow> string \<Rightarrow> string \<Rightarrow> go_error + string"
  x_mkdirTemp :: "history \<Rightarrow> string \<Rightarrow> go_error + string"
  x_create :: "history \<Rightarrow> string \<Rightarrow> go_error option"
  x_open :: "history \<Rightarrow> string \<Rightarrow> go_error option"
  x_openTrunc :: "history \<Rightarrow> string \<Rightarrow> go_error option"
  x_writeString :: "history \<Rightarrow> string \<Rightarrow> string \<Rightarrow> go_error option"
  x_readDir :: "history \<Rightarrow> string \<Rightarrow> go_error + string list"
  x_remove :: "history \<Rightarrow> string \<Rightarrow> go_error option"
  x_dial :: "history \<Rightarrow> string \<Rightarrow> go_error option"
  x_send :: "history \<Rightarrow> http_request \<Rightarrow> outcome"
  x_now :: "history \<Rightarrow> string"
  x_boundary :: "history \<Rightarrow> string"
  x_url_error :: url_check
  x_json :: "string \<Rightarrow> go_error + json"
  x_time_ok :: "string \<Rightarrow> bool"
  x_show :: "json \<Rightarrow> string"
  x_mkdirAll :: "history \<Rightarrow> string \<Rightarrow> go_error option"
  x_evalSymlinks :: "history \<Rightarrow> string \<Rightarrow> go_error option"
  x_symlink :: "history \<Rightarrow> string \<Rightarrow> string \<Rightarrow> go_error option"
  x_copyTo :: "history \<Rightarrow> string \<Rightarrow> string \<Rightarrow> go_error option"
  x_execTar :: "history \<Rightarrow> string \<Rightarrow> string \<Rightarrow> go_error + (go_error option \<times> tar_item list)"
  x_listPods :: "history \<Rightarrow> string \<Rightarrow> go_error + k8s_pod list"
  x_inClusterConfig :: "history \<Rightarrow> go_error option"
  x_newForConfig :: "history \<Rightarrow> go_error option"
  x_listDeployments :: "history \<Rightarrow> go_error + deployment list"
  x_walk :: "history \<Rightarrow> string \<Rightarrow> (string \<times> bool) list"
  x_order :: "history \<Rightarrow> (map_key \<rightharpoonup> nat) \<Rightarrow> map_key list"
  x_shuffle :: "history \<Rightarrow> string list \<Rightarrow> string list"
  x_header_order :: "(string \<rightharpoonup> string) \<Rightarrow> string list"
  x_retry :: "(agent, go_error option) prog \<Rightarrow> (agent, go_error option) prog"

text \<open>One call of the outside: the answer depends on the history, which grows by the call.\<close>

definition ext :: "(history \<Rightarrow> 'a) \<Rightarrow> event \<Rightarrow> (agent, 'a) prog" where
  "ext f ev = (\<lambda>s. (Ret (f (trace s)), s\<lparr>trace := trace s @ [ev]\<rparr>))"

definition simpleRun :: "env \<Rightarrow> string \<Rightarrow> string list \<Rightarrow> (agent, go_error option) prog" where
  "simpleRun E name arg = ext (\<lambda>h. x_run E h name arg) (EvRun name arg)"

definition Exists :: "env \<Rightarrow> string \<Rightarrow> (agent, bool) prog" where
  "Exists E path = ext (\<lambda>h. case x_stat E h path of None \<Rightarrow> True | Some (e, is_exist) \<Rightarrow> is_exist)
     (EvStat path)"

definition os_Mkdir :: "env \<Rightarrow> string \<Rightarrow> (agent, go_error option) prog" where
  "os_Mkdir E p = ext (\<lambda>h. x_mkdir E h p) (EvMkdir p)"

definition os_CreateTemp :: "env \<Rightarrow> string \<Rightarrow> string \<Rightarrow> (agent, go_error + string) prog" where
  "os_CreateTemp E dir pat = ext (\<lambda>h. x_createTemp E h dir pat) (EvCreateTemp dir pat)"

definition os_MkdirTemp :: "env \<Rightarrow> string \<Rightarrow> (agent, go_error + string) prog" where
  "os_MkdirTemp E pat = ext (\<lambda>h. x_mkdirTemp E h pat) (EvMkdirTemp pat)"

definition os_Create :: "env \<Rightarrow> string \<Rightarrow> (agent, go_error option) prog" where
  "os_Create E p = ext (\<lambda>h. x_create E h p) (EvCreate p)"

definition os_Open :: "env \<Rightarrow> string \<Rightarrow> (agent, go_error option) prog" where
  "os_Open E p = ext (\<lambda>h. x_open E h p) (EvOpen p)"

definition os_OpenTrunc :: "env \<Rightarrow> string \<Rightarrow> (agent, go_error option) prog" where
  "os_OpenTrunc E p = ext (\<lambda>h. x_openTrunc E h p) (EvOpenTrunc p)"

definition file_WriteString :: "env \<Rightarrow> string \<Rightarrow> string \<Rightarrow> (agent, go_error option) prog" where
  "file_WriteString E p t = ext (\<lambda>h. x_writeString E h p t) (EvWriteString p t)"

definition ioutil_ReadDir :: "env \<Rightarrow> string \<Rightarrow> (agent, go_error + string list) prog" where
  "ioutil_ReadDir E p = ext (\<lambda>h. x_readDir E h p) (EvReadDir p)"

definition os_Remove :: "env \<Rightarrow> string \<Rightarrow> (agent, go_error option) prog" where
  "os_Remove E p = ext (\<lambda>h. x_remove E h p) (EvRemove p)"

definition net_Dial :: "env \<Rightarrow> string \<Rightarrow> (agent, go_error option) prog" where
  "net_Dial E addr = ext (\<lambda>h. x_dial E h addr) (EvDial addr)"

definition os_MkdirAll :: "env \<Rightarrow> string \<Rightarrow> (agent, go_error option) prog" where
  "os_MkdirAll E p = ext (\<lambda>h. x_mkdirAll E h p) (EvMkdirAll p)"

definition filepath_EvalSymlinks :: "env \<Rightarrow> string \<Rightarrow> (agent, go_error option) prog" where
  "filepath_EvalSymlinks E p = ext (\<lambda>h. x_evalSymlinks E h p) (EvEvalSymlinks p)"

definition os_Symlink :: "env \<Rightarrow> string \<Rightarrow> string \<Rightarrow> (agent, go_error option) prog" where
  "os_Symlink E old new = ext (\<lambda>h. x_symlink E h old new) (EvSymlink old new)"

definition io_CopyTo :: "env \<Rightarrow> string \<Rightarrow> string \<Rightarrow> (agent, go_error option) prog" where
  "io_CopyTo E p txt = ext (\<lambda>h. x_copyTo E h p txt) (EvCopyTo p txt)"

definition exec_tar :: "env \<Rightarrow> string \<Rightarrow> string \<Rightarrow> (agent, go_error + (go_error option \<times> tar_item list)) prog" where
  "exec_tar E pod path = ext (\<lambda>h. x_execTar E h pod path) (EvExecTar pod path)"

definition filepath_Walk :: "env \<Rightarrow> string \<Rightarrow> (agent, (string \<times> bool) list) prog" where
  "filepath_Walk E p = ext (\<lambda>h. x_walk E h p) (EvWalk p)"

definition list_Pods :: "env \<Rightarrow> string \<Rightarrow> (agent, go_error + k8s_pod list) prog" where
  "list_Pods E sel = ext (\<lambda>h. x_listPods E h sel) (EvListPods sel)"

definition restclient_InClusterConfig :: "env \<Rightarrow> (agent, go_error option) prog" where
  "restclient_InClusterConfig E = ext (x_inClusterConfig E) EvInClusterConfig"

definition kubernetes_NewForConfig :: "env \<Rightarrow> (agent, go_error option) prog" where
  "kubernetes_NewForConfig E = ext (x_newForConfig E) EvNewForConfig"

definition list_Deployments :: "env \<Rightarrow> (agent, go_error + deployment list) prog" where
  "list_Deployments E = ext (x_listDeployments E) EvListDeployments"

definition os_Setenv :: "string \<Rightarrow> string \<Rightarrow> (agent, unit) prog" where
  "os_Setenv k v = ext (\<lambda>_. ()) (EvSetenv k v)"

definition time_Now :: "env \<Rightarrow> (agent, string) prog" where
  "time_Now E = ext (x_now E) EvNow"

definition time_Sleep :: "int \<Rightarrow> (agent, unit) prog" where
  "time_Sleep seconds = ext (\<lambda>_. ()) (EvSleep seconds)"

definition spawn :: "goroutine \<Rightarrow> (agent, unit) prog" where
  "spawn g = ext (\<lambda>_. ()) (EvGo g)"

definition send_request :: "env \<Rightarrow> http_request \<Rightarrow> (agent, outcome) prog" where
  "send_request E req = ext (\<lambda>h. x_send E h req) (EvHttp req)"

lemmas ext_defs = simpleRun_def Exists_def os_Mkdir_def os_CreateTemp_def os_MkdirTemp_def
  os_Create_def os_Open_def os_OpenTrunc_def file_WriteString_def ioutil_ReadDir_def
  os_Remove_def net_Dial_def os_Setenv_def time_Now_def time_Sleep_def spawn_def
  send_request_def os_MkdirAll_def filepath_EvalSymlinks_def os_Symlink_def io_CopyTo_def
  exec_tar_def filepath_Walk_def list_Pods_def restclient_InClusterConfig_def
  kubernetes_NewForConfig_def list_Deployments_def

lemma ext_eval [go_eval]: "ext f ev s = (Ret (f (trace s)), s\<lparr>trace := trace s @ [ev]\<rparr>)"
  by (simp add: ext_def)

lemma go_bind_ext [go_eval]:
  "go_bind (ext f ev) k s = k (f (trace s)) (s\<lparr>trace := trace s @ [ev]\<rparr>)"
  by (simp add: ext_def go_bind_def)

lemma go_seq_ext [go_eval]: "go_seq (ext f ev) n s = n (s\<lparr>trace := trace s @ [ev]\<rparr>)"
  by (simp add: ext_def go_seq_def go_bind_def)

subsection \<open>Jobs and services by key\<close>

definition GetJob :: "agent \<Rightarrow> uint64 \<Rightarrow> nat option" where
  "GetJob s planID = RunJobs s (KeyUint64 planID)"

definition SetJob :: "uint64 \<Rightarrow> nat \<Rightarrow> agent \<Rightarrow> agent" where
  "SetJob planID job s = s\<lparr>RunJobs := (RunJobs s)(KeyUint64 planID \<mapsto> job)\<rparr>"

definition DeleteJob :: "uint64 \<Rightarrow> agent \<Rightarrow> agent" where
  "DeleteJob planID s = s\<lparr>RunJobs := (RunJobs s)(KeyUint64 planID := None)\<rparr>"

definition GetService :: "agent \<Rightarrow> string \<Rightarrow> nat option" where
  "GetService s svcName = Services s (KeyString svcName)"

definition SetService :: "string \<Rightarrow> nat \<Rightarrow> agent \<Rightarrow> agent" where
  "SetService svcName svc s = s\<lparr>Services := (Services s)(KeyString svcName \<mapsto> svc)\<rparr>"

definition DeleteService :: "string \<Rightarrow> agent \<Rightarrow> agent" where
  "DeleteService svcName s = s\<lparr>RunJobs := (RunJobs s)(KeyString svcName := None)\<rparr>"

interpretation job_map: deletable_registry GetJob SetJob DeleteJob
  by unfold_locales (auto simp: GetJob_def SetJob_def DeleteJob_def)

interpretation service_map: registry GetService SetService
  by unfold_locales (auto simp: GetService_def SetService_def)

subsection \<open>Objects behind the pointers\<close>

definition upd_job :: "nat \<Rightarrow> (detection_job \<Rightarrow> detection_job) \<Rightarrow> agent \<Rightarrow> agent" where
  "upd_job r f s = s\<lparr>jobs := (jobs s)(r := f (jobs s r))\<rparr>"

definition upd_svc :: "nat \<Rightarrow> (service \<Rightarrow> service) \<Rightarrow> agent \<Rightarrow> agent" where
  "upd_svc r f s = s\<lparr>svcs := (svcs s)(r := f (svcs s r))\<rparr>"

text \<open>Allocation: \<open>&newJob\<close>, \<open>&newServices\<close>.\<close>

definition new_job :: "detection_job \<Rightarrow> (agent, nat) prog" where
  "new_job j = (\<lambda>s. (Ret (next_ref s),
     s\<lparr>jobs := (jobs s)(next_ref s := j), next_ref := Suc (next_ref s)\<rparr>))"

definition new_svc :: "service \<Rightarrow> (agent, nat) prog" where
  "new_svc v = (\<lambda>s. (Ret (next_ref s),
     s\<lparr>svcs := (svcs s)(next_ref s := v), next_ref := Suc (next_ref s)\<rparr>))"

text \<open>A mutex that is held blocks; unlocking a free one is a fatal error.\<close>

definition lock_dump :: "nat \<Rightarrow> (agent, unit) prog" where
  "lock_dump r = (\<lambda>s. if job_DumpLock (jobs s r) then (Blocked, s)
     else (Ret (), upd_job r (\<lambda>j. j\<lparr>job_DumpLock := True\<rparr>) s))"

definition unlock_dump :: "nat \<Rightarrow> (agent, unit) prog" where
  "unlock_dump r = (\<lambda>s. if job_DumpLock (jobs s r)
     then (Ret (), upd_job r (\<lambda>j. j\<lparr>job_DumpLock := False\<rparr>) s)
     else (Panic ''sync: unlock of unlocked mutex'', s))"

definition lock_load :: "nat \<Rightarrow> (agent, unit) prog" where
  "lock_load r = (\<lambda>s. if svc_LoadLock (svcs s r) then (Blocked, s)
     else (Ret (), upd_svc r (\<lambda>v. v\<lparr>svc_LoadLock := True\<rparr>) s))"

definition unlock_load :: "nat \<Rightarrow> (agent, unit) prog" where
  "unlock_load r = (\<lambda>s. if svc_LoadLock (svcs s r)
     then (Ret (), upd_svc r (\<lambda>v. v\<lparr>svc_LoadLock := False\<rparr>) s)
     else (Panic ''sync: unlock of unlocked mutex'', s))"

definition cancel_job :: "nat \<Rightarrow> (agent, unit) prog" where
  "cancel_job r = go_mod (upd_job r (\<lambda>j. j\<lparr>job_done := True\<rparr>))"

lemma upd_job_fields [simp]:
  "RunJobs (upd_job r f s) = RunJobs s" "Services (upd_job r f s) = Services s"
  "svcs (upd_job r f s) = svcs s" "trace (upd_job r f s) = trace s"
  "next_ref (upd_job r f s) = next_ref s"
  "jobs (upd_job r f s) q = (if q = r then f (jobs s r) else jobs s q)"
  "GetJob (upd_job r f s) p = GetJob s p" "GetService (upd_job r f s) n = GetService s n"
  by (simp_all add: upd_job_def GetJob_def GetService_def)

lemma upd_svc_fields [simp]:
  "RunJobs (upd_svc r f s) = RunJobs s" "Services (upd_svc r f s) = Services s"
  "jobs (upd_svc r f s) = jobs s" "trace (upd_svc r f s) = trace s"
  "next_ref (upd_svc r f s) = next_ref s"
  "svcs (upd_svc r f s) q = (if q = r then f (svcs s r) else svcs s q)"
  "GetJob (upd_svc r f s) p = GetJob s p" "GetService (upd_svc r f s) n = GetService s n"
  by (simp_all add: upd_svc_def GetJob_def GetService_def)

lemma trace_update_fields [simp]:
  "GetJob (s\<lparr>trace := t\<rparr>) p = GetJob s p" "GetService (s\<lparr>trace := t\<rparr>) n = GetService s n"
  by (simp_all add: GetJob_def GetService_def)

lemma set_fields [simp]:
  "jobs (SetJob p r s) = jobs s" "svcs (SetJob p r s) = svcs s" "trace (SetJob p r s) = trace s"
  "Services (SetJob p r s) = Services s" "next_ref (SetJob p r s) = next_ref s"
  "jobs (SetService n r s) = jobs s" "svcs (SetService n r s) = svcs s"
  "trace (SetService n r s) = trace s" "RunJobs (SetService n r s) = RunJobs s"
  "next_ref (SetService n r s) = next_ref s"
  "GetService (SetJob p r s) n = GetService s n" "GetJob (SetService n r s) p = GetJob s p"
  by (simp_all add: SetJob_def SetService_def GetJob_def GetService_def)

lemma SetJob_same: "GetJob s p = Some r \<Longrightarrow> SetJob p r s = s"
  by (simp add: GetJob_def SetJob_def fun_upd_idem)

lemma SetService_same: "GetService s n = Some r \<Longrightarrow> SetService n r s = s"
  by (simp add: GetService_def SetService_def fun_upd_idem)

text \<open>Every service of the map is found under its own name; every job under its own plan.\<close>

definition services_named :: "agent \<Rightarrow> bool" where
  "services_named s \<longleftrightarrow> (\<forall>k r. Services s k = Some r \<longrightarrow> k = KeyString (svc_Name (svcs s r)))"

definition jobs_named :: "agent \<Rightarrow> bool" where
  "jobs_named s \<longleftrightarrow> (\<forall>k r. RunJobs s k = Some r \<longrightarrow> k = KeyUint64 (job_PlanID (jobs s r)))"

subsection \<open>Operations that only talk to the outside\<close>

text \<open>
  \<open>only_talks\<close>: nothing changes but the history, which grows, and the portal address, and
  no reload of jars is started. It holds of every call of the outside, so it holds of what
  is built from them; an operation of this kind commutes with any reading of the maps and
  the objects.
\<close>

definition starts_no_reload :: "event list \<Rightarrow> bool" where
  "starts_no_reload evs \<longleftrightarrow> (\<forall>r. EvGo (GoReloadJar r) \<notin> set evs)"

definition same_objects :: "agent \<Rightarrow> agent \<Rightarrow> bool" where
  "same_objects s t \<longleftrightarrow> RunJobs t = RunJobs s \<and> Services t = Services s \<and> jobs t = jobs s
     \<and> svcs t = svcs s \<and> next_ref t = next_ref s"

definition same_counters :: "agent \<Rightarrow> agent \<Rightarrow> bool" where
  "same_counters s t \<longleftrightarrow> deployListNum t = deployListNum s
     \<and> watchListDeployLoadDoneNum t = watchListDeployLoadDoneNum s \<and> start_lock t = start_lock s"

definition only_talks :: "agent \<Rightarrow> agent \<Rightarrow> bool" where
  "only_talks s t \<longleftrightarrow> (\<exists>evs. trace t = trace s @ evs \<and> starts_no_reload evs)
     \<and> same_objects s t \<and> same_counters s t"

lemmas only_talks_defs = only_talks_def same_objects_def same_counters_def

interpretation talking: frame_rel only_talks
  by unfold_locales (auto simp: only_talks_defs starts_no_reload_def)

lemma only_talks_same:
  "only_talks s t \<Longrightarrow> RunJobs t = RunJobs s \<and> Services t = Services s \<and> jobs t = jobs s
     \<and> svcs t = svcs s \<and> next_ref t = next_ref s"
  by (simp add: only_talks_defs)

lemma ext_talks: "starts_no_reload [ev] \<Longrightarrow> keeps only_talks (ext f ev)"
  by (simp add: keeps_def ext_def only_talks_defs)

lemma ext_ops_talk [frame]:
  "keeps only_talks (simpleRun E name arg)" "keeps only_talks (Exists E path)"
  "keeps only_talks (os_Mkdir E path)" "keeps only_talks (os_CreateTemp E path pat)"
  "keeps only_talks (os_MkdirTemp E pat)" "keeps only_talks (os_Create E path)"
  "keeps only_talks (os_Open E path)" "keeps only_talks (os_OpenTrunc E path)"
  "keeps only_talks (file_WriteString E path txt)" "keeps only_talks (ioutil_ReadDir E path)"
  "keeps only_talks (os_Remove E path)" "keeps only_talks (net_Dial E path)"
  "keeps only_talks (os_Setenv path txt)" "keeps only_talks (time_Now E)"
  "keeps only_talks (time_Sleep n)" "keeps only_talks (spawn (GoScheduling p))"
  "keeps only_talks (send_request E req)" "keeps only_talks (os_MkdirAll E path)"
  "keeps only_talks (filepath_EvalSymlinks E path)" "keeps only_talks (os_Symlink E path txt)"
  "keeps only_talks (io_CopyTo E path txt)" "keeps only_talks (exec_tar E path txt)"
  "keeps only_talks (filepath_Walk E path)" "keeps only_talks (list_Pods E path)"
  "keeps only_talks (restclient_InClusterConfig E)" "keeps only_talks (kubernetes_NewForConfig E)"
  "keeps only_talks (list_Deployments E)" "keeps only_talks (spawn (GoAwaitDelete r))"
  by (simp_all add: ext_defs ext_talks starts_no_reload_def)

lemma ext_ops_nonblocking [frame]:
  "nonblocking (simpleRun E name arg)" "nonblocking (Exists E path)"
  "nonblocking (os_Mkdir E path)" "nonblocking (os_CreateTemp E path pat)"
  "nonblocking (os_MkdirTemp E pat)" "nonblocking (os_Create E path)"
  "nonblocking (os_Open E path)" "nonblocking (os_OpenTrunc E path)"
  "nonblocking (file_WriteString E path txt)" "nonblocking (ioutil_ReadDir E path)"
  "nonblocking (os_Remove E path)" "nonblocking (net_Dial E path)"
  "nonblocking (os_Setenv path txt)" "nonblocking (time_Now E)"
  "nonblocking (time_Sleep n)" "nonblocking (spawn g)"
  "nonblocking (send_request E req)" "nonblocking (os_MkdirAll E path)"
  "nonblocking (filepath_EvalSymlinks E path)" "nonblocking (os_Symlink E path txt)"
  "nonblocking (io_CopyTo E path txt)" "nonblocking (exec_tar E path txt)"
  "nonblocking (filepath_Walk E path)" "nonblocking (list_Pods E path)"
  "nonblocking (restclient_InClusterConfig E)" "nonblocking (kubernetes_NewForConfig E)"
  "nonblocking (list_Deployments E)"
  by (simp_all add: ext_defs nonblocking_def ext_def)

subsection \<open>Retrying\<close>

text \<open>
  What \<open>retry.RetryOnConflict\<close> is documented to do: run the closure, again when it answers
  with a conflict and tries are left, and return its last answer.
\<close>

fun run_tries :: "(go_error \<Rightarrow> bool) \<Rightarrow> nat \<Rightarrow> ('s, go_error option) prog \<Rightarrow> ('s, go_error option) prog" where
  "run_tries is_conflict 0 m = m"
| "run_tries is_conflict (Suc n) m =
     go_bind m (\<lambda>r. case r of None \<Rightarrow> go_ret None
       | Some e \<Rightarrow> if is_conflict e then run_tries is_conflict n m else go_ret (Some e))"

definition retry_documented :: "env \<Rightarrow> bool" where
  "retry_documented E \<longleftrightarrow> (\<exists>is_conflict n. x_retry E = run_tries is_conflict n)"

context frame_rel begin

lemma keeps_tries: "keeps R m \<Longrightarrow> keeps R (run_tries c n m)"
  by (induction n) (auto intro!: keeps_bind keeps_pure keeps_option keeps_if)

end

lemma keeps_retry:
  "frame_rel R \<Longrightarrow> retry_documented E \<Longrightarrow> keeps R m \<Longrightarrow> keeps R (x_retry E m)"
  by (auto simp: retry_documented_def intro: frame_rel.keeps_tries)

lemma nonblocking_retry [frame]:
  assumes "retry_documented E" "nonblocking m" shows "nonblocking (x_retry E m)"
proof -
  have "nonblocking (run_tries c n m)" for c n
    using assms(2) by (induction n) (auto intro!: frame)
  then show ?thesis using assms(1) by (auto simp: retry_documented_def)
qed

text \<open>What \<open>Range\<close> is documented to do on a map that does not change: each key once.\<close>

definition order_documented :: "env \<Rightarrow> bool" where
  "order_documented E \<longleftrightarrow> (\<forall>h m. finite (dom m) \<longrightarrow> range_of m (x_order E h m))"

text \<open>A closure that succeeds, panics or blocks at once is run once.\<close>

lemma retry_once:
  assumes "retry_documented E" "m s = (r, s')" "\<And>e. r \<noteq> Ret (Some e)"
  shows "x_retry E m s = (r, s')"
proof -
  have "run_tries c n m s = (r, s')" for c n
    using assms(2,3) by (cases n; cases r) (auto simp: go_bind_def go_ret_def split: option.split)
  then show ?thesis using assms(1) by (auto simp: retry_documented_def)
qed

subsection \<open>An outside for examples\<close>

text \<open>
  Every file operation and command succeeds, every request is answered by \<open>answer\<close>, and
  every JSON text means \<open>j\<close>. The properties are about all environments; this one only
  serves to show that their hypotheses can hold.
\<close>

definition calm_env :: "outcome \<Rightarrow> json \<Rightarrow> (map_key list) \<Rightarrow> env" where
  "calm_env answer j ks = \<lparr>cfg = \<lparr>CenterHost = ''https://erda'', CenterToken = ''t'', ProjectID = 1,
       ProjectNs = ''ns'', OrgName = ''org'', Workspace = ''TEST''\<rparr>,
     x_run = \<lambda>_ _ _. None, x_stat = \<lambda>_ _. None, x_mkdir = \<lambda>_ _. None,
     x_createTemp = \<lambda>_ d p. Inr (d @ ''/'' @ p), x_mkdirTemp = \<lambda>_ p. Inr ''/tmp/1'',
     x_create = \<lambda>_ _. None, x_open = \<lambda>_ _. None, x_openTrunc = \<lambda>_ _. None,
     x_writeString = \<lambda>_ _ _. None, x_readDir = \<lambda>_ _. Inr [], x_remove = \<lambda>_ _. None,
     x_dial = \<lambda>_ _. None, x_send = \<lambda>_ _. answer, x_now = \<lambda>_. ''20210901000000'',
     x_boundary = \<lambda>_. ''b'', x_url_error = \<lambda>_ _. None, x_json = \<lambda>_. Inr j,
     x_time_ok = \<lambda>_. True, x_show = \<lambda>_. [], x_mkdirAll = \<lambda>_ _. None,
     x_evalSymlinks = \<lambda>_ _. None, x_symlink = \<lambda>_ _ _. None, x_copyTo = \<lambda>_ _ _. None,
     x_execTar = \<lambda>_ _ _. Inr (None, []), x_listPods = \<lambda>_ _. Inr [],
     x_inClusterConfig = \<lambda>_. None, x_newForConfig = \<lambda>_. None, x_listDeployments = \<lambda>_. Inr [],
     x_walk = \<lambda>_ _. [], x_order = \<lambda>_ _. ks, x_shuffle = \<lambda>_ vs. vs, x_header_order =
       \<lambda>m. filter (\<lambda>k. m k \<noteq> None) [''Authorization'', ''Content-Type''], x_retry = \<lambda>m. m\<rparr>"

definition ok_answer :: outcome where
  "ok_answer = (Some \<lparr>status_code = 200, content_type = ''application/json'', body_text = Inr ''{}''\<rparr>, None)"

definition empty_job :: detection_job where
  "empty_job = \<lparr>job_PlanID = 0, job_Status = [], job_JobStatus = [], job_MavenSettings = [],
     job_Includes = [], job_Excludes = [], job_ErrorMsg = [], job_done = False, job_DumpLock = False\<rparr>"

definition empty_service :: service where
  "empty_service = \<lparr>svc_Name = [], svc_Image = [], svc_JarAddrList = [], svc_Pods = [],
     svc_LoadLock = False, svc_ErrorMessage = [], svc_IsDelete = False, svc_done = False\<rparr>"

text \<open>The process at its start.\<close>

definition agent_init :: agent where
  "agent_init = \<lparr>RunJobs = Map.empty, Services = Map.empty, jobs = \<lambda>_. empty_job,
     svcs = \<lambda>_. empty_service, next_ref = 0, inet_addr = [], trace = [],
     deployListNum = 0, watchListDeployLoadDoneNum = 0, poll_detail = None, start_lock = False\<rparr>"

lemma calm_env_retry: "retry_documented (calm_env a j ks)"
  unfolding retry_documented_def
  by (intro exI [of _ "\<lambda>_. False"] exI [of _ 0]) (auto simp: calm_env_def)

lemma calm_env_answers [simp]:
  "x_run (calm_env a j ks) h c args = None" "x_mkdirTemp (calm_env a j ks) h p = Inr ''/tmp/1''"
  "x_readDir (calm_env a j ks) h d = Inr []" "x_dial (calm_env a j ks) h d = None"
  "x_createTemp (calm_env a j ks) h d p = Inr (d @ ''/'' @ p)"
  "x_listPods (calm_env a j ks) h d = Inr []" "x_send (calm_env a j ks) h rq = a"
  "x_json (calm_env a j ks) d = Inr j" "x_order (calm_env a j ks) h mp = ks"
  "x_retry (calm_env a j ks) m = m" "x_stat (calm_env a j ks) h d = None"
  "x_openTrunc (calm_env a j ks) h d = None" "x_writeString (calm_env a j ks) h d p = None"
  by (simp_all add: calm_env_def)

end
