(* ===== verification/Callback.thy ===== *)
theory Callback
  imports AgentState
begin

text \<open>
  \<open>agent/core/addr.go\<close>, the directories of the agent, and \<open>agent/core/callback.go\<close>, its
  conversation with the centre: three notifications (\<open>callbackReady\<close>, \<open>callbackEnd\<close>,
  \<open>callbackReport\<close>), the poll for work (\<open>status\<close>) and the upload of a file.
\<close>

subsection \<open>Directories\<close>

definition GenPlanDumpExecDir :: "uint64 \<Rightarrow> string" where
  "GenPlanDumpExecDir planID = WorkDir @ ''/'' @ dec (unat planID)"

definition GenSvcDumpExecDir :: "uint64 \<Rightarrow> string \<Rightarrow> string" where
  "GenSvcDumpExecDir planID svcName = WorkDir @ ''/'' @ dec (unat planID) @ ''/'' @ svcName"

definition GenSvcJarDir :: "string \<Rightarrow> string" where
  "GenSvcJarDir svcName = WorkDir @ ''/service/'' @ svcName"

definition GenSvcJarImageTempDir :: "env \<Rightarrow> string \<Rightarrow> (agent, go_error + string) prog" where
  "GenSvcJarImageTempDir E svcName = os_MkdirTemp E (svcName @ ''svc-jar-*'')"

definition GenSvcClassDir :: "string \<Rightarrow> string" where
  "GenSvcClassDir svcName = WorkDir @ ''/class/'' @ svcName"

definition GenProjectClassDir :: string where
  "GenProjectClassDir = WorkDir @ ''/class/_project_''"

lemma slash_split:
  "CHR ''/'' \<notin> set a \<Longrightarrow> CHR ''/'' \<notin> set b \<Longrightarrow>
     a @ CHR ''/'' # x = b @ CHR ''/'' # y \<longleftrightarrow> a = b \<and> x = y"
  by (metis append_same_eq takeWhile_neq_append append_Cons same_append_eq list.inject)

lemma prefix_slash_split:
  "CHR ''/'' \<notin> set a \<Longrightarrow> CHR ''/'' \<notin> set b \<Longrightarrow>
     prefix (a @ ''/'') (b @ CHR ''/'' # y) \<longleftrightarrow> a = b"
  by (auto simp: prefix_def slash_split)

text \<open>
  C38. The dumps of different plans and services do not collide: a plan and a service name
  determine the directory of their dumps, and the directory of a plan (which is removed
  as a whole when the plan ends) holds the dumps of its own services only, and never the
  classes of the project.
\<close>

theorem dump_dirs_separate:
  "(GenPlanDumpExecDir p = GenPlanDumpExecDir q \<longleftrightarrow> p = q)
    \<and> (GenSvcDumpExecDir p n = GenSvcDumpExecDir q m \<longleftrightarrow> p = q \<and> n = m)
    \<and> (prefix (GenPlanDumpExecDir p @ ''/'') (GenSvcDumpExecDir q n) \<longleftrightarrow> p = q)
    \<and> \<not> prefix (GenPlanDumpExecDir p @ ''/'') GenProjectClassDir"
proof -
  have nc: "dec (unat p) \<noteq> ''class''" for p :: uint64
  proof
    assume "dec (unat p) = ''class''"
    then have "parse_digits 0 ''class'' = Inr (unat p)"
      using parse_digits_dec [OF unat_uint64, of p] by simp
    then show False by (simp add: digit_val_def)
  qed
  have "prefix (dec (unat p) @ ''/'') (''class'' @ CHR ''/'' # ''_project_'') \<longleftrightarrow> dec (unat p) = ''class''"
    by (rule prefix_slash_split) (simp_all add: dec_no_slash)
  then have "\<not> prefix (GenPlanDumpExecDir p @ ''/'') GenProjectClassDir"
    using nc by (simp add: GenPlanDumpExecDir_def GenProjectClassDir_def WorkDir_def)
  then show ?thesis
    by (simp add: GenPlanDumpExecDir_def GenSvcDumpExecDir_def WorkDir_def dec_uint64_inject
        slash_split [OF dec_no_slash dec_no_slash] prefix_slash_split [OF dec_no_slash dec_no_slash])
qed

subsection \<open>Decoding an answer\<close>

text \<open>
  \<open>json.Unmarshal\<close> into a struct: keys are matched without regard to letter case, a
  missing key or a null leaves the zero value, a value of another kind is an error.
\<close>

definition json_field :: "string \<Rightarrow> json \<Rightarrow> json" where
  "json_field name j =
     (case j of
        JObj kvs \<Rightarrow> (case find (\<lambda>(k, v). EqualFold k name) (rev kvs) of
                       None \<Rightarrow> JNull
                     | Some (k, v) \<Rightarrow> v)
      | _ \<Rightarrow> JNull)"

definition type_error :: "string \<Rightarrow> go_error" where
  "type_error t = ''json: cannot unmarshal into Go value of type '' @ t"

definition is_object :: "json \<Rightarrow> go_error + unit" where
  "is_object j = (case j of JObj _ \<Rightarrow> Inr () | JNull \<Rightarrow> Inr () | _ \<Rightarrow> Inl (type_error ''struct''))"

definition as_str :: "json \<Rightarrow> go_error + string" where
  "as_str j = (case j of JStr s \<Rightarrow> Inr s | JNull \<Rightarrow> Inr [] | _ \<Rightarrow> Inl (type_error ''string''))"

definition as_bool :: "json \<Rightarrow> go_error + bool" where
  "as_bool j = (case j of JBool b \<Rightarrow> Inr b | JNull \<Rightarrow> Inr False | _ \<Rightarrow> Inl (type_error ''bool''))"

definition as_uint64 :: "json \<Rightarrow> go_error + uint64" where
  "as_uint64 j =
     (case j of
        JNum n \<Rightarrow> (if 0 \<le> n \<and> n < 2 ^ 64 then Inr (of_int n) else Inl (type_error ''uint64''))
      | JNull \<Rightarrow> Inr 0
      | _ \<Rightarrow> Inl (type_error ''uint64''))"

definition as_int64 :: "json \<Rightarrow> go_error + int" where
  "as_int64 j =
     (case j of
        JNum n \<Rightarrow> (if - (2 ^ 63) \<le> n \<and> n < 2 ^ 63 then Inr n else Inl (type_error ''int64''))
      | JNull \<Rightarrow> Inr 0
      | _ \<Rightarrow> Inl (type_error ''int64''))"

definition as_time :: "(string \<Rightarrow> bool) \<Rightarrow> json \<Rightarrow> go_error + unit" where
  "as_time time_ok j =
     (case j of
        JStr t \<Rightarrow> (if time_ok t then Inr () else Inl (''parsing time '' @ t))
      | JNull \<Rightarrow> Inr ()
      | _ \<Rightarrow> Inl (type_error ''time.Time''))"

text \<open>The result of one field, then of the rest.\<close>

definition then_decode :: "(go_error + 'a) \<Rightarrow> ('a \<Rightarrow> go_error + 'b) \<Rightarrow> go_error + 'b" where
  "then_decode r k = (case r of Inl e \<Rightarrow> Inl e | Inr a \<Rightarrow> k a)"

text \<open>The embedded \<open>Header\<close>: \<open>success\<close>, and \<open>err\<close> with its code and message.\<close>

definition decode_header :: "json \<Rightarrow> go_error + bool \<times> json" where
  "decode_header j =
     then_decode (as_bool (json_field ''success'' j)) (\<lambda>ok.
     let e = json_field ''err'' j in
     then_decode (is_object e) (\<lambda>_.
     then_decode (as_str (json_field ''code'' e)) (\<lambda>_.
     then_decode (as_str (json_field ''msg'' e)) (\<lambda>_. Inr (ok, e)))))"

text \<open>\<open>CodeCoverageExecRecordDetailResp\<close>; a missing or null \<open>data\<close> is the nil pointer.\<close>

definition decode_detail :: "json \<Rightarrow> go_error + bool \<times> exec_detail option" where
  "decode_detail j =
     then_decode (is_object j) (\<lambda>_.
     then_decode (decode_header j) (\<lambda>(ok, _).
     let d = json_field ''data'' j in
     if d = JNull then Inr (ok, None)
     else
       then_decode (is_object d) (\<lambda>_.
       then_decode (as_uint64 (json_field ''planID'' d)) (\<lambda>plan.
       then_decode (as_uint64 (json_field ''projectID'' d)) (\<lambda>project.
       then_decode (as_str (json_field ''status'' d)) (\<lambda>st.
       then_decode (as_str (json_field ''mavenSetting'' d)) (\<lambda>mvn.
       then_decode (as_str (json_field ''includes'' d)) (\<lambda>incl.
       then_decode (as_str (json_field ''excludes'' d)) (\<lambda>excl.
         Inr (ok, Some \<lparr>d_PlanID = plan, d_ProjectID = project, d_Status = st,
           d_MavenSetting = mvn, d_Includes = incl, d_Excludes = excl\<rparr>))))))))))"

record uploaded_file =
  fl_UUID :: string
  fl_DownloadURL :: string

text \<open>\<open>FileUploadResponse\<close>: of its \<open>File\<close> only the two fields that are read are kept.\<close>

definition decode_upload :: "(string \<Rightarrow> bool) \<Rightarrow> json \<Rightarrow> go_error + (bool \<times> json) \<times> uploaded_file option" where
  "decode_upload time_ok j =
     then_decode (is_object j) (\<lambda>_.
     then_decode (decode_header j) (\<lambda>h.
     let d = json_field ''data'' j in
     if d = JNull then Inr (h, None)
     else
       then_decode (is_object d) (\<lambda>_.
       then_decode (as_uint64 (json_field ''id'' d)) (\<lambda>_.
       then_decode (as_str (json_field ''uuid'' d)) (\<lambda>uuid.
       then_decode (as_str (json_field ''name'' d)) (\<lambda>_.
       then_decode (as_int64 (json_field ''size'' d)) (\<lambda>_.
       then_decode (as_str (json_field ''url'' d)) (\<lambda>url.
       then_decode (as_str (json_field ''type'' d)) (\<lambda>_.
       then_decode (as_str (json_field ''from'' d)) (\<lambda>_.
       then_decode (as_str (json_field ''creator'' d)) (\<lambda>_.
       then_decode (as_time time_ok (json_field ''createdAt'' d)) (\<lambda>_.
       then_decode (as_time time_ok (json_field ''updatedAt'' d)) (\<lambda>_.
       then_decode (as_time time_ok (json_field ''expiredAt'' d)) (\<lambda>_.
         Inr (h, Some \<lparr>fl_UUID = uuid, fl_DownloadURL = url\<rparr>)))))))))))))))"

definition unmarshal :: "env \<Rightarrow> (json \<Rightarrow> go_error + 'a) \<Rightarrow> string \<Rightarrow> go_error + 'a" where
  "unmarshal E dec_struct text = then_decode (x_json E text) dec_struct"

subsection \<open>Uploading a file\<close>

definition upload_request :: "string \<Rightarrow> string \<Rightarrow> string \<Rightarrow> uint64 \<Rightarrow> uint64 \<Rightarrow> string \<Rightarrow> request" where
  "upload_request boundary erdaAddr token planID projectID file =
     MultipartFormDataBody boundary [(''file'', file)]
       (Header ''Authorization'' token
         (Param ''expiredIn'' ''4320h''
           (Param ''fileFrom'' (''jacoco-upload-'' @ dec (unat planID) @ ''-'' @ dec (unat projectID))
             (Path ''/api/files''
               (Post (New [WithCompleteRedirect, WithTimeout (180 * second) (180 * second)]) erdaAddr [])))))"

text \<open>\<open>Do\<close> on the agent's state: the portal address is a package variable.\<close>

definition agent_Do :: "env \<Rightarrow> request \<Rightarrow> (agent, request) prog" where
  "agent_Do E r =
     (\<lambda>s. let (r', a) = Do (x_url_error E) (x_header_order E (r_header r)) (inet_addr s) r
          in (Ret r', s\<lparr>inet_addr := a\<rparr>))"

definition upload_result :: "env \<Rightarrow> response \<Rightarrow> ((bool \<times> json) \<times> uploaded_file option) option \<Rightarrow>
    go_error + uploaded_file option" where
  "upload_result E resp decoded =
     (let ((ok, respError), data) =
        (case decoded of None \<Rightarrow> ((False, JNull), None) | Some v \<Rightarrow> v)
      in if \<not> IsOK resp \<or> \<not> ok
         then Inl (''statusCode: '' @ dec_int (status_code resp) @ '', respError: '' @ x_show E respError)
         else Inr data)"

definition uploadFile :: "env \<Rightarrow> string \<Rightarrow> string \<Rightarrow> uint64 \<Rightarrow> uint64 \<Rightarrow> string \<Rightarrow>
    (agent, go_error + uploaded_file option) prog" where
  "uploadFile E erdaAddr token planID projectID file =
     go_bind (go_get (\<lambda>s. x_boundary E (trace s))) (\<lambda>boundary.
     go_bind (agent_Do E (upload_request boundary erdaAddr token planID projectID file)) (\<lambda>r.
     go_bind (read_JSON (unmarshal E (decode_upload (x_time_ok E)))
                (doRequest (x_url_error E) time_Sleep (send_request E) r)) (\<lambda>answer.
       case answer of
         Inl e \<Rightarrow> go_ret (Inl (error_text e))
       | Inr (resp, decoded) \<Rightarrow> go_ret (upload_result E resp decoded))))"

subsection \<open>Notifications\<close>

text \<open>
  What the three notifications share after their request struct is filled (marshalling a
  struct of strings and a number cannot fail): build, set the headers, send, read.
\<close>

definition auth_headers :: "env \<Rightarrow> header \<Rightarrow> header" where
  "auth_headers E h =
     Header_Set ''USER-ID'' ''2''
       (Header_Set ''Org'' (OrgName (cfg E))
         (Header_Set ''Authorization'' (CenterToken (cfg E)) h))"

definition read_answer :: "outcome \<Rightarrow> (agent, go_error + int \<times> string) prog" where
  "read_answer oc =
     (case snd oc of
        Some e \<Rightarrow> go_ret (Inl (''do client error '' @ error_text e))
      | None \<Rightarrow>
          (case fst oc of
             None \<Rightarrow> go_panic nil_deref
           | Some resp \<Rightarrow>
               (case body_text resp of
                  Inl e \<Rightarrow> go_ret (Inl (''read response body error '' @ e))
                | Inr b \<Rightarrow> go_ret (Inr (status_code resp, b)))))"

definition post_notice :: "env \<Rightarrow> string \<Rightarrow> json \<Rightarrow> (agent, go_error option) prog" where
  "post_notice E path j =
     (case http_NewRequest (x_url_error E) ''POST'' (CenterHost (cfg E) @ path) (JsonBody j) of
        Inl e \<Rightarrow> go_ret (Some (''new request error '' @ e))
      | Inr req \<Rightarrow>
          go_bind (send_request E (req\<lparr>rq_header := auth_headers E
              (Header_Set ''Content-Type'' ''application/json;charset=UTF-8'' (rq_header req))\<rparr>)) (\<lambda>oc.
          go_bind (read_answer oc) (\<lambda>answer.
            case answer of
              Inl e \<Rightarrow> go_ret (Some e)
            | Inr (code, str) \<Rightarrow>
                if code \<noteq> 200 then go_ret (Some (''response status code not 200, body: '' @ str))
                else go_ret None)))"

definition end_json :: "uint64 \<Rightarrow> string \<Rightarrow> string \<Rightarrow> string \<Rightarrow> json" where
  "end_json planID st msg xml =
     JObj [(''ID'', JNum (uint planID)), (''Status'', JStr st), (''Msg'', JStr msg),
           (''reportXmlUUID'', JStr xml)]"

definition callbackEnd :: "env \<Rightarrow> uint64 \<Rightarrow> string \<Rightarrow> string \<Rightarrow> string \<Rightarrow> (agent, go_error option) prog" where
  "callbackEnd E planID msg st reportXmlAddr =
     (let notify = (\<lambda>xml. post_notice E ''/api/code-coverage/actions/end-callBack''
                            (end_json planID st msg xml))
      in if reportXmlAddr = [] then notify []
         else
           go_bind (os_Open E reportXmlAddr) (\<lambda>err.
             case err of
               Some e \<Rightarrow> go_ret (Some (''upload xml error '' @ e))
             | None \<Rightarrow>
                 go_bind (uploadFile E (CenterHost (cfg E)) (CenterToken (cfg E)) planID
                            (ProjectID (cfg E)) reportXmlAddr) (\<lambda>up.
                   case up of
                     Inl e \<Rightarrow> go_ret (Some (''upload xml error '' @ e))
                   | Inr None \<Rightarrow> go_panic nil_deref
                   | Inr (Some fileData) \<Rightarrow> notify (fl_UUID fileData))))"

definition report_json :: "uint64 \<Rightarrow> string \<Rightarrow> string \<Rightarrow> string \<Rightarrow> json" where
  "report_json planID st msg tar =
     JObj [(''ID'', JNum (uint planID)), (''Status'', JStr st), (''Msg'', JStr msg),
           (''reportTarUrl'', JStr tar)]"

definition callbackReport :: "env \<Rightarrow> uint64 \<Rightarrow> string \<Rightarrow> string \<Rightarrow> string \<Rightarrow> (agent, go_error option) prog" where
  "callbackReport E planID st msg reportAddr =
     (let notify = (\<lambda>tar. post_notice E ''/api/code-coverage/actions/report-callBack''
                            (report_json planID st msg tar))
      in if reportAddr = [] then notify []
         else
           go_bind (os_Open E reportAddr) (\<lambda>err.
             case err of
               Some e \<Rightarrow> go_ret (Some (''upload html error '' @ e))
             | None \<Rightarrow>
                 go_bind (uploadFile E (CenterHost (cfg E)) (CenterToken (cfg E)) planID
                            (ProjectID (cfg E)) reportAddr) (\<lambda>up.
                   case up of
                     Inl e \<Rightarrow> go_ret (Some (''upload html error '' @ e))
                   | Inr None \<Rightarrow> go_panic nil_deref
                   | Inr (Some fileData) \<Rightarrow> notify (fl_DownloadURL fileData))))"

definition ready_json :: "uint64 \<Rightarrow> string \<Rightarrow> json" where
  "ready_json planID msg =
     JObj [(''id'', JNum (uint planID)), (''Status'', JStr ReadyStatus), (''Msg'', JStr msg)]"

definition callbackReady :: "env \<Rightarrow> uint64 \<Rightarrow> string \<Rightarrow> (agent, go_error option) prog" where
  "callbackReady E planID msg =
     go_bind (go_get (\<lambda>s. map_option (jobs s) (GetJob s planID))) (\<lambda>job.
       case job of
         None \<Rightarrow> go_ret None
       | Some j \<Rightarrow>
           if job_Status j = ReadyStatus then go_ret None
           else post_notice E ''/api/code-coverage/actions/ready-callBack'' (ready_json planID msg))"

subsection \<open>The poll for work\<close>

definition status :: "env \<Rightarrow> (agent, go_error + exec_detail option) prog" where
  "status E =
     (case http_NewRequest (x_url_error E) ''GET''
             (CenterHost (cfg E) @ ''/api/code-coverage/actions/status?projectID=''
               @ dec (unat (ProjectID (cfg E))) @ ''&workspace='' @ Workspace (cfg E)) NoBody of
        Inl e \<Rightarrow> go_ret (Inl (''new request error '' @ e))
      | Inr req \<Rightarrow>
          go_bind (send_request E (req\<lparr>rq_header := auth_headers E (rq_header req)\<rparr>)) (\<lambda>oc.
          go_bind (read_answer oc) (\<lambda>answer.
            case answer of
              Inl e \<Rightarrow> go_ret (Inl e)
            | Inr (code, str) \<Rightarrow>
                if code \<noteq> 200 then go_ret (Inl (''response status code not 200, body: '' @ str))
                else (case unmarshal E decode_detail str of
                        Inl e \<Rightarrow> go_ret (Inl e)
                      | Inr (ok, detail) \<Rightarrow>
                          if \<not> ok then go_ret (Inl ''response not success'') else go_ret (Inr detail)))))"

subsection \<open>Properties\<close>

lemma agent_Do_talks [frame]: "keeps only_talks (agent_Do E r)"
  by (auto simp: keeps_def agent_Do_def only_talks_defs starts_no_reload_def split: prod.split)

lemma read_answer_talks [frame]: "keeps only_talks (read_answer oc)"
  unfolding read_answer_def by (intro frame)

lemma timeout_loop_talks: "keeps only_talks fn \<Longrightarrow> keeps only_talks (timeout_loop i fn oc)"
  by (induction i fn oc rule: timeout_loop.induct) (auto intro!: frame)

lemma retry_loop_talks:
  "keeps only_talks fn \<Longrightarrow> (\<And>d. keeps only_talks (sleep d)) \<Longrightarrow>
     keeps only_talks (retry_loop i sleep op fn oc)"
proof (induction i sleep op fn oc rule: retry_loop.induct)
  case (2 i sleep op fn oc)
  then show ?case
    by (auto intro!: frame timeout_loop_talks simp: retryIfTimeout_def split: res.split bool.split)
qed (auto intro: frame)

lemma doRequest_talks [frame]: "keeps only_talks (doRequest ue time_Sleep (send_request E) r)"
  unfolding doRequest_def retry_def attempt_once_def
  by (intro frame retry_loop_talks)

lemma read_JSON_talks [frame]: "keeps only_talks m \<Longrightarrow> keeps only_talks (read_JSON u m)"
  unfolding read_JSON_def by (intro frame)

lemma uploadFile_talks [frame]: "keeps only_talks (uploadFile E a t p q f)"
  unfolding uploadFile_def Let_def by (intro frame)

lemma post_notice_talks [frame]: "keeps only_talks (post_notice E path j)"
  unfolding post_notice_def by (intro frame)

lemma callbacks_talk [frame]:
  "keeps only_talks (callbackEnd E p msg st xml)"
  "keeps only_talks (callbackReport E p st msg tar)"
  "keeps only_talks (callbackReady E p msg)"
  "keeps only_talks (status E)"
  unfolding callbackEnd_def callbackReport_def callbackReady_def status_def Let_def
  by (intro frame)+

text \<open>What is sent, and what comes of it.\<close>

definition notice :: "env \<Rightarrow> string \<Rightarrow> json \<Rightarrow> http_request" where
  "notice E path j = \<lparr>rq_method = ''POST'', rq_url = CenterHost (cfg E) @ path,
     rq_header = auth_headers E (Header_Set ''Content-Type'' ''application/json;charset=UTF-8'' Map.empty),
     rq_body = JsonBody j\<rparr>"

definition accepted :: "outcome \<Rightarrow> bool" where
  "accepted oc \<longleftrightarrow> (case oc of
     (Some r, None) \<Rightarrow> status_code r = 200 \<and> (\<exists>b. body_text r = Inr b) | _ \<Rightarrow> False)"

lemma post_notice_eval:
  "x_url_error E ''POST'' (CenterHost (cfg E) @ path) = None \<Longrightarrow>
     trace (snd (post_notice E path j s)) = trace s @ [EvHttp (notice E path j)]
     \<and> (fst (post_notice E path j s) = Ret None \<longleftrightarrow> accepted (x_send E (trace s) (notice E path j)))"
proof -
  assume ok: "x_url_error E ''POST'' (CenterHost (cfg E) @ path) = None"
  obtain resp err where oc: "x_send E (trace s) (notice E path j) = (resp, err)" by fastforce
  have "post_notice E path j s =
      go_bind (read_answer (resp, err)) (\<lambda>answer. case answer of
          Inl e \<Rightarrow> go_ret (Some e)
        | Inr (code, str) \<Rightarrow>
            if code \<noteq> 200 then go_ret (Some (''response status code not 200, body: '' @ str))
            else go_ret None) (s\<lparr>trace := trace s @ [EvHttp (notice E path j)]\<rparr>)"
    using ok oc by (simp add: post_notice_def http_NewRequest_def notice_def send_request_def go_eval)
  then show ?thesis
    using oc
    by (cases err; cases resp)
      (auto simp: read_answer_def accepted_def go_defs split: sum.splits if_splits)
qed

text \<open>
  C37. Telling the centre that a plan has ended, without a report: exactly one POST is
  sent, to the end-callback address, with the plan, the status and the message in the
  body and the agent's credentials in the header; it succeeds exactly when the centre
  answers 200 with a body that can be read; nothing else of the agent changes.
\<close>

theorem callbackEnd_notifies:
  assumes "x_url_error E ''POST'' (CenterHost (cfg E) @ ''/api/code-coverage/actions/end-callBack'') = None"
  shows "let req = notice E ''/api/code-coverage/actions/end-callBack'' (end_json p st msg [])
    in trace (snd (callbackEnd E p msg st [] s)) = trace s @ [EvHttp req]
      \<and> (fst (callbackEnd E p msg st [] s) = Ret None \<longleftrightarrow> accepted (x_send E (trace s) req))
      \<and> Header_Get ''Authorization'' (rq_header req) = CenterToken (cfg E)
      \<and> Header_Get ''Org'' (rq_header req) = OrgName (cfg E)
      \<and> only_talks s (snd (callbackEnd E p msg st [] s))"
proof -
  have keys: "CanonicalHeaderKey ''Authorization'' \<noteq> CanonicalHeaderKey ''Org''"
    "CanonicalHeaderKey ''Authorization'' \<noteq> CanonicalHeaderKey ''USER-ID''"
    "CanonicalHeaderKey ''Org'' \<noteq> CanonicalHeaderKey ''USER-ID''"
    by code_simp+
  have "only_talks s (snd (callbackEnd E p msg st [] s))"
    using callbacks_talk(1) unfolding keeps_def by blast
  then show ?thesis
    using post_notice_eval [OF assms, of "end_json p st msg []" s] keys
    by (simp add: Let_def callbackEnd_def Header_Get_Set auth_headers_def notice_def)
qed

theorem callbackEnd_notifies_witness:
  "fst (callbackEnd (calm_env ok_answer JNull []) 7 ''m'' FailStatus [] agent_init) = Ret None"
proof -
  let ?E = "calm_env ok_answer JNull []"
  have "x_url_error ?E ''POST'' (CenterHost (cfg ?E) @ ''/api/code-coverage/actions/end-callBack'') = None"
    by (simp add: calm_env_def)
  from callbackEnd_notifies [OF this, of 7 FailStatus "''m''" agent_init]
  show ?thesis by (simp add: Let_def accepted_def calm_env_def ok_answer_def)
qed

text \<open>
  A successful answer to an upload that carries no file data crashes the agent:
  \<open>uploadFile\<close> returns the nil pointer with no error, and \<open>callbackEnd\<close> dereferences it.
\<close>

lemma callbackEnd_panics_without_data:
  "fst (callbackEnd (calm_env ok_answer (JObj [(''success'', JBool True)]) [])
     7 ''done'' SuccessStatus ''/tmp/1/_project_xml.tar.gz'' agent_init) = Panic nil_deref"
  by code_simp

end
