(* ===== verification/GoPath.thy ===== *)
theory GoPath
  imports GoStrings
begin

text \<open>
  \<open>path.Clean\<close> and the functions of \<open>filepath\<close> on it that the source calls (Unix), as
  Go documents them: repeated slashes and \<open>.\<close> go, an inner \<open>..\<close> goes with the element
  before it, \<open>..\<close> at the root goes, the empty result is \<open>.\<close>.
\<close>

definition is_rooted :: "string \<Rightarrow> bool" where
  "is_rooted p \<longleftrightarrow> (case p of [] \<Rightarrow> False | c # _ \<Rightarrow> c = CHR ''/'')"

text \<open>The elements of a path, without the empty ones and the dots.\<close>

definition elements :: "string \<Rightarrow> string list" where
  "elements p = filter (\<lambda>w. w \<noteq> [] \<and> w \<noteq> ''.'') (Split p CHR ''/'')"

text \<open>The elements kept so far are in reverse order.\<close>

fun clean_loop :: "bool \<Rightarrow> string list \<Rightarrow> string list \<Rightarrow> string list" where
  "clean_loop rooted kept [] = rev kept"
| "clean_loop rooted kept (w # ws) =
     (if w = ''..'' then
        (case kept of
           [] \<Rightarrow> clean_loop rooted (if rooted then [] else [''..'']) ws
         | k # ks \<Rightarrow> if k = ''..'' then clean_loop rooted (''..'' # kept) ws
                    else clean_loop rooted ks ws)
      else clean_loop rooted (w # kept) ws)"

definition Clean :: "string \<Rightarrow> string" where
  "Clean p =
     (let ws = clean_loop (is_rooted p) [] (elements p)
      in if is_rooted p then CHR ''/'' # Join ws ''/''
         else if ws = [] then ''.'' else Join ws ''/'')"

definition path_Join :: "string list \<Rightarrow> string" where
  "path_Join ps = (let qs = filter (\<lambda>p. p \<noteq> []) ps in if qs = [] then [] else Clean (Join qs ''/''))"

definition path_Dir :: "string \<Rightarrow> string" where
  "path_Dir p = Clean (case LastIndexByte p CHR ''/'' of None \<Rightarrow> [] | Some i \<Rightarrow> take (Suc i) p)"

subsection \<open>What the elements of a cleaned path look like\<close>

definition proper :: "string \<Rightarrow> bool" where
  "proper w \<longleftrightarrow> w \<noteq> [] \<and> w \<noteq> ''.'' \<and> CHR ''/'' \<notin> set w"

lemma elements_proper: "w \<in> set (elements p) \<Longrightarrow> proper w"
  by (auto simp: elements_def proper_def dest: Split_parts_no_sep)

lemma clean_loop_subset: "set (clean_loop r kept ws) \<subseteq> set kept \<union> set ws \<union> {''..''}"
  by (induction r kept ws rule: clean_loop.induct) (auto split: list.splits if_splits)

lemma proper_dotdot: "proper ''..''"
  by (simp add: proper_def)

lemma clean_loop_proper:
  assumes "w \<in> set (clean_loop r [] (elements p))" shows "proper w"
proof -
  have "w \<in> set (elements p) \<or> w = ''..''"
    using assms clean_loop_subset [of r "[]" "elements p"] by auto
  then show ?thesis using elements_proper proper_dotdot by blast
qed

lemma clean_loop_no_dotdot: "''..'' \<notin> set ws \<Longrightarrow> clean_loop r kept ws = rev kept @ ws"
  by (induction ws arbitrary: kept) auto

text \<open>In a path without root, \<open>..\<close> survives at the front only; with a root, nowhere.\<close>

definition is_dots :: "string \<Rightarrow> bool" where
  "is_dots w \<longleftrightarrow> w = ''..''"

fun dots_below :: "string list \<Rightarrow> bool" where
  "dots_below [] = True"
| "dots_below (w # ws) = (if is_dots w then list_all is_dots ws else dots_below ws)"

lemma dots_below_push: "kept = [] \<or> is_dots (hd kept) \<Longrightarrow> dots_below kept \<Longrightarrow> dots_below (w # kept)"
  by (cases kept) auto

lemma clean_loop_Cons:
  "clean_loop rooted kept (w # ws) =
     (if is_dots w then
        (case kept of
           [] \<Rightarrow> clean_loop rooted (if rooted then [] else [w]) ws
         | k # ks \<Rightarrow> if is_dots k then clean_loop rooted (w # kept) ws else clean_loop rooted ks ws)
      else clean_loop rooted (w # kept) ws)"
  by (cases "is_dots w") (simp_all add: is_dots_def split: list.split)

lemma clean_loop_append:
  "clean_loop r kept (us @ ws) = clean_loop r (rev (clean_loop r kept us)) ws"
proof (induction us arbitrary: kept)
  case (Cons u us)
  then show ?case by (cases kept; cases r) (simp_all add: clean_loop_Cons del: clean_loop.simps(2))
qed simp

lemma dots_below_clean:
  "dots_below kept \<Longrightarrow> dots_below (rev (clean_loop False kept ws))"
proof (induction ws arbitrary: kept)
  case (Cons w ws)
  then show ?case
    by (cases kept) (simp_all add: clean_loop_Cons dots_below_push del: clean_loop.simps(2))
qed simp

lemma clean_loop_rooted:
  "\<not> list_ex is_dots kept \<Longrightarrow> \<not> list_ex is_dots (clean_loop True kept ws)"
proof (induction ws arbitrary: kept)
  case (Cons w ws)
  then show ?case by (cases kept) (simp_all add: clean_loop_Cons del: clean_loop.simps(2))
next
  case Nil
  then show ?case by (simp add: list_ex_iff)
qed

lemma Join_Cons: "ws \<noteq> [] \<Longrightarrow> Join (w # ws) sep = w @ sep @ Join ws sep"
  by (cases ws) simp_all

lemma Join_append:
  "us \<noteq> [] \<Longrightarrow> ws \<noteq> [] \<Longrightarrow> Join (us @ ws) sep = Join us sep @ sep @ Join ws sep"
proof (induction us)
  case (Cons u us)
  then show ?case by (cases "us = []") (simp_all add: Join_Cons)
qed simp

lemma Join_eq_Nil:
  assumes "\<forall>w \<in> set ws. w \<noteq> []" shows "Join ws sep = [] \<longleftrightarrow> ws = []"
proof (cases ws)
  case (Cons v vs)
  then show ?thesis using assms by (cases "vs = []") (simp_all add: Join_Cons)
qed simp

text \<open>Reading a path back from its elements.\<close>

lemma Split_app: "Split (p @ CHR ''/'' # q) CHR ''/'' = Split p CHR ''/'' @ Split q CHR ''/''"
proof (induction p)
  case (Cons x p)
  then show ?case by (cases "Split p CHR ''/''") simp_all
qed simp

lemma elements_app: "elements (p @ CHR ''/'' # q) = elements p @ elements q"
  by (simp add: elements_def Split_app)

lemma elements_Nil [simp]: "elements [] = []"
  by (simp add: elements_def)

lemma elements_slash [simp]: "elements (CHR ''/'' # q) = elements q"
  using elements_app [of "[]" q] by simp

lemma elements_Join: "\<forall>w \<in> set ws. proper w \<Longrightarrow> elements (Join ws ''/'') = ws"
  by (cases "ws = []") (simp_all add: elements_def Split_Join proper_def)

lemma Join_not_rooted: "\<forall>w \<in> set ws. proper w \<Longrightarrow> \<not> is_rooted (Join ws ''/'')"
proof (cases ws)
  case (Cons v vs)
  assume "\<forall>w \<in> set ws. proper w"
  then show ?thesis
    using Cons by (cases "vs = []"; cases v) (auto simp: Join_Cons proper_def is_rooted_def)
qed (simp add: is_rooted_def)

definition clean_elements :: "string \<Rightarrow> string list" where
  "clean_elements p = clean_loop (is_rooted p) [] (elements p)"

lemma clean_elements_proper: "\<forall>w \<in> set (clean_elements p). proper w"
  using clean_loop_proper by (auto simp: clean_elements_def)

lemma is_rooted_slash [simp]: "is_rooted (CHR ''/'' # p)"
  by (simp add: is_rooted_def)

lemma is_rooted_Nil [simp]: "\<not> is_rooted []"
  by (simp add: is_rooted_def)

lemma Clean_rooted: "is_rooted p \<Longrightarrow> Clean p = CHR ''/'' # Join (clean_elements p) ''/''"
  by (simp add: Clean_def clean_elements_def Let_def)

lemma Clean_relative:
  "\<not> is_rooted p \<Longrightarrow>
     Clean p = (if clean_elements p = [] then ''.'' else Join (clean_elements p) ''/'')"
  by (simp add: Clean_def clean_elements_def Let_def)

lemma elements_Clean: "elements (Clean p) = clean_elements p"
proof (cases "is_rooted p")
  case False
  then show ?thesis
    by (simp add: Clean_relative elements_Join clean_elements_proper) (simp add: elements_def)
qed (simp add: Clean_rooted elements_Join clean_elements_proper)

lemma is_rooted_Clean [simp]: "is_rooted (Clean p) = is_rooted p"
proof (cases "is_rooted p")
  case False
  then show ?thesis
    using Join_not_rooted [OF clean_elements_proper, of p]
    by (simp add: Clean_relative) (simp add: is_rooted_def)
qed (simp add: Clean_rooted)

text \<open>Joining a tail without \<open>..\<close> to a rooted directory appends its elements to it.\<close>

lemma path_Join_below:
  assumes "is_rooted d" "\<not> list_ex is_dots (elements t)"
  shows "elements (path_Join [d, t]) = clean_elements d @ elements t"
proof (cases "t = []")
  case True
  have "d \<noteq> []" using assms(1) by auto
  then show ?thesis using True by (simp add: path_Join_def elements_Clean)
next
  case False
  have d: "d \<noteq> []" using assms(1) by auto
  have dots: "''..'' \<notin> set (elements t)"
    using assms(2) by (auto simp: list_ex_iff is_dots_def)
  have r: "is_rooted (d @ CHR ''/'' # t)" using assms(1) d by (cases d) (simp_all add: is_rooted_def)
  have "elements (path_Join [d, t]) = clean_elements (d @ CHR ''/'' # t)"
    using False d by (simp add: path_Join_def elements_Clean)
  then show ?thesis
    using r assms(1) dots
    by (simp add: clean_elements_def elements_app clean_loop_append clean_loop_no_dotdot)
qed

end
