(* ===== verification/Untar.thy ===== *)
theory Untar
  imports AgentState GoPath
begin

text \<open>
  Unpacking what \<open>tar\<close> streams out of a pod (\<open>agent/core/watcher.go\<close>, \<open>copyFromPod\<close> to
  \<open>unTarImage\<close>). A tar stream is the list of what its reader yields.
\<close>

definition dotdot_slash :: string where "dotdot_slash = ''../''"
definition tar_corrupted :: go_error where "tar_corrupted = ''tar contents corrupted''"

function strip_loop :: "string \<Rightarrow> string" where
  "strip_loop newPath =
     (let trimmed = TrimPrefix newPath dotdot_slash
      in if trimmed \<noteq> newPath then strip_loop trimmed else newPath)"
  by pat_completeness auto
termination
proof (relation "measure length")
  fix p t assume t: "t = TrimPrefix p dotdot_slash" "t \<noteq> p"
  then have "p \<noteq> []" by (auto simp: TrimPrefix_def)
  then show "(t, p) \<in> measure length"
    using t by (simp add: TrimPrefix_def dotdot_slash_def split: if_splits)
qed simp

declare strip_loop.simps [simp del]

definition stripPathShortcuts :: "string \<Rightarrow> string" where
  "stripPathShortcuts p =
     (let newPath = strip_loop (Clean p);
          newPath = (if newPath = ''.'' \<or> newPath = ''..'' then [] else newPath)
      in case newPath of c # rest \<Rightarrow> if c = CHR ''/'' then rest else newPath | [] \<Rightarrow> newPath)"

definition getPrefix :: "string \<Rightarrow> string" where
  "getPrefix file = TrimLeft file ''/''"

text \<open>One turn of the loop of \<open>unTarAll\<close>, for an entry; \<open>Some err\<close> ends the loop.\<close>

definition unTarEntry :: "env \<Rightarrow> string \<Rightarrow> string \<Rightarrow> tar_entry \<Rightarrow> (agent, go_error option) prog" where
  "unTarEntry E destDir pre header =
     (if \<not> HasPrefix (te_Name header) pre then go_ret (Some tar_corrupted)
      else
        let destFileName = path_Join [destDir, drop (length pre) (te_Name header)];
            baseName = path_Dir destFileName
        in go_bind (os_MkdirAll E baseName) (\<lambda>err.
             if err \<noteq> None then go_ret err
             else if te_isDir header then os_MkdirAll E destFileName
             else go_bind (filepath_EvalSymlinks E baseName) (\<lambda>err.
               if err \<noteq> None then go_ret err
               else if te_isSymlink header then os_Symlink E (te_Linkname header) destFileName
               else go_bind (os_Create E destFileName) (\<lambda>err.
                 if err \<noteq> None then go_ret err
                 else io_CopyTo E destFileName (te_content header)))))"

fun unTarAll :: "env \<Rightarrow> string \<Rightarrow> string \<Rightarrow> tar_item list \<Rightarrow> (agent, go_error option) prog" where
  "unTarAll E destDir pre [] = go_ret None"
| "unTarAll E destDir pre (Inl err # items) = go_ret (Some err)"
| "unTarAll E destDir pre (Inr header # items) =
     go_bind (unTarEntry E destDir pre header) (\<lambda>err.
       if err \<noteq> None then go_ret err else unTarAll E destDir pre items)"

text \<open>
  The goroutine that runs the command signals before it streams, so the error read after
  the wait is one that happened to be there already; a later one only ends the stream.
\<close>

definition copyFromPod :: "env \<Rightarrow> string \<Rightarrow> string \<Rightarrow> string \<Rightarrow> (agent, go_error option) prog" where
  "copyFromPod E podName srcPath destPath =
     go_bind (exec_tar E podName srcPath) (\<lambda>r.
       case r of Inl err \<Rightarrow> go_ret (Some err)
       | Inr stream \<Rightarrow>
           if fst stream \<noteq> None then go_ret (fst stream)
           else unTarAll E destPath (stripPathShortcuts (Clean (getPrefix srcPath))) (snd stream))"

definition unTarLayer :: "env \<Rightarrow> string \<Rightarrow> go_error option \<Rightarrow> string \<Rightarrow> (agent, go_error option) prog" where
  "unTarLayer E unTarDir errInfo layer =
     go_bind (simpleRun E ''tar'' [''-zxf'', unTarDir @ ''/'' @ layer @ ''.tar.gz'', ''-C'', unTarDir])
       (\<lambda>err. go_ret (if err \<noteq> None then err else errInfo))"

definition unTarImage :: "env \<Rightarrow> string \<Rightarrow> string \<Rightarrow> string list \<Rightarrow> (agent, go_error option) prog" where
  "unTarImage E unTarDir rootTar layers =
     go_bind (simpleRun E ''tar'' [''-xf'', rootTar, ''-C'', unTarDir]) (\<lambda>err.
       if err \<noteq> None then go_ret err
       else go_bind (go_fold (unTarLayer E unTarDir) None layers) (\<lambda>errInfo. go_ret None))"

subsection \<open>The prefix that is stripped\<close>

lemma strip_loop_step: "strip_loop (dotdot_slash @ p) = strip_loop p"
  by (subst strip_loop.simps) (simp add: TrimPrefix_def HasPrefix_def dotdot_slash_def Let_def)

lemma strip_loop_stop: "\<not> HasPrefix p dotdot_slash \<Longrightarrow> strip_loop p = p"
  by (subst strip_loop.simps) (simp add: TrimPrefix_def)

lemma HasPrefix_dotdot:
  "CHR ''/'' \<notin> set w \<Longrightarrow> HasPrefix (w @ CHR ''/'' # r) dotdot_slash \<longleftrightarrow> is_dots w"
  by (cases w; cases "tl w"; cases "tl (tl w)")
     (auto simp: dotdot_slash_def HasPrefix_def is_dots_def)

lemma HasPrefix_dotdot_word:
  "CHR ''/'' \<notin> set w \<Longrightarrow> \<not> HasPrefix w dotdot_slash"
  by (cases w; cases "tl w"; cases "tl (tl w)")
     (auto simp: dotdot_slash_def HasPrefix_def)

lemma strip_loop_Join:
  "\<forall>w \<in> set ws. proper w \<Longrightarrow>
     strip_loop (Join ws ''/'') =
       (if ws \<noteq> [] \<and> list_all is_dots ws then ''..'' else Join (dropWhile is_dots ws) ''/'')"
proof (induction ws)
  case Nil
  show ?case by (simp add: strip_loop_stop HasPrefix_dotdot_word)
next
  case (Cons w ws)
  have w: "CHR ''/'' \<notin> set w" using Cons.prems by (simp add: proper_def)
  show ?case
  proof (cases "ws = []")
    case True
    then show ?thesis using w by (simp add: strip_loop_stop HasPrefix_dotdot_word is_dots_def)
  next
    case False
    show ?thesis
    proof (cases "is_dots w")
      case True
      have "Join (w # ws) ''/'' = dotdot_slash @ Join ws ''/''"
        using False True by (simp add: Join_Cons is_dots_def dotdot_slash_def)
      then show ?thesis using Cons True False by (simp add: strip_loop_step)
    next
      case no: False
      then show ?thesis
        using False w by (simp add: strip_loop_stop Join_Cons HasPrefix_dotdot)
    qed
  qed
qed

lemma dropWhile_dots_front:
  "dots_below (rev ws) \<Longrightarrow> \<not> list_ex is_dots (dropWhile is_dots ws)"
proof (induction ws rule: rev_induct)
  case (snoc w ws)
  show ?case
  proof (cases "is_dots w")
    case True
    then have "\<forall>v \<in> set (ws @ [w]). is_dots v" using snoc.prems by (simp add: list_all_iff)
    then have "dropWhile is_dots (ws @ [w]) = []" by (simp only: dropWhile_eq_Nil_conv)
    then show ?thesis by (simp add: list_ex_iff)
  next
    case False
    then show ?thesis using snoc by (simp add: dropWhile_append3)
  qed
qed (simp add: list_ex_iff)

lemma clean_elements_dots: "\<not> list_ex is_dots (dropWhile is_dots (clean_elements p))"
proof (cases "is_rooted p")
  case True
  then have n: "\<not> list_ex is_dots (clean_elements p)"
    using clean_loop_rooted [of "[]" "elements p"] by (simp add: clean_elements_def)
  then have "dropWhile is_dots (clean_elements p) = clean_elements p"
    by (cases "clean_elements p") auto
  with n show ?thesis by simp
next
  case False
  then show ?thesis
    using dropWhile_dots_front dots_below_clean [of "[]"] by (simp add: clean_elements_def)
qed

lemma proper_dropWhile: "\<forall>w \<in> set ws. proper w \<Longrightarrow> \<forall>w \<in> set (dropWhile P ws). proper w"
  by (meson set_dropWhileD)

lemma Join_proper_dot:
  assumes "\<forall>w \<in> set ws. proper w" shows "Join ws ''/'' \<noteq> ''.''"
proof
  assume "Join ws ''/'' = ''.''"
  then have "elements ''.'' = ws" using elements_Join [OF assms] by simp
  then have "ws = []" by (simp add: elements_def)
  then show False using \<open>Join ws ''/'' = ''.''\<close> by simp
qed

lemma Join_proper_dotdot:
  assumes "\<forall>w \<in> set ws. proper w" "Join ws ''/'' = ''..''" shows "ws = [''..'']"
proof -
  have "elements ''..'' = ws" using elements_Join [OF assms(1)] assms(2) by simp
  then show ?thesis by (simp add: elements_def)
qed

lemma stripPathShortcuts_Join:
  "stripPathShortcuts p = Join (dropWhile is_dots (clean_elements p)) ''/''"
proof (cases "is_rooted p")
  case True
  let ?ws = "clean_elements p"
  have C: "Clean p = CHR ''/'' # Join ?ws ''/''" using True by (rule Clean_rooted)
  then have "strip_loop (Clean p) = Clean p"
    using HasPrefix_dotdot [of "[]"] by (intro strip_loop_stop) (simp add: is_dots_def)
  moreover have "dropWhile is_dots ?ws = ?ws"
    using True clean_loop_rooted [of "[]" "elements p"]
    by (cases ?ws) (simp_all add: clean_elements_def)
  ultimately show ?thesis using C by (simp add: stripPathShortcuts_def)
next
  case False
  let ?ws = "clean_elements p" and ?ds = "dropWhile is_dots (clean_elements p)"
  have pw: "\<forall>w \<in> set ?ds. proper w" by (rule proper_dropWhile [OF clean_elements_proper])
  have head: "(case Join ?ds ''/'' of [] \<Rightarrow> Join ?ds ''/'' | c # r \<Rightarrow>
      if c = CHR ''/'' then r else Join ?ds ''/'') = Join ?ds ''/''"
    using Join_not_rooted [OF pw] by (auto simp: is_rooted_def split: list.splits)
  show ?thesis
  proof (cases "list_all is_dots ?ws")
    case True
    then have ds: "?ds = []" by (simp add: list_all_iff dropWhile_eq_Nil_conv)
    have "strip_loop (Clean p) = (if ?ws = [] then ''.'' else ''..'')"
      using False True by (simp add: Clean_relative strip_loop_Join clean_elements_proper
          strip_loop_stop HasPrefix_dotdot_word)
    then show ?thesis unfolding ds stripPathShortcuts_def by simp
  next
    case some: False
    then have "strip_loop (Clean p) = Join ?ds ''/''"
      using False by (auto simp: Clean_relative strip_loop_Join clean_elements_proper)
    moreover have "?ds \<noteq> [''..'']"
      using clean_elements_dots [of p] by (auto simp: is_dots_def)
    ultimately show ?thesis
      using Join_proper_dot [OF pw] Join_proper_dotdot [OF pw] head
      by (auto simp: stripPathShortcuts_def Let_def)
  qed
qed

text \<open>
  C26. Stripping a path: what is left has the elements of the cleaned path without the
  parent directories at its front, in order, joined by slashes; no parent directory is left
  anywhere and it is not absolute.
\<close>

theorem stripPathShortcuts_exact:
  "elements (stripPathShortcuts p) = dropWhile is_dots (clean_elements p)
   \<and> stripPathShortcuts p = Join (elements (stripPathShortcuts p)) ''/''
   \<and> \<not> list_ex is_dots (elements (stripPathShortcuts p))
   \<and> \<not> is_rooted (stripPathShortcuts p)"
  using clean_elements_dots [of p]
  by (simp add: stripPathShortcuts_Join elements_Join Join_not_rooted
      proper_dropWhile [OF clean_elements_proper])

subsection \<open>Where the entries land\<close>

text \<open>
  \<open>lands_below d\<close>: every file created or linked lies below the directory \<open>d\<close>.
\<close>

definition event_below :: "string \<Rightarrow> event \<Rightarrow> bool" where
  "event_below d ev =
     (case ev of EvCreate p \<Rightarrow> prefix (clean_elements d) (elements p)
      | EvSymlink old p \<Rightarrow> prefix (clean_elements d) (elements p)
      | EvCopyTo p txt \<Rightarrow> prefix (clean_elements d) (elements p)
      | _ \<Rightarrow> True)"

definition lands_below :: "string \<Rightarrow> agent \<Rightarrow> agent \<Rightarrow> bool" where
  "lands_below d s t \<longleftrightarrow> (\<exists>evs. trace t = trace s @ evs \<and> list_all (event_below d) evs)"

interpretation landing: frame_rel "lands_below d" for d
proof unfold_locales
  fix s t u assume "lands_below d s t" and "lands_below d t u"
  then show "lands_below d s u"
    unfolding lands_below_def by (metis append.assoc list_all_append)
qed (simp add: lands_below_def)

lemma ext_lands: "event_below d ev \<Longrightarrow> keeps (lands_below d) (ext f ev)"
  by (auto simp: keeps_def ext_def lands_below_def)

text \<open>The entry does not name a parent directory behind the prefix.\<close>

definition tail_ok :: "string \<Rightarrow> tar_item \<Rightarrow> bool" where
  "tail_ok pre item = (case item of Inl _ \<Rightarrow> True
     | Inr h \<Rightarrow> \<not> list_ex is_dots (elements (drop (length pre) (te_Name h))))"

lemma unTarEntry_lands:
  assumes "is_rooted d" "tail_ok pre (Inr h)"
  shows "keeps (lands_below d) (unTarEntry E d pre h)"
proof -
  let ?f = "path_Join [d, drop (length pre) (te_Name h)]"
  have "prefix (clean_elements d) (elements ?f)"
    using path_Join_below [OF assms(1)] assms(2) by (simp add: tail_ok_def)
  then have "event_below d (EvCreate ?f)" "event_below d (EvCopyTo ?f (te_content h))"
    "event_below d (EvSymlink (te_Linkname h) ?f)" "\<And>p. event_below d (EvMkdirAll p)"
    "\<And>p. event_below d (EvEvalSymlinks p)"
    by (simp_all add: event_below_def)
  then show ?thesis
    unfolding unTarEntry_def Let_def ext_defs by (intro frame ext_lands)
qed

lemma unTarAll_lands:
  "is_rooted d \<Longrightarrow> list_all (tail_ok pre) items \<Longrightarrow> keeps (lands_below d) (unTarAll E d pre items)"
proof (induction items)
  case (Cons item items)
  then show ?case by (cases item) (auto intro!: frame unTarEntry_lands)
qed (simp add: frame)



text \<open>What the stream says of itself: the first entry outside the prefix, or the reader's error.\<close>

fun stream_error :: "string \<Rightarrow> tar_item list \<Rightarrow> go_error option" where
  "stream_error pre [] = None"
| "stream_error pre (Inl err # items) = Some err"
| "stream_error pre (Inr h # items) =
     (if HasPrefix (te_Name h) pre then stream_error pre items else Some tar_corrupted)"

lemma unTarEntry_prefix:
  "fst (unTarEntry E d pre h s) = Ret None \<Longrightarrow> HasPrefix (te_Name h) pre"
  by (auto simp: unTarEntry_def go_eval split: if_splits)

lemma unTarAll_Cons_result:
  "unTarAll E d pre (Inr h # items) s = (r, t) \<Longrightarrow> r = Ret None \<Longrightarrow>
     \<exists>u. unTarEntry E d pre h s = (Ret None, u) \<and> unTarAll E d pre items u = (Ret None, t)"
  by (auto simp: go_bind_def go_ret_def split: res.splits prod.splits if_splits)

text \<open>
  C28. Unpacking succeeds only on a stream that is sound from its first to its last entry:
  neither an entry outside the prefix nor an error of the reader is passed over.
\<close>

theorem unTarAll_no_silent_corruption:
  "fst (unTarAll E destDir pre items s) = Ret None \<Longrightarrow> stream_error pre items = None"
proof (induction items arbitrary: s)
  case (Cons item items)
  show ?case
  proof (cases item)
    case (Inl err)
    then show ?thesis using Cons.prems by (simp add: go_ret_def)
  next
    case (Inr h)
    obtain t where "unTarAll E destDir pre (Inr h # items) s = (Ret None, t)"
      using Cons.prems Inr by (metis prod.collapse)
    from unTarAll_Cons_result [OF this refl] obtain u
      where "unTarEntry E destDir pre h s = (Ret None, u)"
        and "unTarAll E destDir pre items u = (Ret None, t)" by blast
    then show ?thesis
      using Inr Cons.IH [of u] unTarEntry_prefix [of E destDir pre h s] by simp
  qed
qed simp

theorem unTarAll_no_silent_corruption_witness:
  "stream_error ''app'' [Inr \<lparr>te_Name = ''app/x.jar'', te_isDir = False, te_isSymlink = False,
                            te_Linkname = [], te_content = ''x''\<rparr>] = None"
  by (rule unTarAll_no_silent_corruption
      [where E = "calm_env ok_answer (JObj []) []" and destDir = "''/app/jar''" and s = agent_init])
     code_simp

subsection \<open>What the unpacking does not check\<close>

text \<open>An entry that names parent directories behind the prefix is written outside.\<close>

lemma unTarAll_escapes:
  "map (\<lambda>ev. case ev of EvCreate p \<Rightarrow> p | _ \<Rightarrow> [])
     (trace (snd (unTarAll (calm_env ok_answer (JObj []) []) ''/app/jar'' ''app''
        [Inr \<lparr>te_Name = ''app/../../etc/x'', te_isDir = False, te_isSymlink = False,
           te_Linkname = [], te_content = ''x''\<rparr>] agent_init)))
   = [[], [], ''/etc/x'', []]"
  by code_simp

text \<open>A stream that ends before its first entry is a success: an error of the command is lost.\<close>

lemma copyFromPod_empty_stream:
  "x_execTar E (trace s) podName srcPath = Inr (None, []) \<Longrightarrow>
     fst (copyFromPod E podName srcPath destPath s) = Ret None"
  by (simp add: copyFromPod_def exec_tar_def go_eval)

text \<open>Layers that fail to unpack do not fail the image.\<close>

lemma unTarLayer_returns: "\<exists>b t. unTarLayer E unTarDir e l u = (Ret b, t)"
  by (simp add: unTarLayer_def simpleRun_def go_eval)

lemma unTarImage_result:
  "fst (unTarImage E dir rootTar layers s) =
     Ret (x_run E (trace s) ''tar'' [''-xf'', rootTar, ''-C'', dir])"
proof (cases "x_run E (trace s) ''tar'' [''-xf'', rootTar, ''-C'', dir]")
  case None
  let ?s = "s\<lparr>trace := trace s @ [EvRun ''tar'' [''-xf'', rootTar, ''-C'', dir]]\<rparr>"
  obtain b t where "go_fold (unTarLayer E dir) None layers ?s = (Ret b, t)"
    using go_fold_returns [of "unTarLayer E dir"] unTarLayer_returns by blast
  then show ?thesis
    unfolding unTarImage_def simpleRun_def go_bind_ext None by (simp add: go_bind_Ret go_ret_eval)
next
  case (Some err)
  then show ?thesis unfolding unTarImage_def simpleRun_def go_bind_ext by (simp add: go_ret_eval)
qed

lemma unTarEntry_talks [frame]: "keeps only_talks (unTarEntry E d pre h)"
  unfolding unTarEntry_def Let_def by (intro frame)

lemma unTarAll_talks [frame]: "keeps only_talks (unTarAll E d pre items)"
proof (induction items)
  case (Cons item items)
  then show ?case by (cases item) (simp_all, (intro frame | assumption)+)
qed (simp add: frame)

lemma copyFromPod_talks [frame]: "keeps only_talks (copyFromPod E podName srcPath destPath)"
  unfolding copyFromPod_def by (intro frame)

lemma unTarImage_talks [frame]: "keeps only_talks (unTarImage E dir rootTar layers)"
  unfolding unTarImage_def unTarLayer_def by (intro frame)

lemma unTarEntry_nonblocking [frame]: "nonblocking (unTarEntry E d pre h)"
  unfolding unTarEntry_def Let_def by (intro frame)

lemma unTarAll_nonblocking [frame]: "nonblocking (unTarAll E d pre items)"
proof (induction items)
  case (Cons item items)
  then show ?case by (cases item) (simp_all, (intro frame | assumption)+)
qed (simp add: frame)

lemma copyFromPod_nonblocking [frame]: "nonblocking (copyFromPod E podName srcPath destPath)"
  unfolding copyFromPod_def by (intro frame)

end
