(* ===== verification/Services.thy ===== *)
theory Services
  imports Callback Untar Machine
begin

text \<open>
  Discovery of the services under test (\<open>agent/core/watcher.go\<close>): deployments become
  \<open>Service\<close> objects, the informer's handlers keep the map \<open>Services\<close>, and the jar files of a
  service are copied out of one of its pods.
\<close>

subsection \<open>From a deployment to a service\<close>

definition jacoco_env :: "string \<times> string \<Rightarrow> bool" where
  "jacoco_env kv \<longleftrightarrow> (fst kv = ''OPEN_JACOCO_AGENT'' \<and> snd kv = ''true'')
     \<or> (fst kv = ''SOURCECOV_ENABLED'' \<and> snd kv = ''true'')"

text \<open>A later container overwrites the image of an earlier one.\<close>

definition deploy_image :: "k8s_container list \<Rightarrow> string" where
  "deploy_image cs = foldl (\<lambda>img c. if list_ex jacoco_env (kc_Env c) then kc_Image c else img) [] cs"

definition index_panic :: string where
  "index_panic = ''index out of range [0] with length 0''"

definition pod_of :: "k8s_pod \<Rightarrow> pod" where
  "pod_of p = \<lparr>pod_Addr = kp_IP p, pod_PodName = kp_Name p, pod_ContainerName = hd (kp_containers p),
               pod_ErrorMsg = [], pod_HasError = False\<rparr>"

definition add_pod :: "pod list \<Rightarrow> k8s_pod \<Rightarrow> (agent, pod list) prog" where
  "add_pod pods p =
     (if kp_containers p = [] then go_panic index_panic else go_ret (pods @ [pod_of p]))"

text \<open>The closure that is retried; \<open>r\<close> is the variable \<open>newServices\<close> it captures.\<close>

definition list_service_pods :: "env \<Rightarrow> nat \<Rightarrow> string \<Rightarrow> (agent, go_error option) prog" where
  "list_service_pods E r name =
     go_bind (list_Pods E (''app='' @ name)) (\<lambda>res.
       case res of Inl err \<Rightarrow> go_ret (Some err)
       | Inr k8sPods \<Rightarrow>
           go_bind (go_fold add_pod [] k8sPods) (\<lambda>pods.
           go_seq (go_mod (upd_svc r (\<lambda>v. v\<lparr>svc_Pods := pods\<rparr>))) (go_ret None)))"

definition getServiceByDeploy :: "env \<Rightarrow> deployment option \<Rightarrow> (agent, nat option) prog" where
  "getServiceByDeploy E deploy =
     (case deploy of None \<Rightarrow> go_ret None
      | Some d \<Rightarrow>
          if deploy_image (dep_Containers d) = [] then go_ret None
          else
            go_bind (new_svc (empty_service\<lparr>svc_Name := dep_app d,
                       svc_Image := deploy_image (dep_Containers d)\<rparr>)) (\<lambda>r.
            go_bind (x_retry E (list_service_pods E r (dep_app d))) (\<lambda>err.
              go_ret (if err \<noteq> None then None else Some r))))"

subsection \<open>The jar files of a service\<close>

definition app_path :: string where "app_path = ''/app''"

definition getServiceJarPackage :: "env \<Rightarrow> nat \<Rightarrow> (agent, go_error + string list) prog" where
  "getServiceJarPackage E r =
     go_bind (go_get (\<lambda>s. svc_Name (svcs s r))) (\<lambda>name.
     go_bind (GenSvcJarImageTempDir E name) (\<lambda>tmp.
       case tmp of Inl err \<Rightarrow> go_ret (Inl err)
       | Inr imageJarTempPath \<Rightarrow>
           go_bind (go_get (\<lambda>s. svc_Pods (svcs s r))) (\<lambda>pods.
             case pods of [] \<Rightarrow> go_panic index_panic
             | p # _ \<Rightarrow>
                 go_bind (copyFromPod E (pod_PodName p) app_path (imageJarTempPath @ app_path)) (\<lambda>err.
                   case err of Some e \<Rightarrow> go_ret (Inl e)
                   | None \<Rightarrow>
                       go_bind (filepath_Walk E (imageJarTempPath @ app_path)) (\<lambda>files.
                         go_ret (Inr (map fst (filter (\<lambda>f. \<not> snd f \<and> HasSuffix (fst f) ''.jar'') files))))))))"

definition jar_error :: "string \<Rightarrow> go_error \<Rightarrow> go_error" where
  "jar_error name err = ''get svc '' @ name @ '' jar package error '' @ err"

definition reload_body :: "env \<Rightarrow> nat \<Rightarrow> (agent, go_error option) prog" where
  "reload_body E r =
     go_bind (getServiceJarPackage E r) (\<lambda>res.
     go_bind (go_get (\<lambda>s. svc_Name (svcs s r))) (\<lambda>name.
     go_bind (go_get (\<lambda>s. GetService s name)) (\<lambda>found.
       case found of None \<Rightarrow> go_ret None
       | Some q \<Rightarrow>
           (case res of
              Inl err \<Rightarrow>
                go_seq (go_mod (upd_svc q (\<lambda>v. v\<lparr>svc_ErrorMessage := jar_error name err\<rparr>)))
                (go_seq (go_mod (SetService name q)) (go_ret (Some err)))
            | Inr jarList \<Rightarrow>
                go_seq (go_mod (upd_svc q (\<lambda>v. v\<lparr>svc_JarAddrList := jarList\<rparr>)))
                (go_seq (go_mod (SetService name q)) (go_ret None))))))"

definition reloadJarAddr :: "env \<Rightarrow> nat \<Rightarrow> (agent, go_error option) prog" where
  "reloadJarAddr E r = go_seq (lock_load r) (go_defer (unlock_load r) (reload_body E r))"

subsection \<open>Keeping the map of services\<close>

definition saveServices :: "env \<Rightarrow> nat option \<Rightarrow> bool \<Rightarrow> (agent, unit) prog" where
  "saveServices E svc sync =
     (case svc of None \<Rightarrow> go_ret ()
      | Some r \<Rightarrow>
          go_bind (go_get (\<lambda>s. svc_Name (svcs s r))) (\<lambda>name.
          go_bind (go_get (\<lambda>s. GetService s name)) (\<lambda>found.
            case found of
              None \<Rightarrow>
                go_seq (go_mod (SetService name r))
                (go_seq (spawn (GoAwaitDelete r))
                  (if \<not> sync then spawn (GoReloadJar r)
                   else go_bind (reloadJarAddr E r) (\<lambda>err. go_ret ())))
            | Some oldSvc \<Rightarrow>
                go_bind (go_get (\<lambda>s. svc_Pods (svcs s r))) (\<lambda>pods.
                go_seq (go_mod (upd_svc oldSvc (\<lambda>v. v\<lparr>svc_Pods := pods\<rparr>)))
                (go_seq (go_mod (SetService name oldSvc))
                (go_bind (go_get (\<lambda>s. svc_Image (svcs s oldSvc))) (\<lambda>oldImage.
                 go_bind (go_get (\<lambda>s. svc_Image (svcs s r))) (\<lambda>image.
                   if oldImage \<noteq> image then
                     go_seq (go_mod (upd_svc oldSvc (\<lambda>v. v\<lparr>svc_Image := image\<rparr>)))
                     (go_seq (go_mod (SetService name oldSvc)) (spawn (GoReloadJar r)))
                   else go_ret ()))))))))"

definition deleteService :: "string \<Rightarrow> (agent, unit) prog" where
  "deleteService name =
     go_bind (go_get (\<lambda>s. GetService s name)) (\<lambda>found.
       case found of None \<Rightarrow> go_ret ()
       | Some r \<Rightarrow>
           go_seq (go_mod (upd_svc r (\<lambda>v. v\<lparr>svc_IsDelete := True\<rparr>)))
           (go_seq (go_mod (upd_svc r (\<lambda>v. v\<lparr>svc_done := True\<rparr>)))
             (go_mod (SetService name r))))"

text \<open>The goroutine \<open>saveServices\<close> starts for a new service: it waits for its cancellation.\<close>

definition awaitDelete :: "nat \<Rightarrow> (agent, unit) prog" where
  "awaitDelete r =
     go_bind (go_get (\<lambda>s. svc_done (svcs s r))) (\<lambda>cancelled.
       if \<not> cancelled then go_block
       else
         go_seq (time_Sleep 600)
         (go_bind (go_get (\<lambda>s. svc_Name (svcs s r))) (\<lambda>name.
          go_bind (go_get (\<lambda>s. GetService s name)) (\<lambda>found.
            case found of None \<Rightarrow> go_ret ()
            | Some q \<Rightarrow>
                go_bind (go_get (\<lambda>s. svc_IsDelete (svcs s q))) (\<lambda>deleted.
                go_bind (go_get (\<lambda>s. svc_Name (svcs s q))) (\<lambda>qname.
                  if deleted then go_mod (DeleteService qname) else go_ret ()))))))"

subsection \<open>The informer\<close>

definition setK8sClientSet :: "env \<Rightarrow> (agent, go_error option) prog" where
  "setK8sClientSet E =
     go_bind (restclient_InClusterConfig E) (\<lambda>err.
       if err \<noteq> None then go_ret err else kubernetes_NewForConfig E)"

text \<open>The handlers; \<open>None\<close> is an object that is not a deployment.\<close>

definition AddFunc :: "env \<Rightarrow> deployment option \<Rightarrow> (agent, unit) prog" where
  "AddFunc E obj =
     (case obj of
        Some deploy \<Rightarrow>
          go_bind (getServiceByDeploy E (Some deploy)) (\<lambda>newServices.
          go_bind (go_get (\<lambda>s. watchListDeployLoadDoneNum s < deployListNum s)) (\<lambda>preloading.
          go_seq (saveServices E newServices preloading)
            (go_mod (\<lambda>s. s\<lparr>watchListDeployLoadDoneNum := Suc (watchListDeployLoadDoneNum s)\<rparr>))))
      | None \<Rightarrow> go_mod (\<lambda>s. s\<lparr>watchListDeployLoadDoneNum := Suc (watchListDeployLoadDoneNum s)\<rparr>))"

definition DeleteFunc :: "deployment option \<Rightarrow> (agent, unit) prog" where
  "DeleteFunc obj = (case obj of Some deploy \<Rightarrow> deleteService (dep_Name deploy) | None \<Rightarrow> go_ret ())"

definition UpdateFunc :: "env \<Rightarrow> deployment option \<Rightarrow> (agent, unit) prog" where
  "UpdateFunc E newObj =
     (case newObj of
        Some deploy \<Rightarrow> go_bind (getServiceByDeploy E (Some deploy)) (\<lambda>newServices.
                         saveServices E newServices False)
      | None \<Rightarrow> go_ret ())"

text \<open>
  \<open>WatchJacocoPod\<close> up to the start of the informer: the lock is taken by the caller, the
  rest runs in a goroutine. The result says whether the informer is started.
\<close>

definition start_watch :: "(agent, unit) prog" where
  "start_watch = (\<lambda>s. if start_lock s then (Blocked, s) else (Ret (), s\<lparr>start_lock := True\<rparr>))"

definition preload :: "env \<Rightarrow> (agent, bool) prog" where
  "preload E =
     go_bind (setK8sClientSet E) (\<lambda>err.
       if err \<noteq> None then go_seq (go_mod (\<lambda>s. s\<lparr>start_lock := False\<rparr>)) (go_ret False)
       else go_bind (list_Deployments E) (\<lambda>res.
         case res of
           Inl err \<Rightarrow> go_seq (go_mod (\<lambda>s. s\<lparr>start_lock := False\<rparr>)) (go_ret False)
         | Inr items \<Rightarrow>
             go_seq (go_fold (\<lambda>u d. go_bind (getServiceByDeploy E (Some d)) (\<lambda>newServices.
                       saveServices E newServices True)) () items)
             (go_seq (go_mod (\<lambda>s. s\<lparr>start_lock := False\<rparr>))
             (go_seq (go_mod (\<lambda>s. s\<lparr>deployListNum := length items\<rparr>)) (go_ret True)))))"

subsection \<open>What every operation on services keeps\<close>

text \<open>
  \<open>services_ok\<close>: a service is found under its own name, and its pointer is allocated.
  \<open>svc_frame\<close>: the jobs do not change; no service leaves the map or gives its place to
  another object; names never change; \<open>services_ok\<close> is kept.
\<close>

definition services_ok :: "agent \<Rightarrow> bool" where
  "services_ok s \<longleftrightarrow> services_named s \<and> (\<forall>k r. Services s k = Some r \<longrightarrow> r < next_ref s)"

definition svc_frame :: "agent \<Rightarrow> agent \<Rightarrow> bool" where
  "svc_frame s t \<longleftrightarrow> jobs t = jobs s \<and> (\<forall>p. GetJob t p = GetJob s p) \<and> RunJobs t \<subseteq>\<^sub>m RunJobs s
     \<and> next_ref s \<le> next_ref t \<and> (\<forall>r < next_ref s. svc_Name (svcs t r) = svc_Name (svcs s r))
     \<and> Services s \<subseteq>\<^sub>m Services t \<and> (services_ok s \<longrightarrow> services_ok t)"

interpretation svc_ops: frame_rel svc_frame
  by unfold_locales (auto simp: svc_frame_def intro: map_le_trans)

lemma talks_svc: "only_talks s t \<Longrightarrow> svc_frame s t"
  by (auto simp: only_talks_defs svc_frame_def services_ok_def services_named_def GetJob_def)

lemma trace_update_frame: "svc_frame s (s\<lparr>trace := evs\<rparr>)"
  by (simp add: svc_frame_def services_ok_def services_named_def GetJob_def)

lemma keeps_talks_svc: "keeps only_talks m \<Longrightarrow> keeps svc_frame m"
  by (simp add: keeps_def talks_svc)

lemma upd_svc_frame:
  "(\<And>v. svc_Name (f v) = svc_Name v) \<Longrightarrow> svc_frame s (upd_svc r f s)"
  by (auto simp: svc_frame_def services_ok_def services_named_def)

lemma SetService_frame_old: "GetService s n = Some r \<Longrightarrow> svc_frame s (SetService n r s)"
  by (simp add: SetService_same svc_ops.R_refl)

lemma SetService_frame_new:
  "GetService s (svc_Name (svcs s r)) = None \<Longrightarrow> r < next_ref s \<Longrightarrow>
     svc_frame s (SetService (svc_Name (svcs s r)) r s)"
  by (auto simp: svc_frame_def services_ok_def services_named_def SetService_def GetService_def
      GetJob_def map_le_def)

lemma new_svc_frame: "keeps svc_frame (new_svc v)"
  by (auto simp: keeps_def new_svc_def svc_frame_def services_ok_def services_named_def GetJob_def)
     (metis less_irrefl less_SucI)+

lemma DeleteService_frame: "svc_frame s (DeleteService n s)"
  by (auto simp: svc_frame_def DeleteService_def GetJob_def services_ok_def services_named_def)

lemma counters_frame:
  fixes s :: agent
  shows "svc_frame s (s\<lparr>watchListDeployLoadDoneNum := n\<rparr>)" "svc_frame s (s\<lparr>deployListNum := n\<rparr>)"
  "svc_frame s (s\<lparr>start_lock := b\<rparr>)"
  by (auto simp: svc_frame_def GetJob_def services_ok_def services_named_def)

lemma lock_load_frame [frame]: "keeps svc_frame (lock_load r)" "keeps svc_frame (unlock_load r)"
  by (auto simp: keeps_def lock_load_def unlock_load_def svc_ops.R_refl intro!: upd_svc_frame)

lemma getServiceJarPackage_talks [frame]: "keeps only_talks (getServiceJarPackage E r)"
  unfolding getServiceJarPackage_def GenSvcJarImageTempDir_def by (intro frame)

lemma reload_body_frame [frame]: "keeps svc_frame (reload_body E r)"
  unfolding reload_body_def
proof (rule svc_ops.keeps_bind [OF keeps_talks_svc [OF getServiceJarPackage_talks]],
       rule keeps_get_bind)
  fix res :: "go_error + string list" and s :: agent
  let ?n = "svc_Name (svcs s r)"
  have "svc_frame s (SetService n q (upd_svc q f s))"
    if "GetService s n = Some q" "\<And>v. svc_Name (f v) = svc_Name v" for n q f
    using that by (intro svc_ops.R_trans [OF upd_svc_frame SetService_frame_old]) auto
  then show "svc_frame s (snd (go_bind (go_get (\<lambda>s. GetService s ?n)) (\<lambda>found.
       case found of None \<Rightarrow> go_ret None
       | Some q \<Rightarrow>
           (case res of
              Inl err \<Rightarrow>
                go_seq (go_mod (upd_svc q (\<lambda>v. v\<lparr>svc_ErrorMessage := jar_error ?n err\<rparr>)))
                (go_seq (go_mod (SetService ?n q)) (go_ret (Some err)))
            | Inr jarList \<Rightarrow>
                go_seq (go_mod (upd_svc q (\<lambda>v. v\<lparr>svc_JarAddrList := jarList\<rparr>)))
                (go_seq (go_mod (SetService ?n q)) (go_ret None)))) s))"
    by (auto simp: go_eval svc_ops.R_refl split: option.split sum.split)
qed

lemma reloadJarAddr_frame [frame]: "keeps svc_frame (reloadJarAddr E r)"
  unfolding reloadJarAddr_def by (intro frame)

lemma spawn_frame [frame]: "keeps svc_frame (spawn g)" "keeps svc_frame (time_Sleep n)"
  by (auto simp: keeps_def spawn_def ext_defs ext_def trace_update_frame)

lemma add_pod_talks [frame]: "keeps only_talks (add_pod pods p)"
  unfolding add_pod_def by (intro frame)

lemma upd_svc_frame_mod: "(\<And>v. svc_Name (f v) = svc_Name v) \<Longrightarrow> keeps svc_frame (go_mod (upd_svc r f))"
  by (simp add: keeps_def go_mod_def upd_svc_frame)

lemma list_service_pods_frame [frame]: "keeps svc_frame (list_service_pods E r name)"
  unfolding list_service_pods_def
  by (intro svc_ops.keeps_bind svc_ops.keeps_sum svc_ops.keeps_seq svc_ops.keeps_pure
      upd_svc_frame_mod keeps_talks_svc frame) simp

lemma getServiceByDeploy_frame:
  assumes "retry_documented E" shows "keeps svc_frame (getServiceByDeploy E deploy)"
  unfolding getServiceByDeploy_def
  by (intro svc_ops.keeps_bind svc_ops.keeps_option svc_ops.keeps_if svc_ops.keeps_pure
      new_svc_frame keeps_retry [OF svc_ops.frame_rel_axioms assms] list_service_pods_frame)

lemma getServiceByDeploy_fresh:
  assumes "retry_documented E" "getServiceByDeploy E deploy s = (Ret (Some r), t)"
  shows "r = next_ref s \<and> r < next_ref t"
proof -
  obtain d where d: "deploy = Some d" and img: "deploy_image (dep_Containers d) \<noteq> []"
    using assms(2) by (auto simp: getServiceByDeploy_def go_eval split: option.splits if_splits)
  let ?v = "empty_service\<lparr>svc_Name := dep_app d, svc_Image := deploy_image (dep_Containers d)\<rparr>"
  let ?s = "snd (new_svc ?v s)"
  have "go_bind (x_retry E (list_service_pods E (next_ref s) (dep_app d)))
      (\<lambda>err. go_ret (if err \<noteq> None then None else Some (next_ref s))) ?s = (Ret (Some r), t)"
    using assms(2) d img by (simp add: getServiceByDeploy_def go_bind_def new_svc_def)
  then obtain a where "x_retry E (list_service_pods E (next_ref s) (dep_app d)) ?s = (Ret a, t)"
    "r = next_ref s"
    by (auto simp: go_bind_def go_ret_def split: res.splits prod.splits if_splits)
  moreover from this(1) have "svc_frame ?s t"
    by (rule keepsD [OF keeps_retry [OF svc_ops.frame_rel_axioms assms(1) list_service_pods_frame]])
  ultimately show ?thesis by (simp add: svc_frame_def new_svc_def)
qed

lemma saveServices_frame:
  assumes "\<And>r. svc = Some r \<Longrightarrow> r < next_ref s"
  shows "svc_frame s (snd (saveServices E svc sync s))"
proof (cases svc)
  case None
  then show ?thesis by (simp add: saveServices_def go_ret_def svc_ops.R_refl)
next
  case (Some r)
  let ?n = "svc_Name (svcs s r)"
  show ?thesis
  proof (cases "GetService s ?n")
    case None
    let ?rest = "go_seq (spawn (GoAwaitDelete r))
        (if \<not> sync then spawn (GoReloadJar r) else go_bind (reloadJarAddr E r) (\<lambda>err. go_ret ()))"
    have "saveServices E svc sync s = ?rest (SetService ?n r s)"
      using Some None by (simp add: saveServices_def go_eval)
    moreover have "keeps svc_frame ?rest" by (intro frame)
    moreover have "svc_frame s (SetService ?n r s)"
      using None Some assms by (intro SetService_frame_new)
    ultimately show ?thesis by (metis keeps_def svc_ops.R_trans)
  next
    case old: (Some q)
    let ?pods = "svc_Pods (svcs s r)"
    let ?s1 = "upd_svc q (\<lambda>v. v\<lparr>svc_Pods := ?pods\<rparr>) s"
    let ?s2 = "upd_svc q (\<lambda>v. v\<lparr>svc_Image := svc_Image (svcs ?s1 r)\<rparr>) ?s1"
    have s1: "svc_frame s ?s1" and s2: "svc_frame ?s1 ?s2" by (auto intro: upd_svc_frame)
    have g: "GetService ?s1 ?n = Some q" "GetService ?s2 ?n = Some q" using old by simp_all
    show ?thesis
    proof (cases "svc_Image (svcs ?s1 q) = svc_Image (svcs ?s1 r)")
      case True
      then have "snd (saveServices E svc sync s) = ?s1"
        using Some old g by (simp add: saveServices_def go_eval SetService_same)
      then show ?thesis using s1 by simp
    next
      case False
      then have "saveServices E svc sync s = spawn (GoReloadJar r) ?s2"
        using Some old g by (simp add: saveServices_def go_eval SetService_same)
      then show ?thesis using s1 s2 spawn_frame(1) by (metis keeps_def svc_ops.R_trans)
    qed
  qed
qed

lemma deploy_then_frame:
  assumes "retry_documented E"
    and "\<And>v t. (\<And>r. v = Some r \<Longrightarrow> r < next_ref t) \<Longrightarrow> svc_frame t (snd (K v t))"
  shows "keeps svc_frame (go_bind (getServiceByDeploy E d) K)"
proof (rule keepsI)
  fix s
  obtain a t where r: "getServiceByDeploy E d s = (a, t)" by fastforce
  have f: "svc_frame s t" by (rule keepsD [OF getServiceByDeploy_frame [OF assms(1)] r])
  show "svc_frame s (snd (go_bind (getServiceByDeploy E d) K s))"
  proof (cases a)
    case (Ret v)
    have "svc_frame t (snd (K v t))"
      using getServiceByDeploy_fresh [OF assms(1)] r Ret by (intro assms(2)) blast
    then show ?thesis using r Ret f by (auto simp: go_bind_def intro: svc_ops.R_trans)
  qed (use r f in \<open>auto simp: go_bind_def\<close>)
qed

lemma deleteService_frame [frame]: "keeps svc_frame (deleteService n)"
proof (rule keepsI)
  fix s
  show "svc_frame s (snd (deleteService n s))"
  proof (cases "GetService s n")
    case (Some r)
    let ?s1 = "upd_svc r (\<lambda>v. v\<lparr>svc_IsDelete := True\<rparr>) s"
    let ?s2 = "upd_svc r (\<lambda>v. v\<lparr>svc_done := True\<rparr>) ?s1"
    have "svc_frame s ?s1" "svc_frame ?s1 ?s2" by (auto intro: upd_svc_frame)
    moreover have "snd (deleteService n s) = ?s2"
      using Some by (simp add: deleteService_def go_eval SetService_same)
    ultimately show ?thesis by (metis svc_ops.R_trans)
  qed (simp add: deleteService_def go_eval svc_ops.R_refl)
qed

lemma awaitDelete_frame [frame]: "keeps svc_frame (awaitDelete r)"
  unfolding awaitDelete_def
  by (intro frame svc_ops.keeps_mod DeleteService_frame)

lemma DeleteFunc_frame [frame]: "keeps svc_frame (DeleteFunc obj)"
  unfolding DeleteFunc_def by (intro frame)

lemma UpdateFunc_frame:
  assumes "retry_documented E" shows "keeps svc_frame (UpdateFunc E obj)"
  unfolding UpdateFunc_def
  by (intro svc_ops.keeps_option svc_ops.keeps_pure deploy_then_frame [OF assms] saveServices_frame)

lemma seq_frame: "svc_frame s (snd (m s)) \<Longrightarrow> keeps svc_frame n \<Longrightarrow> svc_frame s (snd (go_seq m n s))"
  by (cases "m s"; cases "fst (m s)")
     (auto simp: go_seq_def go_bind_def keeps_def intro: svc_ops.R_trans)

lemma AddFunc_frame:
  assumes "retry_documented E" shows "keeps svc_frame (AddFunc E obj)"
  unfolding AddFunc_def
  by (intro svc_ops.keeps_option svc_ops.keeps_mod deploy_then_frame [OF assms] counters_frame)
     (simp add: go_eval seq_frame saveServices_frame svc_ops.keeps_mod counters_frame)

lemma preload_frame:
  assumes "retry_documented E" shows "keeps svc_frame (preload E)"
  unfolding preload_def setK8sClientSet_def
  by (intro svc_ops.keeps_bind svc_ops.keeps_if svc_ops.keeps_sum svc_ops.keeps_seq
      svc_ops.keeps_fold svc_ops.keeps_mod svc_ops.keeps_pure deploy_then_frame [OF assms]
      saveServices_frame counters_frame keeps_talks_svc frame)

lemma start_watch_frame [frame]: "keeps svc_frame start_watch"
  by (auto simp: keeps_def start_watch_def counters_frame svc_ops.R_refl)

subsection \<open>Discovery\<close>

text \<open>
  The image of a service is the image of the last container of its deployment with one
  of the two switches set to true, and empty when there is none.
\<close>

lemma deploy_image_last:
  "deploy_image cs =
     (case filter (\<lambda>c. list_ex jacoco_env (kc_Env c)) cs of [] \<Rightarrow> [] | m # ms \<Rightarrow> kc_Image (last (m # ms)))"
proof (induction cs rule: rev_induct)
  case (snoc c cs)
  then show ?case
    by (simp add: deploy_image_def split: list.splits)
qed (simp add: deploy_image_def)

lemma add_pods:
  "\<forall>p \<in> set ps. kp_containers p \<noteq> [] \<Longrightarrow>
     go_fold add_pod pods ps s =
       (Ret (pods @ map pod_of ps), s)"
proof (induction ps arbitrary: pods)
  case (Cons p ps)
  then show ?case by (simp add: add_pod_def go_eval)
qed (simp add: go_eval)

text \<open>
  C23. A deployment with an instrumented container, when listing its pods succeeds and they
  have containers, becomes a fresh service named after its label app, with the image of its
  last instrumented container and one record per pod, no errors, in the order of the list;
  neither map changes.
\<close>

theorem getServiceByDeploy_spec:
  assumes "retry_documented E"
    and "deploy_image (dep_Containers d) \<noteq> []"
    and "x_listPods E (trace s) (''app='' @ dep_app d) = Inr ps"
    and "\<forall>p \<in> set ps. kp_containers p \<noteq> []"
  shows "let (r, t) = getServiceByDeploy E (Some d) s
         in r = Ret (Some (next_ref s)) \<and> Services t = Services s \<and> RunJobs t = RunJobs s
          \<and> svcs t (next_ref s) = empty_service\<lparr>svc_Name := dep_app d,
              svc_Image := deploy_image (dep_Containers d),
              svc_Pods := map pod_of ps\<rparr>"
proof -
  let ?v = "empty_service\<lparr>svc_Name := dep_app d, svc_Image := deploy_image (dep_Containers d)\<rparr>"
  let ?s = "snd (new_svc ?v s)"
  let ?pods = "map pod_of ps"
  let ?t = "upd_svc (next_ref s) (\<lambda>v. v\<lparr>svc_Pods := ?pods\<rparr>)
              (?s\<lparr>trace := trace ?s @ [EvListPods (''app='' @ dep_app d)]\<rparr>)"
  have tr: "trace ?s = trace s" by (simp add: new_svc_def)
  have "list_service_pods E (next_ref s) (dep_app d) ?s = (Ret None, ?t)"
    using assms(3,4) unfolding list_service_pods_def list_Pods_def go_bind_ext tr
    by (simp add: go_bind_Ret [OF add_pods] go_eval)
  then have "x_retry E (list_service_pods E (next_ref s) (dep_app d)) ?s = (Ret None, ?t)"
    using assms(1) by (intro retry_once) auto
  then have "getServiceByDeploy E (Some d) s = (Ret (Some (next_ref s)), ?t)"
    using assms(2)
    by (simp add: getServiceByDeploy_def go_bind_Ret [where m = "new_svc ?v" and a = "next_ref s" and s' = ?s]
        go_bind_Ret go_eval) (simp add: new_svc_def go_bind_def go_ret_def)
  then show ?thesis by (simp add: new_svc_def)
qed

definition web_deploy :: deployment where
  "web_deploy = \<lparr>dep_Name = ''web-d'', dep_app = ''web'',
     dep_Containers = [\<lparr>kc_Image = ''web:1'', kc_Env = [(''OPEN_JACOCO_AGENT'', ''true'')]\<rparr>]\<rparr>"

theorem getServiceByDeploy_spec_witness:
  "let (r, t) = getServiceByDeploy (calm_env ok_answer (JObj []) []) (Some web_deploy) agent_init
   in r = Ret (Some (next_ref agent_init)) \<and> Services t = Services agent_init
     \<and> RunJobs t = RunJobs agent_init
     \<and> svcs t (next_ref agent_init) = empty_service\<lparr>svc_Name := dep_app web_deploy,
         svc_Image := deploy_image (dep_Containers web_deploy), svc_Pods := map pod_of []\<rparr>"
  by (rule getServiceByDeploy_spec [OF calm_env_retry])
     (simp_all add: web_deploy_def deploy_image_def jacoco_env_def calm_env_def)

text \<open>
  C22. A deployment of a known service: whatever its place in the start-up, its pods and its
  image replace those of the service's object, which stays in the map with its jar list,
  messages and marks; the jars are reloaded, once and in the background, exactly when the
  image changed.
\<close>

theorem saveServices_update:
  assumes "GetService s (svc_Name (svcs s r)) = Some old" "r \<noteq> old"
  shows "let (res, t) = saveServices E (Some r) sync s
         in res = Ret () \<and> Services t = Services s \<and> RunJobs t = RunJobs s \<and> jobs t = jobs s
          \<and> svcs t = (svcs s)(old := (svcs s old)\<lparr>svc_Pods := svc_Pods (svcs s r),
                                                svc_Image := svc_Image (svcs s r)\<rparr>)
          \<and> trace t = trace s @ (if svc_Image (svcs s old) = svc_Image (svcs s r) then []
                                else [EvGo (GoReloadJar r)])"
proof -
  let ?s1 = "upd_svc old (\<lambda>v. v\<lparr>svc_Pods := svc_Pods (svcs s r)\<rparr>) s"
  let ?s2 = "upd_svc old (\<lambda>v. v\<lparr>svc_Image := svc_Image (svcs s r)\<rparr>) ?s1"
  have g: "GetService ?s1 (svc_Name (svcs s r)) = Some old" "GetService ?s2 (svc_Name (svcs s r)) = Some old"
    using assms(1) by simp_all
  show ?thesis
  proof (cases "svc_Image (svcs s old) = svc_Image (svcs s r)")
    case True
    then have "saveServices E (Some r) sync s = (Ret (), ?s1)"
      using assms g by (simp add: saveServices_def go_eval SetService_same)
    moreover have "svcs ?s1 = (svcs s)(old := (svcs s old)\<lparr>svc_Pods := svc_Pods (svcs s r),
                                                svc_Image := svc_Image (svcs s r)\<rparr>)"
      using True by (auto simp: fun_eq_iff)
    ultimately show ?thesis using True by simp
  next
    case False
    then have "saveServices E (Some r) sync s = spawn (GoReloadJar r) ?s2"
      using assms g by (simp add: saveServices_def go_eval SetService_same)
    then show ?thesis using False assms(2) by (auto simp: spawn_def go_eval fun_eq_iff)
  qed
qed

definition two_services :: agent where
  "two_services = agent_init\<lparr>Services := [KeyString ''web'' \<mapsto> 0], next_ref := 2,
     svcs := (\<lambda>_. empty_service)(0 := empty_service\<lparr>svc_Name := ''web'', svc_Image := ''web:1''\<rparr>,
        1 := empty_service\<lparr>svc_Name := ''web'', svc_Image := ''web:2''\<rparr>)\<rparr>"

theorem saveServices_update_witness:
  "let (res, t) = saveServices (calm_env ok_answer (JObj []) []) (Some 1) False two_services
   in res = Ret () \<and> Services t = Services two_services \<and> RunJobs t = RunJobs two_services
     \<and> jobs t = jobs two_services
     \<and> svcs t = (svcs two_services)(0 := (svcs two_services 0)
          \<lparr>svc_Pods := svc_Pods (svcs two_services 1), svc_Image := svc_Image (svcs two_services 1)\<rparr>)
     \<and> trace t = trace two_services
         @ (if svc_Image (svcs two_services 0) = svc_Image (svcs two_services 1) then []
            else [EvGo (GoReloadJar 1)])"
  by (rule saveServices_update) (simp_all add: two_services_def GetService_def)

subsection \<open>Reloading the jar files\<close>

definition same_locks :: "agent \<Rightarrow> agent \<Rightarrow> bool" where
  "same_locks s t \<longleftrightarrow> (\<forall>r. svc_LoadLock (svcs t r) = svc_LoadLock (svcs s r))"

interpretation load_locks: frame_rel same_locks
  by unfold_locales (simp_all add: same_locks_def)

lemma reload_body_locks: "keeps same_locks (reload_body E r)"
proof -
  have "keeps same_locks m" if "keeps only_talks m" for m :: "(agent, 'a) prog"
    using that by (simp add: keeps_def only_talks_defs same_locks_def)
  then show ?thesis unfolding reload_body_def
    by (intro load_locks.keeps_bind load_locks.keeps_seq load_locks.keeps_option
        load_locks.keeps_sum load_locks.keeps_pure load_locks.keeps_mod)
       (auto simp: same_locks_def intro: getServiceJarPackage_talks)
qed

lemma getServiceJarPackage_nonblocking [frame]: "nonblocking (getServiceJarPackage E r)"
  unfolding getServiceJarPackage_def GenSvcJarImageTempDir_def by (intro frame)

lemma reload_body_nonblocking [frame]: "nonblocking (reload_body E r)"
  unfolding reload_body_def by (intro frame)

text \<open>A critical section whose body neither blocks nor touches locks gives the lock back.\<close>

lemma load_section:
  assumes "nonblocking body" "keeps same_locks body" "\<not> svc_LoadLock (svcs s r)"
  shows "fst (go_seq (lock_load r) (go_defer (unlock_load r) body) s) \<noteq> Blocked
       \<and> same_locks s (snd (go_seq (lock_load r) (go_defer (unlock_load r) body) s))"
proof -
  let ?s1 = "upd_svc r (\<lambda>v. v\<lparr>svc_LoadLock := True\<rparr>) s"
  obtain a t where b: "body ?s1 = (a, t)" by fastforce
  have "same_locks ?s1 t" using keepsD [OF assms(2) b] .
  then have "svc_LoadLock (svcs t r)" "same_locks s (upd_svc r (\<lambda>v. v\<lparr>svc_LoadLock := False\<rparr>) t)"
    using assms(3) by (auto simp: same_locks_def split: if_splits)
  moreover have "a \<noteq> Blocked" using assms(1) b by (metis nonblocking_def fst_conv)
  ultimately show ?thesis
    using assms(3) b
    by (cases a) (simp_all add: lock_load_def go_seq_Ret go_defer_def unlock_load_def go_eval)
qed

text \<open>
  Reloading the jars of a service whose lock is free never blocks, and leaves every
  lock as it was, whether it returns, fails or panics.
\<close>

lemma reloadJarAddr_releases:
  assumes "\<not> svc_LoadLock (svcs s r)"
  shows "fst (reloadJarAddr E r s) \<noteq> Blocked
       \<and> (\<forall>q. svc_LoadLock (svcs (snd (reloadJarAddr E r s)) q) = svc_LoadLock (svcs s q))"
  using load_section [OF reload_body_nonblocking reload_body_locks assms]
  by (simp add: reloadJarAddr_def same_locks_def)

definition store_jars :: "string \<Rightarrow> go_error + string list \<Rightarrow> service \<Rightarrow> service" where
  "store_jars name res = (case res of Inl err \<Rightarrow> (\<lambda>v. v\<lparr>svc_ErrorMessage := jar_error name err\<rparr>)
     | Inr jars \<Rightarrow> (\<lambda>v. v\<lparr>svc_JarAddrList := jars\<rparr>))"

text \<open>
  C24. Reloading the jars of a service that is still in the map: the object found under its
  name gets the new list, or, when the copying failed, the error message and keeps its list;
  the error is returned and the lock is free again.
\<close>

theorem reloadJarAddr_spec:
  assumes "\<not> svc_LoadLock (svcs s r)"
    and "getServiceJarPackage E r (upd_svc r (\<lambda>v. v\<lparr>svc_LoadLock := True\<rparr>) s) = (Ret res, t)"
    and "GetService s (svc_Name (svcs s r)) = Some q"
  shows "reloadJarAddr E r s =
     (Ret (case res of Inl err \<Rightarrow> Some err | Inr jars \<Rightarrow> None),
      upd_svc r (\<lambda>v. v\<lparr>svc_LoadLock := False\<rparr>)
        (upd_svc q (store_jars (svc_Name (svcs s r)) res) t))"
proof -
  let ?s1 = "upd_svc r (\<lambda>v. v\<lparr>svc_LoadLock := True\<rparr>) s" and ?n = "svc_Name (svcs s r)"
  have o: "only_talks ?s1 t" by (rule keepsD [OF getServiceJarPackage_talks assms(2)])
  then have n: "svc_Name (svcs t r) = ?n" "svc_LoadLock (svcs t r)" and g: "GetService t ?n = Some q"
    using assms(3) only_talks_same [OF o] by (auto simp: GetService_def)
  let ?u = "upd_svc q (store_jars ?n res) t"
  have "GetService ?u ?n = Some q" using g by simp
  then have "reload_body E r ?s1 = (Ret (case res of Inl err \<Rightarrow> Some err | Inr jars \<Rightarrow> None), ?u)"
    using g n by (cases res)
      (simp_all add: reload_body_def assms(2) go_eval SetService_same store_jars_def)
  moreover have "svc_LoadLock (svcs ?u r)"
    using n by (auto simp: store_jars_def split: sum.split)
  ultimately show ?thesis
    using assms(1) by (simp add: reloadJarAddr_def lock_load_def go_seq_Ret go_defer_def
        unlock_load_def go_eval)
qed

definition web_with_pod :: agent where
  "web_with_pod = agent_init\<lparr>Services := [KeyString ''web'' \<mapsto> 0], next_ref := 1,
     svcs := (\<lambda>_. empty_service)(0 := empty_service\<lparr>svc_Name := ''web'',
       svc_Pods := [\<lparr>pod_Addr = ''10.0.0.1'', pod_PodName = ''web-0'', pod_ContainerName = ''web'',
                    pod_ErrorMsg = [], pod_HasError = False\<rparr>]\<rparr>)\<rparr>"

theorem reloadJarAddr_spec_witness:
  "\<exists>t. reloadJarAddr (calm_env ok_answer (JObj []) []) 0 web_with_pod =
     (Ret None, upd_svc 0 (\<lambda>v. v\<lparr>svc_LoadLock := False\<rparr>)
        (upd_svc 0 (store_jars ''web'' (Inr [])) t))"
proof -
  let ?E = "calm_env ok_answer (JObj []) []"
  let ?s1 = "upd_svc 0 (\<lambda>v. v\<lparr>svc_LoadLock := True\<rparr>) web_with_pod"
  have "fst (getServiceJarPackage ?E 0 ?s1) = Ret (Inr [])" by code_simp
  then have "getServiceJarPackage ?E 0 ?s1 = (Ret (Inr []), snd (getServiceJarPackage ?E 0 ?s1))"
    by (simp add: prod_eq_iff)
  from reloadJarAddr_spec [OF _ this, of 0] show ?thesis
    by (simp add: web_with_pod_def GetService_def empty_service_def) blast
qed

text \<open>Without pods there is nothing to copy from: the slice is indexed all the same.\<close>

lemma reload_panics_without_pods:
  assumes "\<not> svc_LoadLock (svcs s r)" "svc_Pods (svcs s r) = []"
    and "x_mkdirTemp E (trace s) (svc_Name (svcs s r) @ ''svc-jar-*'') = Inr tmp"
  shows "fst (reloadJarAddr E r s) = Panic index_panic"
  using assms by (simp add: reloadJarAddr_def lock_load_def go_seq_Ret go_defer_def reload_body_def
      getServiceJarPackage_def GenSvcJarImageTempDir_def os_MkdirTemp_def go_eval go_bind_def
      go_get_def ext_def go_panic_def go_seq_def unlock_load_def)

subsection \<open>Deleting a service\<close>

text \<open>
  C25. Deleting a service marks it and cancels its context; the goroutine that was to remove
  it ten minutes later runs to its end, and the service is still found under its name,
  marked as deleted: the removal is applied to the map of jobs.
\<close>

theorem deleted_service_stays:
  assumes "services_ok s" "GetService s n = Some r"
  shows "let (x, t) = deleteService n s; (y, u) = awaitDelete r t
         in x = Ret () \<and> y = Ret () \<and> GetService u n = Some r \<and> svc_IsDelete (svcs u r)"
proof -
  let ?t = "upd_svc r (\<lambda>v. v\<lparr>svc_done := True\<rparr>) (upd_svc r (\<lambda>v. v\<lparr>svc_IsDelete := True\<rparr>) s)"
  have n: "svc_Name (svcs s r) = n"
    using assms unfolding services_ok_def services_named_def GetService_def by fastforce
  have "deleteService n s = (Ret (), ?t)"
    using assms(2) by (simp add: deleteService_def go_eval SetService_same)
  moreover have "awaitDelete r ?t =
      (Ret (), DeleteService n (?t\<lparr>trace := trace ?t @ [EvSleep 600]\<rparr>))"
    using assms(2) n by (simp add: awaitDelete_def time_Sleep_def go_eval)
  ultimately show ?thesis using assms(2)
    by (simp add: DeleteService_def GetService_def Let_def)
qed

theorem deleted_service_stays_witness:
  "let (x, t) = deleteService ''web'' web_with_pod; (y, u) = awaitDelete 0 t
   in x = Ret () \<and> y = Ret () \<and> GetService u ''web'' = Some 0 \<and> svc_IsDelete (svcs u 0)"
  by (rule deleted_service_stays)
     (simp_all add: web_with_pod_def services_ok_def services_named_def GetService_def)

end
