(* ===== verification/Dumps.thy ===== *)
theory Dumps
  imports Services "HOL-Library.AList"
begin

text \<open>
  Collecting the execution data (\<open>agent/core/job.go\<close>): \<open>dumpExec\<close> dumps every pod of every
  service, \<open>mergeAllSvcExec\<close> merges the dumps of each service into one file. The goroutines
  of a round of dumps run here one after the other, in the order in which \<open>Range\<close> starts
  them; their interleavings and the group that limits them are in \<open>LimitGroup\<close>.
\<close>

subsection \<open>Merging files\<close>

definition mergeExec :: "env \<Rightarrow> string \<Rightarrow> string list \<Rightarrow> (agent, go_error option) prog" where
  "mergeExec E destFile files =
     simpleRun E ''java'' ([''-jar'', JacocoCliAddr, ''merge''] @ files @ [''--destfile'', destFile])"

subsection \<open>A round of dumps\<close>

type_synonym pod_errors = "(string \<times> string) list"

definition dump_args :: "string \<Rightarrow> string \<Rightarrow> string list" where
  "dump_args addr f = [''-jar'', JacocoCliAddr, ''dump'', ''--address'', addr, ''--destfile'', f,
     ''--port'', ''6300'', ''--reset'']"

definition dial_error :: "string \<Rightarrow> string \<Rightarrow> go_error \<Rightarrow> string" where
  "dial_error name addr err =
     ''svc '' @ name @ '' container '' @ addr @ '' fail to dial error '' @ err"

text \<open>
  The loop over the pods: the files dumped and the errors by address; \<open>None\<close> when the
  goroutine returns from inside the loop (what it had recorded is local to it).
\<close>

fun dump_pods :: "env \<Rightarrow> string \<Rightarrow> nat \<Rightarrow> pod list \<Rightarrow> string list \<Rightarrow> pod_errors \<Rightarrow>
    (agent, (string list \<times> pod_errors) option) prog" where
  "dump_pods E name podIndex [] execs errs = go_ret (Some (execs, errs))"
| "dump_pods E name podIndex (p # ps) execs errs =
     (if pod_HasError p then dump_pods E name (Suc podIndex) ps execs errs
      else
        go_bind (net_Dial E (pod_Addr p @ '':6300'')) (\<lambda>err.
          case err of
            Some e \<Rightarrow> dump_pods E name (Suc podIndex) ps execs
                        (AList.update (pod_Addr p) (dial_error name (pod_Addr p) e) errs)
          | None \<Rightarrow>
              go_bind (os_CreateTemp E [] (''svc_pod_'' @ dec podIndex)) (\<lambda>f.
                case f of
                  Inl e \<Rightarrow> go_ret None
                | Inr file \<Rightarrow>
                    go_bind (simpleRun E ''java'' (dump_args (pod_Addr p) file)) (\<lambda>err.
                      if err \<noteq> None then go_ret None
                      else dump_pods E name (Suc podIndex) ps (execs @ [file]) errs))))"

text \<open>What the errors do to the service's pods; an address without error reads as empty.\<close>

definition mark_pod :: "pod_errors \<Rightarrow> pod \<Rightarrow> pod" where
  "mark_pod errs p =
     (case map_of errs (pod_Addr p) of
        None \<Rightarrow> p
      | Some m \<Rightarrow> if m = [] then p else p\<lparr>pod_ErrorMsg := m, pod_HasError := True\<rparr>)"

definition merge_error :: "go_error option \<Rightarrow> string" where
  "merge_error err = (case err of None \<Rightarrow> [] | Some e \<Rightarrow> ''merge pod exec error '' @ e)"

definition record_dump :: "string \<Rightarrow> pod_errors \<Rightarrow> service \<Rightarrow> service" where
  "record_dump msg errs v = v\<lparr>svc_ErrorMessage := svc_ErrorMessage v @ msg,
                              svc_Pods := map (mark_pod errs) (svc_Pods v)\<rparr>"

definition finish_dump :: "env \<Rightarrow> string \<Rightarrow> string \<Rightarrow> string \<Rightarrow> (string list \<times> pod_errors) option \<Rightarrow>
    (agent, unit) prog" where
  "finish_dump E key name svcExec found =
     (case found of
        None \<Rightarrow> go_ret ()
      | Some dumped \<Rightarrow>
          go_bind (mergeExec E svcExec (fst dumped)) (\<lambda>err.
          go_bind (go_get (\<lambda>s. GetService s key)) (\<lambda>now.
            case now of
              None \<Rightarrow> go_ret ()
            | Some q \<Rightarrow>
                go_bind (go_get (\<lambda>s. svc_IsDelete (svcs s q))) (\<lambda>gone.
                  if gone then go_ret ()
                  else go_seq (go_mod (upd_svc q (record_dump (merge_error err) (snd dumped))))
                         (go_mod (SetService name q))))))"

text \<open>The body of the goroutine of one service.\<close>

definition dump_temp :: "string \<Rightarrow> string" where
  "dump_temp name = ''svc_'' @ name @ ''_*.exec''"

definition dump_service :: "env \<Rightarrow> uint64 \<Rightarrow> string \<Rightarrow> (agent, unit) prog" where
  "dump_service E planID key =
     go_bind (go_get (\<lambda>s. GetService s key)) (\<lambda>found.
       case found of
         None \<Rightarrow> go_ret ()
       | Some r \<Rightarrow>
           go_bind (go_get (\<lambda>s. svcs s r)) (\<lambda>svc.
             if svc_IsDelete svc then go_ret ()
             else
               let name = svc_Name svc; dir = GenSvcDumpExecDir planID name in
               go_bind (Exists E dir) (\<lambda>there.
               go_bind (if there then go_ret None else simpleRun E ''mkdir'' [''-p'', dir]) (\<lambda>err.
                 if err \<noteq> None then go_ret ()
                 else
                   go_bind (os_CreateTemp E dir (dump_temp name)) (\<lambda>f.
                     case f of
                       Inl e \<Rightarrow> go_ret ()
                     | Inr svcExec \<Rightarrow>
                         go_bind (dump_pods E name 0 (svc_Pods svc) [] [])
                           (finish_dump E key name svcExec))))))"

definition key_panic :: string where
  "key_panic = ''interface conversion: interface {} is uint64, not string''"

text \<open>One visit of \<open>Range\<close>; the result says whether the callback asked to stop.\<close>

definition dump_visit :: "env \<Rightarrow> uint64 \<Rightarrow> nat \<Rightarrow> bool \<Rightarrow> map_key \<Rightarrow> (agent, bool) prog" where
  "dump_visit E planID job stopped key =
     (if stopped then go_ret True
      else go_bind (go_get (\<lambda>s. job_done (jobs s job))) (\<lambda>cancelled.
        if cancelled then go_ret True
        else case key of
               KeyString name \<Rightarrow> go_seq (dump_service E planID name) (go_ret False)
             | KeyUint64 n \<Rightarrow> go_panic key_panic))"

definition dump_round :: "env \<Rightarrow> uint64 \<Rightarrow> nat \<Rightarrow> (agent, unit) prog" where
  "dump_round E planID job =
     go_bind (go_get (\<lambda>s. x_order E (trace s) (Services s))) (\<lambda>keys.
     go_seq (go_fold (dump_visit E planID job) False keys) (go_ret ()))"

definition dumpExec :: "env \<Rightarrow> uint64 \<Rightarrow> (agent, unit) prog" where
  "dumpExec E planID =
     go_bind (go_get (\<lambda>s. GetJob s planID)) (\<lambda>found.
       case found of
         None \<Rightarrow> go_ret ()
       | Some job \<Rightarrow> go_seq (lock_dump job) (go_defer (unlock_dump job) (dump_round E planID job)))"

subsection \<open>Merging the dumps of each service\<close>

definition exec_files :: "uint64 \<Rightarrow> string \<Rightarrow> string list \<Rightarrow> string list" where
  "exec_files planID name files =
     map (\<lambda>f. GenSvcDumpExecDir planID name @ ''/'' @ f) (filter (\<lambda>f. HasSuffix f ''.exec'') files)"

text \<open>A failed merge: \<open>True\<close> when the visit goes on with the service all the same.\<close>

definition note_merge_error :: "string \<Rightarrow> go_error \<Rightarrow> (agent, bool) prog" where
  "note_merge_error name err =
     go_bind (go_get (\<lambda>s. GetService s name)) (\<lambda>now.
       case now of
         None \<Rightarrow> go_ret False
       | Some q \<Rightarrow>
           go_bind (go_get (\<lambda>s. svc_IsDelete (svcs s q))) (\<lambda>gone.
             if gone then go_ret False
             else go_seq (go_mod (upd_svc q (\<lambda>v. v\<lparr>svc_ErrorMessage :=
                            svc_ErrorMessage v @ merge_error (Some err)\<rparr>)))
                    (go_seq (go_mod (SetService name q)) (go_ret True))))"

definition merge_service :: "env \<Rightarrow> uint64 \<Rightarrow> string \<Rightarrow> (string \<times> string) list \<Rightarrow>
    (agent, (string \<times> string) list) prog" where
  "merge_service E planID key merged =
     go_bind (go_get (\<lambda>s. GetService s key)) (\<lambda>found.
       case found of
         None \<Rightarrow> go_ret merged
       | Some r \<Rightarrow>
           go_bind (go_get (\<lambda>s. svcs s r)) (\<lambda>svc.
             if svc_IsDelete svc then go_ret merged
             else
               let name = svc_Name svc; dir = GenSvcDumpExecDir planID name in
               go_bind (ioutil_ReadDir E dir) (\<lambda>files.
                 case files of
                   Inl e \<Rightarrow> go_ret merged
                 | Inr fs \<Rightarrow>
                     go_bind (os_CreateTemp E dir (dump_temp name)) (\<lambda>f.
                       case f of
                         Inl e \<Rightarrow> go_ret merged
                       | Inr svcExec \<Rightarrow>
                           go_bind (mergeExec E svcExec (exec_files planID name fs)) (\<lambda>err.
                           go_bind (case err of None \<Rightarrow> go_ret True | Some e \<Rightarrow> note_merge_error name e)
                             (\<lambda>go_on.
                               if \<not> go_on then go_ret merged
                               else go_seq (go_fold (\<lambda>u f. go_seq (os_Remove E f) (go_ret ())) ()
                                              (exec_files planID name fs))
                                      (go_ret (AList.update name svcExec merged))))))))"

definition merge_visit :: "env \<Rightarrow> uint64 \<Rightarrow> nat \<Rightarrow> bool \<times> (string \<times> string) list \<Rightarrow> map_key \<Rightarrow>
    (agent, bool \<times> (string \<times> string) list) prog" where
  "merge_visit E planID job acc key =
     (if fst acc then go_ret acc
      else go_bind (go_get (\<lambda>s. job_done (jobs s job))) (\<lambda>cancelled.
        if cancelled then go_ret (True, snd acc)
        else case key of
               KeyString name \<Rightarrow> go_bind (merge_service E planID name (snd acc)) (\<lambda>m. go_ret (False, m))
             | KeyUint64 n \<Rightarrow> go_panic key_panic))"

definition merge_round :: "env \<Rightarrow> uint64 \<Rightarrow> nat \<Rightarrow> (agent, (string \<times> string) list) prog" where
  "merge_round E planID job =
     go_bind (go_get (\<lambda>s. x_order E (trace s) (Services s))) (\<lambda>keys.
     go_bind (go_fold (merge_visit E planID job) (False, []) keys) (\<lambda>acc. go_ret (snd acc)))"

definition mergeAllSvcExec :: "env \<Rightarrow> uint64 \<Rightarrow> (agent, (string \<times> string) list) prog" where
  "mergeAllSvcExec E planID =
     go_bind (go_get (\<lambda>s. GetJob s planID)) (\<lambda>found.
       case found of
         None \<Rightarrow> go_ret []
       | Some job \<Rightarrow> go_seq (lock_dump job) (go_defer (unlock_dump job) (merge_round E planID job)))"

subsection \<open>What a round keeps\<close>

text \<open>The services' side of the invariant is needed to know that a name is its own key.\<close>

definition ok_frame :: "agent \<Rightarrow> agent \<Rightarrow> bool" where
  "ok_frame s t \<longleftrightarrow> services_ok s \<longrightarrow> svc_frame s t"

interpretation ok_ops: frame_rel ok_frame
  by unfold_locales (auto simp: ok_frame_def svc_ops.R_refl svc_frame_def intro: map_le_trans)

lemma keeps_svc_ok: "keeps svc_frame m \<Longrightarrow> keeps ok_frame m"
  by (simp add: keeps_def ok_frame_def)

lemma services_ok_name: "services_ok s \<Longrightarrow> GetService s key = Some r \<Longrightarrow> svc_Name (svcs s r) = key"
  unfolding services_ok_def services_named_def GetService_def by fastforce

lemma mergeExec_talks [frame]: "keeps only_talks (mergeExec E d fs)" "nonblocking (mergeExec E d fs)"
  unfolding mergeExec_def by (intro frame)+

lemma dump_pods_talks [frame]: "keeps only_talks (dump_pods E name i pods execs errs)"
proof (induction pods arbitrary: i execs errs)
  case (Cons p ps)
  show ?case
    by (simp only: dump_pods.simps)
       (intro talking.keeps_if talking.keeps_bind talking.keeps_option talking.keeps_sum
         talking.keeps_pure ext_ops_talk Cons)
qed (simp add: frame)

lemma dump_pods_nonblocking [frame]: "nonblocking (dump_pods E name i pods execs errs)"
proof (induction pods arbitrary: i execs errs)
  case (Cons p ps)
  show ?case
    by (simp only: dump_pods.simps)
       (intro nonblocking_cases nonblocking_bind nonblocking_pure ext_ops_nonblocking Cons)
qed (simp add: frame)

text \<open>The end of an update: the object under \<open>key\<close> is changed and put back.\<close>

lemma update_found_frame:
  "(\<And>v. svc_Name (f v) = svc_Name v) \<Longrightarrow>
     keeps svc_frame (go_bind (go_get (\<lambda>s. GetService s key)) (\<lambda>now.
       case now of None \<Rightarrow> go_ret a
       | Some q \<Rightarrow> go_bind (go_get (\<lambda>s. svc_IsDelete (svcs s q))) (\<lambda>gone.
           if gone then go_ret a
           else go_seq (go_mod (upd_svc q f)) (go_seq (go_mod (SetService key q)) (go_ret b)))))"
  by (rule keeps_get_bind) (auto simp: go_eval SetService_same svc_ops.R_refl upd_svc_frame
      split: option.split)

lemma go_mod_seq_ret: "go_mod f = go_seq (go_mod f) (go_ret ())"
  by (simp add: go_defs fun_eq_iff)

lemma finish_dump_frame [frame]: "keeps svc_frame (finish_dump E key key svcExec found)"
  unfolding finish_dump_def
  by (subst (2) go_mod_seq_ret)
     (intro svc_ops.keeps_option svc_ops.keeps_bind svc_ops.keeps_pure update_found_frame
       keeps_talks_svc mergeExec_talks, simp add: record_dump_def)

lemma note_merge_error_frame [frame]: "keeps svc_frame (note_merge_error name err)"
  unfolding note_merge_error_def by (rule update_found_frame) simp

lemma keeps_visit_key:
  "(\<And>n. keeps R (f n)) \<Longrightarrow> (\<And>n. keeps R (g n)) \<Longrightarrow>
     keeps R (case key of KeyString n \<Rightarrow> f n | KeyUint64 n \<Rightarrow> g n)"
  by (cases key) auto

lemma dump_service_frame: "keeps ok_frame (dump_service E planID key)"
proof (rule keepsI)
  fix s
  show "ok_frame s (snd (dump_service E planID key s))"
  proof (cases "GetService s key")
    case None
    then show ?thesis by (simp add: dump_service_def go_eval ok_ops.R_refl)
  next
    case (Some r)
    have "svc_frame s (snd (dump_service E planID key s))" if "services_ok s"
    proof (cases "svc_IsDelete (svcs s r)")
      case True
      then show ?thesis using Some by (simp add: dump_service_def go_eval svc_ops.R_refl)
    next
      case False
      let ?dir = "GenSvcDumpExecDir planID key"
      let ?rest = "go_bind (Exists E ?dir) (\<lambda>there.
         go_bind (if there then go_ret None else simpleRun E ''mkdir'' [''-p'', ?dir]) (\<lambda>err.
           if err \<noteq> None then go_ret ()
           else go_bind (os_CreateTemp E ?dir (dump_temp key)) (\<lambda>f.
             case f of Inl e \<Rightarrow> go_ret ()
             | Inr svcExec \<Rightarrow> go_bind (dump_pods E key 0 (svc_Pods (svcs s r)) [] [])
                 (finish_dump E key key svcExec))))"
      have "dump_service E planID key s = ?rest s"
        using Some False services_ok_name [OF that Some] by (simp add: dump_service_def go_eval Let_def)
      moreover have "keeps svc_frame ?rest"
        by (intro svc_ops.keeps_bind svc_ops.keeps_if svc_ops.keeps_sum svc_ops.keeps_pure
            keeps_talks_svc dump_pods_talks ext_ops_talk finish_dump_frame)
      ultimately show ?thesis by (simp add: keeps_def)
    qed
    then show ?thesis by (simp add: ok_frame_def)
  qed
qed

lemma dump_round_frame: "keeps ok_frame (dump_round E planID job)"
  unfolding dump_round_def dump_visit_def
  by (intro ok_ops.keeps_bind ok_ops.keeps_seq ok_ops.keeps_fold ok_ops.keeps_if ok_ops.keeps_pure
      keeps_visit_key dump_service_frame)

lemma merge_service_frame: "keeps ok_frame (merge_service E planID key merged)"
proof -
  have "keeps svc_frame (merge_service E planID key merged)"
    unfolding merge_service_def Let_def
    by (intro svc_ops.keeps_option svc_ops.keeps_bind svc_ops.keeps_if svc_ops.keeps_sum
        svc_ops.keeps_pure svc_ops.keeps_seq svc_ops.keeps_fold note_merge_error_frame
        keeps_talks_svc mergeExec_talks ext_ops_talk)
  then show ?thesis by (rule keeps_svc_ok)
qed

lemma merge_round_frame: "keeps ok_frame (merge_round E planID job)"
  unfolding merge_round_def merge_visit_def
  by (intro ok_ops.keeps_bind ok_ops.keeps_seq ok_ops.keeps_fold ok_ops.keeps_if ok_ops.keeps_pure
      keeps_visit_key merge_service_frame)

subsection \<open>Rounds neither block nor panic\<close>

lemma nonblocking_key:
  "(\<And>n. nonblocking (f n)) \<Longrightarrow> (\<And>n. nonblocking (g n)) \<Longrightarrow>
     nonblocking (case key of KeyString n \<Rightarrow> f n | KeyUint64 n \<Rightarrow> g n)"
  by (cases key) auto

lemma finish_dump_nonblocking: "nonblocking (finish_dump E key name f found)"
  unfolding finish_dump_def
  by (intro nonblocking_cases nonblocking_bind nonblocking_seq nonblocking_pure mergeExec_talks)

lemma dump_service_nonblocking: "nonblocking (dump_service E planID key)"
  unfolding dump_service_def Let_def
  by (intro nonblocking_cases nonblocking_bind nonblocking_seq nonblocking_pure
      dump_pods_nonblocking ext_ops_nonblocking finish_dump_nonblocking)

lemma dump_round_nonblocking: "nonblocking (dump_round E planID job)"
  unfolding dump_round_def dump_visit_def
  by (intro nonblocking_cases nonblocking_bind nonblocking_seq nonblocking_pure nonblocking_fold
      nonblocking_key dump_service_nonblocking)

lemma merge_service_nonblocking: "nonblocking (merge_service E planID key merged)"
  unfolding merge_service_def Let_def note_merge_error_def
  by (intro nonblocking_cases nonblocking_bind nonblocking_seq nonblocking_pure nonblocking_fold
      mergeExec_talks ext_ops_nonblocking)

lemma merge_round_nonblocking: "nonblocking (merge_round E planID job)"
  unfolding merge_round_def merge_visit_def
  by (intro nonblocking_cases nonblocking_bind nonblocking_seq nonblocking_pure nonblocking_fold
      nonblocking_key merge_service_nonblocking)

text \<open>
  A critical section under a job's lock whose body does not block and leaves the jobs
  alone: it blocks exactly when the lock is held, and gives the lock back.
\<close>

lemma dump_section_frame:
  assumes "nonblocking body" "keeps ok_frame body" "services_ok s"
  shows "svc_frame s (snd (go_seq (lock_dump r) (go_defer (unlock_dump r) body) s))
    \<and> (fst (go_seq (lock_dump r) (go_defer (unlock_dump r) body) s) = Blocked
         \<longleftrightarrow> job_DumpLock (jobs s r))"
proof (cases "job_DumpLock (jobs s r)")
  case True
  then have "go_seq (lock_dump r) (go_defer (unlock_dump r) body) s = (Blocked, s)"
    by (intro go_seq_Blocked) (simp add: lock_dump_def)
  then show ?thesis using True by (simp add: svc_ops.R_refl)
next
  case False
  let ?s1 = "upd_job r (\<lambda>j. j\<lparr>job_DumpLock := True\<rparr>) s"
  obtain a t where b: "body ?s1 = (a, t)" by fastforce
  have ok1: "services_ok ?s1" using assms(3) by (simp add: services_ok_def services_named_def)
  have f: "svc_frame ?s1 t" using keepsD [OF assms(2) b] ok1 by (simp add: ok_frame_def)
  let ?u = "upd_job r (\<lambda>j. j\<lparr>job_DumpLock := False\<rparr>) t"
  have held: "job_DumpLock (jobs t r)" using f by (simp add: svc_frame_def)
  have "jobs ?u = jobs s"
    using f False by (auto simp: svc_frame_def fun_eq_iff)
  then have u: "svc_frame s ?u"
    using f ok1 by (auto simp: svc_frame_def services_ok_def services_named_def)
  have "a \<noteq> Blocked" using assms(1) b by (metis nonblocking_def fst_conv)
  then have "\<exists>a'. a' \<noteq> Blocked \<and> go_seq (lock_dump r) (go_defer (unlock_dump r) body) s = (a', ?u)"
    using False b held
    by (cases a) (simp_all add: lock_dump_def go_seq_Ret go_defer_def unlock_dump_def go_eval)
  then show ?thesis using False u by auto
qed

lemma dumpExec_frame: "keeps ok_frame (dumpExec E planID)"
proof (rule keepsI)
  fix s show "ok_frame s (snd (dumpExec E planID s))"
    using dump_section_frame [OF dump_round_nonblocking dump_round_frame, of s]
    by (cases "GetJob s planID") (auto simp: dumpExec_def go_eval ok_frame_def svc_ops.R_refl)
qed

lemma mergeAllSvcExec_frame: "keeps ok_frame (mergeAllSvcExec E planID)"
proof (rule keepsI)
  fix s show "ok_frame s (snd (mergeAllSvcExec E planID s))"
    using dump_section_frame [OF merge_round_nonblocking merge_round_frame, of s]
    by (cases "GetJob s planID") (auto simp: mergeAllSvcExec_def go_eval ok_frame_def svc_ops.R_refl)
qed

text \<open>
  C12. A round of dumps of a known job blocks exactly when the lock of the job is held;
  otherwise it gives the lock back, changes no job, loses no service and leaves every
  service under its own name, whatever the commands and the pods answer.
\<close>

theorem dumpExec_safe:
  assumes "services_ok s" "GetJob s planID = Some r"
  shows "(fst (dumpExec E planID s) = Blocked \<longleftrightarrow> job_DumpLock (jobs s r))
       \<and> jobs (snd (dumpExec E planID s)) = jobs s
       \<and> Services s \<subseteq>\<^sub>m Services (snd (dumpExec E planID s))
       \<and> services_ok (snd (dumpExec E planID s))"
  using dump_section_frame [OF dump_round_nonblocking dump_round_frame assms(1), of r] assms
  by (simp add: dumpExec_def go_eval svc_frame_def)

definition one_job :: agent where
  "one_job = web_with_pod\<lparr>RunJobs := [KeyUint64 7 \<mapsto> 1], next_ref := 2,
     jobs := (\<lambda>_. empty_job)(1 := empty_job\<lparr>job_PlanID := 7, job_Status := RunningStatus\<rparr>)\<rparr>"

theorem dumpExec_safe_witness:
  "(fst (dumpExec (calm_env ok_answer (JObj []) [KeyString ''web'']) 7 one_job) = Blocked
       \<longleftrightarrow> job_DumpLock (jobs one_job 1))
   \<and> jobs (snd (dumpExec (calm_env ok_answer (JObj []) [KeyString ''web'']) 7 one_job)) = jobs one_job
   \<and> Services one_job \<subseteq>\<^sub>m Services (snd (dumpExec (calm_env ok_answer (JObj []) [KeyString ''web'']) 7 one_job))
   \<and> services_ok (snd (dumpExec (calm_env ok_answer (JObj []) [KeyString ''web'']) 7 one_job))"
  by (rule dumpExec_safe)
     (simp_all add: one_job_def web_with_pod_def services_ok_def services_named_def GetJob_def)

subsection \<open>Which pods a round of dumps reaches\<close>

definition dials :: "event list \<Rightarrow> string list" where
  "dials evs = concat (map (\<lambda>ev. case ev of EvDial a \<Rightarrow> [a] | _ \<Rightarrow> []) evs)"

text \<open>Address and file of each dump command.\<close>

definition dump_runs :: "event list \<Rightarrow> (string \<times> string) list" where
  "dump_runs evs = concat (map (\<lambda>ev. case ev of EvRun c args \<Rightarrow> [(args ! 4, args ! 6)] | _ \<Rightarrow> []) evs)"

lemma log_append [simp]:
  "dials (xs @ ys) = dials xs @ dials ys" "dump_runs (xs @ ys) = dump_runs xs @ dump_runs ys"
  by (simp_all add: dials_def dump_runs_def)

definition healthy :: "pod list \<Rightarrow> string list" where
  "healthy ps = map pod_Addr (filter (\<lambda>p. \<not> pod_HasError p) ps)"

definition pods_reached :: "pod list \<Rightarrow> string list \<Rightarrow> pod_errors \<Rightarrow> string list \<Rightarrow> pod_errors \<Rightarrow>
    history \<Rightarrow> history \<Rightarrow> bool" where
  "pods_reached ps execs errs execs' errs' h h' \<longleftrightarrow>
     (\<exists>evs. h' = h @ evs \<and> dials evs = map (\<lambda>a. a @ '':6300'') (healthy ps)
        \<and> execs' = execs @ map snd (dump_runs evs)
        \<and> fst ` set errs' \<union> fst ` set (dump_runs evs) = fst ` set errs \<union> set (healthy ps))"

lemma pods_reached_step:
  assumes "pods_reached ps (execs @ map snd (dump_runs evs)) errs1 execs' errs' (h @ evs) h'"
    and "dials evs = [pod_Addr p @ '':6300'']" "\<not> pod_HasError p"
    and "fst ` set errs1 \<union> fst ` set (dump_runs evs) = insert (pod_Addr p) (fst ` set errs)"
  shows "pods_reached (p # ps) execs errs execs' errs' h h'"
proof -
  obtain fs where fs: "h' = (h @ evs) @ fs" "dials fs = map (\<lambda>a. a @ '':6300'') (healthy ps)"
    "execs' = (execs @ map snd (dump_runs evs)) @ map snd (dump_runs fs)"
    "fst ` set errs' \<union> fst ` set (dump_runs fs) = fst ` set errs1 \<union> set (healthy ps)"
    using assms(1) unfolding pods_reached_def by blast
  have "fst ` set errs' \<union> fst ` set (dump_runs (evs @ fs))
      = fst ` set (dump_runs evs) \<union> (fst ` set errs' \<union> fst ` set (dump_runs fs))" by auto
  also have "\<dots> = insert (pod_Addr p) (fst ` set errs) \<union> set (healthy ps)"
    unfolding fs(4) using assms(4) by auto
  finally show ?thesis
    using fs(1-3) assms(2,3) unfolding pods_reached_def
    by (intro exI [of _ "evs @ fs"]) (simp add: healthy_def)
qed

lemma dump_pods_reached:
  "dump_pods E name i ps execs errs s = (Ret (Some (execs', errs')), t) \<Longrightarrow>
     pods_reached ps execs errs execs' errs' (trace s) (trace t)"
proof (induction ps arbitrary: i execs errs s)
  case Nil
  then show ?case
    by (simp add: go_ret_def pods_reached_def dials_def dump_runs_def healthy_def)
next
  case (Cons p ps)
  show ?case
  proof (cases "pod_HasError p")
    case True
    then show ?thesis using Cons by (simp add: pods_reached_def healthy_def)
  next
    case False
    let ?a = "pod_Addr p @ '':6300''"
    let ?s1 = "s\<lparr>trace := trace s @ [EvDial ?a]\<rparr>"
    show ?thesis
    proof (cases "x_dial E (trace s) ?a")
      case (Some e)
      let ?errs = "AList.update (pod_Addr p) (dial_error name (pod_Addr p) e) errs"
      have "dump_pods E name (Suc i) ps execs ?errs ?s1 = (Ret (Some (execs', errs')), t)"
        using Cons.prems False Some by (simp add: net_Dial_def go_eval)
      from Cons.IH [OF this] show ?thesis
        using False by (intro pods_reached_step [where evs = "[EvDial ?a]" and ?errs1.0 = ?errs])
          (simp_all add: dials_def dump_runs_def dom_update [unfolded image_comp])
    next
      case None
      let ?pat = "''svc_pod_'' @ dec i"
      let ?s2 = "?s1\<lparr>trace := trace ?s1 @ [EvCreateTemp [] ?pat]\<rparr>"
      obtain f where f: "x_createTemp E (trace ?s1) [] ?pat = Inr f"
        using Cons.prems False None
        by (cases "x_createTemp E (trace ?s1) [] ?pat")
           (simp_all add: net_Dial_def os_CreateTemp_def go_eval)
      let ?args = "dump_args (pod_Addr p) f"
      let ?s3 = "?s2\<lparr>trace := trace ?s2 @ [EvRun ''java'' ?args]\<rparr>"
      have "x_run E (trace ?s2) ''java'' ?args = None"
        using Cons.prems False None f
        by (cases "x_run E (trace ?s2) ''java'' ?args")
           (simp_all add: net_Dial_def os_CreateTemp_def simpleRun_def go_eval)
      then have "dump_pods E name (Suc i) ps (execs @ [f]) errs ?s3 = (Ret (Some (execs', errs')), t)"
        using Cons.prems False None f
        by (simp add: net_Dial_def os_CreateTemp_def simpleRun_def go_eval)
      from Cons.IH [OF this] show ?thesis
        using False
        by (intro pods_reached_step [where evs = "[EvDial ?a, EvCreateTemp [] ?pat, EvRun ''java'' ?args]"
              and ?errs1.0 = errs])
          (simp_all add: dials_def dump_runs_def dump_args_def)
    qed
  qed
qed

text \<open>
  C13. When the loop over the pods of a service ends by itself, it has dialled exactly the
  pods without an error, in their order; each of them was either dumped or has an error
  noted under its address, and the files that go into the merge are exactly those the dumps
  wrote.
\<close>

theorem dump_pods_reach_all:
  assumes "dump_pods E name 0 pods [] [] s = (Ret (Some (execs, errs)), t)"
  shows "\<exists>evs. trace t = trace s @ evs
      \<and> dials evs = map (\<lambda>a. a @ '':6300'') (healthy pods)
      \<and> execs = map snd (dump_runs evs)
      \<and> set (healthy pods) = fst ` set (dump_runs evs) \<union> fst ` set errs"
  using dump_pods_reached [OF assms] unfolding pods_reached_def by auto

definition two_pods :: "pod list" where
  "two_pods = [\<lparr>pod_Addr = ''10.0.0.1'', pod_PodName = ''a'', pod_ContainerName = ''c'',
                pod_ErrorMsg = [], pod_HasError = False\<rparr>,
              \<lparr>pod_Addr = ''10.0.0.2'', pod_PodName = ''b'', pod_ContainerName = ''c'',
                pod_ErrorMsg = ''gone'', pod_HasError = True\<rparr>]"

theorem dump_pods_reach_all_witness:
  "\<exists>t execs errs evs. dump_pods (calm_env ok_answer (JObj []) []) ''web'' 0 two_pods [] [] agent_init
        = (Ret (Some (execs, errs)), t)
      \<and> dials evs = [''10.0.0.1:6300''] \<and> execs = map snd (dump_runs evs)"
proof -
  let ?E = "calm_env ok_answer (JObj []) []"
  have "fst (dump_pods ?E ''web'' 0 two_pods [] [] agent_init)
      = Ret (Some ([''/svc_pod_0''], []))" by code_simp
  then obtain t where t: "dump_pods ?E ''web'' 0 two_pods [] [] agent_init
      = (Ret (Some ([''/svc_pod_0''], [])), t)" by (metis prod.collapse)
  have h: "healthy two_pods = [''10.0.0.1'']" by code_simp
  obtain evs where "trace t = trace agent_init @ evs
      \<and> dials evs = map (\<lambda>a. a @ '':6300'') (healthy two_pods)
      \<and> [''/svc_pod_0''] = map snd (dump_runs evs)
      \<and> set (healthy two_pods) = fst ` set (dump_runs evs) \<union> fst ` set ([] :: pod_errors)"
    using dump_pods_reach_all [OF t] ..
  with t show ?thesis unfolding h
    by (intro exI [of _ t] exI [of _ "[''/svc_pod_0'']"] exI [of _ "[]"] exI [of _ evs]) simp
qed

subsection \<open>What merging does to the dumps\<close>

text \<open>
  C14. Merging the dumps of a service that is present: one merge of exactly the files of its
  directory that end in .exec, then the removal of those files, in that order; a failed
  merge is noted at the service, and the files are removed and the target is reported to the
  caller all the same.
\<close>

theorem merge_service_spec:
  assumes "GetService s key = Some r" "\<not> svc_IsDelete (svcs s r)" "svc_Name (svcs s r) = key"
    and "x_readDir E (trace s) (GenSvcDumpExecDir planID key) = Inr files"
    and "x_createTemp E (trace s @ [EvReadDir (GenSvcDumpExecDir planID key)])
           (GenSvcDumpExecDir planID key) (dump_temp key) = Inr svcExec"
  shows "let srcs = map (\<lambda>f. GenSvcDumpExecDir planID key @ ''/'' @ f)
                          (filter (\<lambda>f. HasSuffix f ''.exec'') files);
             args = [''-jar'', JacocoCliAddr, ''merge''] @ srcs @ [''--destfile'', svcExec];
             h = trace s @ [EvReadDir (GenSvcDumpExecDir planID key),
                            EvCreateTemp (GenSvcDumpExecDir planID key) (dump_temp key)];
             (res, t) = merge_service E planID key merged s
         in res = Ret (AList.update key svcExec merged)
          \<and> trace t = h @ EvRun ''java'' args # map EvRemove srcs
          \<and> svcs t = (svcs s)(r := (svcs s r)\<lparr>svc_ErrorMessage :=
              svc_ErrorMessage (svcs s r) @ merge_error (x_run E h ''java'' args)\<rparr>)"
proof -
  let ?dir = "GenSvcDumpExecDir planID key" and ?srcs = "exec_files planID key files"
  let ?args = "[''-jar'', JacocoCliAddr, ''merge''] @ ?srcs @ [''--destfile'', svcExec]"
  let ?h = "trace s @ [EvReadDir ?dir, EvCreateTemp ?dir (dump_temp key)]"
  let ?s1 = "s\<lparr>trace := ?h @ [EvRun ''java'' ?args]\<rparr>"
  let ?msg = "merge_error (x_run E ?h ''java'' ?args)"
  let ?s2 = "upd_svc r (\<lambda>v. v\<lparr>svc_ErrorMessage := svc_ErrorMessage v @ ?msg\<rparr>) ?s1"
  let ?rest = "go_seq (go_fold (\<lambda>u f. go_seq (os_Remove E f) (go_ret ())) () ?srcs)
                 (go_ret (AList.update key svcExec merged))"
  have removes: "go_fold (\<lambda>u f. go_seq (os_Remove E f) (go_ret ())) () fs u
      = (Ret (), u\<lparr>trace := trace u @ map EvRemove fs\<rparr>)" for fs u
    by (induction fs arbitrary: u) (simp_all add: os_Remove_def go_eval go_bind_seq)
  have "merge_service E planID key merged s = ?rest ?s2 \<or>
      (merge_service E planID key merged s = ?rest ?s1 \<and> ?s2 = ?s1)"
  proof (cases "x_run E ?h ''java'' ?args")
    case None
    then have "merge_service E planID key merged s = ?rest ?s1"
      using assms by (simp add: merge_service_def go_eval Let_def ioutil_ReadDir_def
          os_CreateTemp_def mergeExec_def simpleRun_def)
    moreover have "?s2 = ?s1" using None by (simp add: merge_error_def upd_svc_def)
    ultimately show ?thesis by simp
  next
    case (Some e)
    then have "merge_service E planID key merged s = ?rest ?s2"
      using assms by (simp add: merge_service_def go_eval Let_def ioutil_ReadDir_def
          os_CreateTemp_def mergeExec_def simpleRun_def note_merge_error_def SetService_same
          go_bind_seq)
    then show ?thesis by simp
  qed
  then have "merge_service E planID key merged s = ?rest ?s2" by auto
  also have "\<dots> = (Ret (AList.update key svcExec merged),
      ?s2\<lparr>trace := trace ?s2 @ map EvRemove ?srcs\<rparr>)"
    using removes by (simp add: go_seq_Ret go_ret_def)
  finally show ?thesis by (simp add: Let_def fun_eq_iff exec_files_def)
qed

definition two_files_env :: env where
  "two_files_env = (calm_env ok_answer (JObj []) [])
     \<lparr>x_readDir := (\<lambda>_ _. Inr [''a.exec'', ''notes.txt'']),
      x_run := (\<lambda>_ _ _. Some ''exit status 1'')\<rparr>"

theorem merge_service_spec_witness:
  "let d = GenSvcDumpExecDir 7 ''web''; target = d @ ''/'' @ dump_temp ''web'';
       (res, t) = merge_service two_files_env 7 ''web'' [] web_with_pod
   in res = Ret [(''web'', target)]
      \<and> trace t = trace web_with_pod @ [EvReadDir d, EvCreateTemp d (dump_temp ''web''),
           EvRun ''java'' [''-jar'', JacocoCliAddr, ''merge'', d @ ''/a.exec'', ''--destfile'', target],
           EvRemove (d @ ''/a.exec'')]
      \<and> svc_ErrorMessage (svcs t 0) = svc_ErrorMessage (svcs web_with_pod 0) @ ''merge pod exec error exit status 1''"
  using merge_service_spec [where E = two_files_env and s = web_with_pod
      and key = "''web''" and r = 0 and planID = 7 and files = "[''a.exec'', ''notes.txt'']"
      and merged = "[]" and svcExec = "GenSvcDumpExecDir 7 ''web'' @ ''/'' @ dump_temp ''web''"]
  by (simp add: web_with_pod_def GetService_def empty_service_def Let_def AList.update.simps
      two_files_env_def HasSuffix_def merge_error_def split: prod.splits)

end
