(* ===== verification/Jobs.thy ===== *)
theory Jobs
  imports Dumps
begin

text \<open>
  The life of a detection job (\<open>agent/core/job.go\<close>): the poll that creates or updates it,
  the goroutine that prepares and dumps, the goroutine that watches for its end, the report.
\<close>

subsection \<open>Telling the centre that a job failed\<close>

definition callbackEndWithMessage :: "env \<Rightarrow> uint64 \<Rightarrow> string \<Rightarrow> (agent, unit) prog" where
  "callbackEndWithMessage E planID message =
     go_bind (go_get (\<lambda>s. GetJob s planID)) (\<lambda>found.
       case found of
         None \<Rightarrow> go_ret ()
       | Some r \<Rightarrow>
           go_seq (go_mod (upd_job r (\<lambda>j. j\<lparr>job_Status := FailStatus, job_JobStatus := Fail\<rparr>)))
           (go_seq (cancel_job r)
           (go_seq (go_mod (SetJob planID r))
           (go_bind (callbackEnd E planID message FailStatus []) (\<lambda>err. go_ret ())))))"

definition newline :: string where "newline = [CHR 0x0A]"

definition svc_message :: "service \<Rightarrow> string" where
  "svc_message v =
     (let servicesMessage = (if svc_ErrorMessage v \<noteq> [] then svc_ErrorMessage v @ newline else []);
          podErrorMessage = concat (map (\<lambda>p. if pod_ErrorMsg p \<noteq> [] then pod_ErrorMsg p @ newline else [])
                              (svc_Pods v));
          head1 = ''svc '' @ svc_Name v @ '' error message '' @ newline;
          head2 = ''svc '' @ svc_Name v @ '' pod error message '' @ newline
      in (if servicesMessage \<noteq> [] then head1 @ servicesMessage else [])
         @ (if podErrorMessage \<noteq> [] then head2 @ podErrorMessage else []))"

definition message_visit :: "string \<Rightarrow> map_key \<Rightarrow> (agent, string) prog" where
  "message_visit allMessage key =
     (case key of
        KeyUint64 n \<Rightarrow> go_panic key_panic
      | KeyString name \<Rightarrow>
          go_get (\<lambda>s. case GetService s name of None \<Rightarrow> allMessage
                      | Some r \<Rightarrow> allMessage @ svc_message (svcs s r)))"

definition job_message :: "detection_job \<Rightarrow> string" where
  "job_message j =
     (if job_ErrorMsg j \<noteq> [] then job_ErrorMsg j @ ''job error message: '' @ newline
                               @ job_ErrorMsg j @ newline
      else [])"

definition buildCallbackErrorMessage :: "env \<Rightarrow> uint64 \<Rightarrow> (agent, string) prog" where
  "buildCallbackErrorMessage E planID =
     go_bind (go_get (\<lambda>s. GetJob s planID)) (\<lambda>found.
       case found of
         None \<Rightarrow> go_ret []
       | Some r \<Rightarrow>
           go_bind (go_get (\<lambda>s. job_message (jobs s r))) (\<lambda>msg.
           go_bind (go_get (\<lambda>s. x_order E (trace s) (Services s))) (\<lambda>keys.
           go_bind (go_fold message_visit [] keys) (\<lambda>allMessage.
             go_ret (take 1500 (msg @ (if allMessage \<noteq> [] then allMessage @ newline else [])))))))"

subsection \<open>Preparing the classes and sources\<close>

definition jar_visit :: "string list \<Rightarrow> map_key \<Rightarrow> (agent, string list) prog" where
  "jar_visit jarAddrList key =
     (case key of
        KeyUint64 n \<Rightarrow> go_panic key_panic
      | KeyString name \<Rightarrow>
          go_get (\<lambda>s. case GetService s name of None \<Rightarrow> jarAddrList
                      | Some r \<Rightarrow> if svc_ErrorMessage (svcs s r) \<noteq> [] then jarAddrList
                                 else jarAddrList @ svc_JarAddrList (svcs s r)))"

definition no_jar_error :: go_error where
  "no_jar_error = ''all service not find jar path''"

definition extract_args :: "string list \<Rightarrow> string list" where
  "extract_args jars = [''-lc'', ''bash '' @ ExtractCliAddr @ '' '' @ Join jars '','' @ '' '' @ GenProjectClassDir]"

definition sources_error :: "go_error \<Rightarrow> string" where
  "sources_error err = ''failed to get all svc jar classes and sources, error '' @ err"

definition loadClassSources :: "env \<Rightarrow> uint64 \<Rightarrow> (agent, go_error option) prog" where
  "loadClassSources E planID =
     go_bind (go_get (\<lambda>s. x_order E (trace s) (Services s))) (\<lambda>keys.
     go_bind (go_fold jar_visit [] keys) (\<lambda>jarAddrList.
       if jarAddrList = [] then go_ret (Some no_jar_error)
       else
         go_bind (simpleRun E ''/bin/bash'' (extract_args jarAddrList)) (\<lambda>err.
           case err of
             None \<Rightarrow> go_ret None
           | Some e \<Rightarrow>
               go_bind (x_retry E (callbackEnd E planID (sources_error e) FailStatus [])) (\<lambda>callbackError.
                 go_ret (if callbackError \<noteq> None then callbackError else Some e)))))"

subsection \<open>The report\<close>

definition no_dump_error :: go_error where
  "no_dump_error = ''not find svc exec dump file''"

definition prefixed :: "string \<Rightarrow> go_error option \<Rightarrow> go_error option" where
  "prefixed text err = map_option (\<lambda>e. text @ e) err"

text \<open>Lines 193 to 211: between the lock and its release are three returns.\<close>

definition report_merge :: "env \<Rightarrow> nat \<Rightarrow> (string \<times> string) list \<Rightarrow> (agent, go_error + string) prog" where
  "report_merge E job svcExecMap =
     go_seq (lock_dump job)
       (if svcExecMap = [] then go_ret (Inl no_dump_error)
        else
          go_bind (os_CreateTemp E [] ''_project_.exec'') (\<lambda>f.
            case f of
              Inl e \<Rightarrow> go_ret (Inl (''create project exec dump file error '' @ e))
            | Inr projectExec \<Rightarrow>
                go_bind (go_get (\<lambda>s. x_shuffle E (trace s) (map snd svcExecMap))) (\<lambda>svcExecList.
                go_bind (mergeExec E projectExec svcExecList) (\<lambda>err.
                  case err of
                    Some e \<Rightarrow> go_ret (Inl (''merge all svc exec dump error '' @ e))
                  | None \<Rightarrow> go_seq (unlock_dump job) (go_ret (Inr projectExec))))))"

definition report_args :: "string \<Rightarrow> string \<Rightarrow> string \<Rightarrow> string list" where
  "report_args projectExec kind dest =
     [''-jar'', JacocoCliAddr, ''report'', projectExec, ''--classfiles'',
      GenProjectClassDir @ ''/sub/libjarcls'', ''--sourcefiles'', GenProjectClassDir @ ''/sub/libjarsrc'',
      kind, dest]"

definition tar_args :: "string \<Rightarrow> string \<Rightarrow> string \<Rightarrow> string list" where
  "tar_args dir archive what =
     [''-c'', ''cd '' @ dir @ '' && tar -czf '' @ archive @ '' '' @ what]"

text \<open>The steps of a report, each with the error it returns; the first error ends them.\<close>

definition and_then :: "(agent, go_error option) prog \<Rightarrow> (agent, go_error option) prog \<Rightarrow>
    (agent, go_error option) prog" where
  "and_then m n = go_bind m (\<lambda>err. if err \<noteq> None then go_ret err else n)"

definition failing :: "string \<Rightarrow> (agent, go_error option) prog \<Rightarrow> (agent, go_error option) prog" where
  "failing text m = go_bind m (\<lambda>err. go_ret (prefixed text err))"

definition report_html :: "env \<Rightarrow> uint64 \<Rightarrow> string \<Rightarrow> string \<Rightarrow> string \<Rightarrow> (agent, go_error option) prog" where
  "report_html E planID projectExec tempDir errorMessage =
     and_then (failing ''faild report porject html, error ''
                 (simpleRun E ''java'' (report_args projectExec ''--html'' (tempDir @ ''/'' @ ''_project_html''))))
     (go_bind (time_Now E) (\<lambda>times.
       and_then (failing ''failed tar project html dir, error ''
                   (simpleRun E ''sh'' (tar_args tempDir (times @ ''.tar.gz'') ''_project_html'')))
         (failing ''failed report project html tar.gz, error ''
            (callbackReport E planID SuccessStatus errorMessage (tempDir @ ''/'' @ times @ ''.tar.gz'')))))"

definition report_xml :: "env \<Rightarrow> uint64 \<Rightarrow> string \<Rightarrow> (agent, go_error option) prog" where
  "report_xml E planID projectExec =
     go_bind (os_MkdirTemp E []) (\<lambda>d.
       case d of
         Inl e \<Rightarrow> go_ret (Some (''failed to create project xml temp file, error '' @ e))
       | Inr tempDir \<Rightarrow>
           and_then (failing ''failed to create project xml temp file, error ''
                       (os_Create E (tempDir @ ''/'' @ ''_project_xml'')))
           (and_then (failing ''failed to report project xml cover, error ''
                       (simpleRun E ''java'' (report_args projectExec ''--xml'' (tempDir @ ''/'' @ ''_project_xml''))))
           (and_then (failing ''tar app report xml error ''
                       (simpleRun E ''sh'' (tar_args tempDir ''_project_xml.tar.gz'' ''_project_xml'')))
             (go_bind (buildCallbackErrorMessage E planID) (\<lambda>errorMessage.
               and_then (failing ''report project cover xml error ''
                           (x_retry E (callbackEnd E planID errorMessage SuccessStatus
                              (tempDir @ ''/'' @ ''_project_xml.tar.gz''))))
                 (report_html E planID projectExec tempDir errorMessage))))))"

definition report :: "env \<Rightarrow> uint64 \<Rightarrow> (agent, go_error option) prog" where
  "report E planID =
     go_bind (go_get (\<lambda>s. GetJob s planID)) (\<lambda>found.
       case found of
         None \<Rightarrow> go_ret None
       | Some job \<Rightarrow>
           go_bind (go_get (\<lambda>s. job_Status (jobs s job))) (\<lambda>st.
             if st \<noteq> EndingStatus then go_ret None
             else
               go_seq (dumpExec E planID)
               (go_bind (mergeAllSvcExec E planID) (\<lambda>svcExecMap.
                go_bind (report_merge E job svcExecMap) (\<lambda>r.
                  case r of Inl e \<Rightarrow> go_ret (Some e) | Inr projectExec \<Rightarrow> report_xml E planID projectExec)))))"

subsection \<open>The two goroutines of a job\<close>

definition is_terminal :: "string \<Rightarrow> bool" where
  "is_terminal st \<longleftrightarrow> st = FailStatus \<or> st = SuccessStatus \<or> st = CancelStatus"

definition report_error :: "go_error \<Rightarrow> string" where
  "report_error e = ''report xml and html error '' @ e"

text \<open>One turn of the loop that watches a job; the result says whether there is another.\<close>

definition watch_tick :: "env \<Rightarrow> uint64 \<Rightarrow> (agent, bool) prog" where
  "watch_tick E planID =
     go_bind (go_get (\<lambda>s. GetJob s planID)) (\<lambda>found.
       case found of
         None \<Rightarrow> go_ret False
       | Some r \<Rightarrow>
           go_bind (go_get (\<lambda>s. job_done (jobs s r))) (\<lambda>cancelled.
             if cancelled then
               go_seq (time_Sleep 300)
               (go_seq (simpleRun E ''rm'' [''-rf'', GenPlanDumpExecDir planID])
               (go_seq (go_mod (DeleteJob planID)) (go_ret False)))
             else
               go_bind (go_get (\<lambda>s. job_Status (jobs s r))) (\<lambda>st.
                 if is_terminal st then go_seq (cancel_job r) (go_ret False)
                 else
                   go_seq (if st = EndingStatus then
                             go_bind (report E planID) (\<lambda>err.
                               case err of
                                 None \<Rightarrow> go_ret ()
                               | Some e \<Rightarrow> callbackEndWithMessage E planID (report_error e))
                           else go_ret ())
                     (go_seq (time_Sleep 30) (go_ret True)))))"

text \<open>The other goroutine up to its loop; \<open>Some r\<close>: the loop starts, for the job \<open>r\<close>.\<close>

definition schedule_ready :: "env \<Rightarrow> uint64 \<Rightarrow> (agent, nat option) prog" where
  "schedule_ready E planID =
     go_seq (dumpExec E planID)
     (go_bind (x_retry E (go_bind (buildCallbackErrorMessage E planID) (callbackReady E planID))) (\<lambda>err.
       case err of
         Some e \<Rightarrow> go_seq (callbackEndWithMessage E planID (''callback ready error '' @ e)) (go_ret None)
       | None \<Rightarrow>
           go_bind (go_get (\<lambda>s. GetJob s planID)) (\<lambda>found.
             case found of
               None \<Rightarrow> go_ret None
             | Some r \<Rightarrow>
                 go_seq (go_mod (upd_job r (\<lambda>j. j\<lparr>job_JobStatus := Ready\<rparr>)))
                 (go_seq (go_mod (SetJob planID r)) (go_ret (Some r))))))"

definition schedule_load :: "env \<Rightarrow> uint64 \<Rightarrow> (agent, nat option) prog" where
  "schedule_load E planID =
     go_bind (loadClassSources E planID) (\<lambda>err.
       case err of
         Some e \<Rightarrow> go_seq (callbackEndWithMessage E planID (''loadClassSources error '' @ e)) (go_ret None)
       | None \<Rightarrow> schedule_ready E planID)"

definition schedule_start :: "env \<Rightarrow> uint64 \<Rightarrow> (agent, nat option) prog" where
  "schedule_start E planID =
     go_bind (go_get (\<lambda>s. GetJob s planID)) (\<lambda>found.
       case found of
         None \<Rightarrow> go_ret None
       | Some r \<Rightarrow>
           go_bind (go_get (\<lambda>s. job_JobStatus (jobs s r))) (\<lambda>st.
             if st \<noteq> Running then go_ret None
             else
               go_bind (Exists E (GenPlanDumpExecDir planID)) (\<lambda>there.
               go_bind (if there then go_ret None else os_Mkdir E (GenPlanDumpExecDir planID)) (\<lambda>err.
                 if err \<noteq> None then go_ret None else schedule_load E planID))))"

text \<open>One turn of its loop: \<open>Some loopTimes\<close> goes on, with the counter of the rounds.\<close>

definition schedule_tick :: "env \<Rightarrow> uint64 \<Rightarrow> nat \<Rightarrow> nat \<Rightarrow> (agent, nat option) prog" where
  "schedule_tick E planID r loopTimes =
     go_bind (go_get (\<lambda>s. job_done (jobs s r))) (\<lambda>cancelled.
       if cancelled then go_ret None
       else
         go_seq (time_Sleep 300)
         (go_seq (dumpExec E planID)
           (if Suc loopTimes > 10
            then go_bind (mergeAllSvcExec E planID) (\<lambda>m. go_ret (Some 1))
            else go_ret (Some (Suc loopTimes)))))"

subsection \<open>The poll\<close>

definition settings_path :: string where
  "settings_path = ''/usr/share/maven/conf/settings.xml''"

definition touch_args :: "string list" where
  "touch_args = [''-c'', ''cd /usr/share/maven/conf && touch settings.xml'']"

definition job_of :: "exec_detail \<Rightarrow> detection_job" where
  "job_of d = empty_job\<lparr>job_PlanID := d_PlanID d, job_Status := d_Status d,
     job_MavenSettings := d_MavenSetting d, job_Includes := d_Includes d, job_Excludes := d_Excludes d,
     job_JobStatus := (if d_Status d = RunningStatus \<or> d_Status d = Ready then Running else [])\<rparr>"

definition cancel_visit :: "unit \<Rightarrow> map_key \<Rightarrow> (agent, unit) prog" where
  "cancel_visit u key =
     go_bind (go_get (\<lambda>s. RunJobs s key)) (\<lambda>found.
       case found of None \<Rightarrow> go_ret () | Some r \<Rightarrow> cancel_job r)"

definition cancel_all :: "env \<Rightarrow> (agent, unit) prog" where
  "cancel_all E =
     go_bind (go_get (\<lambda>s. x_order E (trace s) (RunJobs s))) (\<lambda>keys. go_fold cancel_visit () keys)"

text \<open>The settings and the environment of the tools; \<open>False\<close> is an early return.\<close>

definition write_settings :: "env \<Rightarrow> exec_detail \<Rightarrow> (agent, bool) prog" where
  "write_settings E d =
     go_bind (Exists E settings_path) (\<lambda>there.
     go_bind (if there then go_ret None else simpleRun E ''bash'' touch_args) (\<lambda>err.
       if err \<noteq> None then go_ret False
       else go_bind (os_OpenTrunc E settings_path) (\<lambda>err.
         if err \<noteq> None then go_ret False
         else go_bind (file_WriteString E settings_path (d_MavenSetting d)) (\<lambda>err.
           if err \<noteq> None then go_ret False
           else go_seq (os_Setenv ''INCLUDES'' (d_Includes d))
                (go_seq (os_Setenv ''EXCLUDES'' (d_Excludes d)) (go_ret True))))))"

definition save_new :: "env \<Rightarrow> exec_detail \<Rightarrow> (agent, unit) prog" where
  "save_new E d =
     go_bind (new_job (job_of d)) (\<lambda>r.
     go_seq (cancel_all E)
     (go_bind (write_settings E d) (\<lambda>ok.
       if \<not> ok then go_ret ()
       else go_seq (go_mod (SetJob (d_PlanID d) r)) (spawn (GoScheduling (d_PlanID d))))))"

definition saveJob :: "env \<Rightarrow> exec_detail option \<Rightarrow> (agent, unit) prog" where
  "saveJob E detail =
     (case detail of
        None \<Rightarrow> go_ret ()
      | Some d \<Rightarrow>
          go_bind (go_get (\<lambda>s. GetJob s (d_PlanID d))) (\<lambda>found.
            case found of
              None \<Rightarrow> save_new E d
            | Some r \<Rightarrow>
                go_bind (go_get (\<lambda>s. job_PlanID (jobs s r))) (\<lambda>plan.
                  if plan \<noteq> d_PlanID d then save_new E d
                  else go_seq (go_mod (upd_job r (\<lambda>j. j\<lparr>job_Status := d_Status d\<rparr>)))
                         (go_mod (SetJob (d_PlanID d) r)))))"

text \<open>\<open>WatchJob\<close>: it waits for the preloading, then polls for ever; one turn of its loop.\<close>

definition await_preload :: "(agent, unit) prog" where
  "await_preload = (\<lambda>s. if start_lock s then (Blocked, s) else (Ret (), s))"

definition poll_status :: "env \<Rightarrow> (agent, go_error option) prog" where
  "poll_status E =
     go_bind (status E) (\<lambda>r.
       case r of
         Inl e \<Rightarrow> go_seq (go_mod (\<lambda>s. s\<lparr>poll_detail := None\<rparr>)) (go_ret (Some e))
       | Inr d \<Rightarrow> go_seq (go_mod (\<lambda>s. s\<lparr>poll_detail := d\<rparr>)) (go_ret None))"

definition poll_tick :: "env \<Rightarrow> (agent, unit) prog" where
  "poll_tick E =
     go_seq (go_mod (\<lambda>s. s\<lparr>poll_detail := None\<rparr>))
     (go_bind (x_retry E (poll_status E)) (\<lambda>err.
       if err \<noteq> None then time_Sleep 180
       else go_bind (go_get poll_detail) (\<lambda>detail.
         case detail of
           None \<Rightarrow> time_Sleep 180
         | Some d \<Rightarrow> if d_PlanID d = 0 then time_Sleep 180
                    else go_seq (saveJob E (Some d)) (time_Sleep 60))))"

subsection \<open>What every operation keeps\<close>

text \<open>
  \<open>jobs_ok\<close>: a job is found under its own plan and its pointer is allocated. \<open>one_live\<close>: at
  most one job of the map is not cancelled. \<open>agent_frame\<close>: these and \<open>services_ok\<close> are kept,
  a cancelled job stays cancelled, no service leaves the map.
\<close>

definition jobs_ok :: "agent \<Rightarrow> bool" where
  "jobs_ok s \<longleftrightarrow> jobs_named s \<and> (\<forall>k r. RunJobs s k = Some r \<longrightarrow> r < next_ref s)
     \<and> finite (dom (RunJobs s))"

definition one_live :: "agent \<Rightarrow> bool" where
  "one_live s \<longleftrightarrow> (\<forall>k1 k2 r1 r2. RunJobs s k1 = Some r1 \<longrightarrow> RunJobs s k2 = Some r2 \<longrightarrow>
     \<not> job_done (jobs s r1) \<longrightarrow> \<not> job_done (jobs s r2) \<longrightarrow> k1 = k2)"

definition agent_ok :: "agent \<Rightarrow> bool" where
  "agent_ok s \<longleftrightarrow> services_ok s \<and> jobs_ok s \<and> one_live s"

definition objects_age :: "agent \<Rightarrow> agent \<Rightarrow> bool" where
  "objects_age s t \<longleftrightarrow> next_ref s \<le> next_ref t \<and> Services s \<subseteq>\<^sub>m Services t
     \<and> (\<forall>r < next_ref s. job_PlanID (jobs t r) = job_PlanID (jobs s r)
          \<and> (job_done (jobs s r) \<longrightarrow> job_done (jobs t r)))"

definition agent_frame :: "agent \<Rightarrow> agent \<Rightarrow> bool" where
  "agent_frame s t \<longleftrightarrow> (agent_ok s \<longrightarrow> agent_ok t \<and> objects_age s t)"

lemma objects_age_trans: "objects_age s t \<Longrightarrow> objects_age t u \<Longrightarrow> objects_age s u"
proof -
  assume a: "objects_age s t" "objects_age t u"
  have "r < next_ref t" if "r < next_ref s" for r
    using a(1) that by (auto simp: objects_age_def)
  then show ?thesis using a unfolding objects_age_def by (auto intro: map_le_trans)
qed

interpretation agent_ops: frame_rel agent_frame
proof unfold_locales
  fix s t u assume "agent_frame s t" "agent_frame t u"
  then show "agent_frame s u" unfolding agent_frame_def by (blast intro: objects_age_trans)
qed (simp add: agent_frame_def objects_age_def)

lemma jobs_subset:
  assumes "jobs_ok s" "one_live s" "RunJobs t \<subseteq>\<^sub>m RunJobs s" "next_ref s \<le> next_ref t"
    and "\<And>r. r < next_ref s \<Longrightarrow> job_PlanID (jobs t r) = job_PlanID (jobs s r)"
    and "\<And>r. r < next_ref s \<Longrightarrow> job_done (jobs s r) \<Longrightarrow> job_done (jobs t r)"
  shows "jobs_ok t \<and> one_live t"
proof -
  have sub: "RunJobs s k = Some r \<and> r < next_ref s" if "RunJobs t k = Some r" for k r
    using assms(1,3) that unfolding map_le_def jobs_ok_def by (metis domI)
  have "finite (dom (RunJobs t))"
    using assms(1,3) unfolding jobs_ok_def by (meson finite_subset map_le_implies_dom_le)
  moreover have "r < next_ref t" if "RunJobs t k = Some r" for k r
    using sub [OF that] assms(4) by simp
  moreover have "jobs_named t"
    using sub assms(1,5) unfolding jobs_ok_def jobs_named_def by metis
  moreover have "one_live t"
    using sub assms(2,6) unfolding one_live_def by metis
  ultimately show ?thesis by (simp add: jobs_ok_def)
qed

lemma svc_agent:
  assumes "svc_frame s t" shows "agent_frame s t"
  using jobs_subset [of s t] assms
  by (simp add: agent_frame_def agent_ok_def objects_age_def svc_frame_def)

lemma ok_agent: "ok_frame s t \<Longrightarrow> agent_frame s t"
  using svc_agent by (auto simp: ok_frame_def agent_frame_def agent_ok_def)

lemma keeps_talks_agent: "keeps only_talks m \<Longrightarrow> keeps agent_frame m"
  by (simp add: keeps_def talks_svc svc_agent)

lemma keeps_svc_agent: "keeps svc_frame m \<Longrightarrow> keeps agent_frame m"
  by (simp add: keeps_def svc_agent)

lemma keeps_ok_agent: "keeps ok_frame m \<Longrightarrow> keeps agent_frame m"
  by (simp add: keeps_def ok_agent)

lemma jobs_agent:
  assumes "Services t = Services s" "svcs t = svcs s" "next_ref t = next_ref s"
    and "RunJobs t \<subseteq>\<^sub>m RunJobs s"
    and "\<And>r. job_PlanID (jobs t r) = job_PlanID (jobs s r)"
    and "\<And>r. job_done (jobs s r) \<Longrightarrow> job_done (jobs t r)"
  shows "agent_frame s t"
  using jobs_subset [of s t] assms
  by (simp add: agent_frame_def agent_ok_def objects_age_def services_ok_def services_named_def)

lemma upd_job_agent:
  "job_PlanID (f (jobs s r)) = job_PlanID (jobs s r) \<Longrightarrow>
   (job_done (jobs s r) \<Longrightarrow> job_done (f (jobs s r))) \<Longrightarrow> agent_frame s (upd_job r f s)"
  by (rule jobs_agent) auto

lemma upd_job_agent_mod:
  "(\<And>j. job_PlanID (f j) = job_PlanID j) \<Longrightarrow> (\<And>j. job_done j \<Longrightarrow> job_done (f j)) \<Longrightarrow>
     keeps agent_frame (go_mod (upd_job r f))"
  by (simp add: keeps_def go_mod_def upd_job_agent)

lemma cancel_job_agent: "keeps agent_frame (cancel_job r)"
  unfolding cancel_job_def by (rule upd_job_agent_mod) simp_all

lemma DeleteJob_agent: "agent_frame s (DeleteJob p s)"
  by (rule jobs_agent) (auto simp: DeleteJob_def map_le_def)

lemma poll_detail_agent: "agent_frame s (s\<lparr>poll_detail := d\<rparr>)"
  by (rule jobs_agent) simp_all

lemma dump_ops_agent: "keeps agent_frame (dumpExec E p)" "keeps agent_frame (mergeAllSvcExec E p)"
  by (intro keeps_ok_agent dumpExec_frame mergeAllSvcExec_frame)+

lemma lock_dump_agent: "keeps agent_frame (lock_dump r)" "keeps agent_frame (unlock_dump r)"
  by (auto simp: keeps_def lock_dump_def unlock_dump_def agent_ops.R_refl intro!: upd_job_agent)

lemma callbackEndWithMessage_agent: "keeps agent_frame (callbackEndWithMessage E p msg)"
  unfolding callbackEndWithMessage_def
proof (rule keeps_get_bind)
  fix s
  show "agent_frame s (snd ((case GetJob s p of
         None \<Rightarrow> go_ret ()
       | Some r \<Rightarrow>
           go_seq (go_mod (upd_job r (\<lambda>j. j\<lparr>job_Status := FailStatus, job_JobStatus := Fail\<rparr>)))
           (go_seq (cancel_job r)
           (go_seq (go_mod (SetJob p r))
           (go_bind (callbackEnd E p msg FailStatus []) (\<lambda>err. go_ret ()))))) s))"
  proof (cases "GetJob s p")
    case None
    then show ?thesis by (simp add: go_eval agent_ops.R_refl)
  next
    case (Some r)
    let ?t = "upd_job r (\<lambda>j. j\<lparr>job_done := True\<rparr>)
                (upd_job r (\<lambda>j. j\<lparr>job_Status := FailStatus, job_JobStatus := Fail\<rparr>) s)"
    let ?rest = "go_bind (callbackEnd E p msg FailStatus []) (\<lambda>err. go_ret ())"
    have "agent_frame s ?t" by (intro agent_ops.R_trans [OF upd_job_agent upd_job_agent]) simp_all
    moreover have "keeps agent_frame ?rest"
      by (intro agent_ops.keeps_bind agent_ops.keeps_pure keeps_talks_agent callbacks_talk)
    ultimately have "agent_frame s (snd (?rest ?t))" by (metis keeps_def agent_ops.R_trans)
    then show ?thesis using Some by (simp add: cancel_job_def go_eval SetJob_same)
  qed
qed

lemma visits_agent:
  "keeps agent_frame (message_visit m key)" "keeps agent_frame (jar_visit jars key)"
  by (cases key; simp add: message_visit_def jar_visit_def agent_ops.keeps_pure)+

lemma buildCallbackErrorMessage_agent: "keeps agent_frame (buildCallbackErrorMessage E p)"
  unfolding buildCallbackErrorMessage_def
  by (intro agent_ops.keeps_bind agent_ops.keeps_option agent_ops.keeps_pure agent_ops.keeps_fold
      visits_agent)

lemma loadClassSources_agent:
  assumes "retry_documented E" shows "keeps agent_frame (loadClassSources E p)"
  unfolding loadClassSources_def
  by (intro agent_ops.keeps_bind agent_ops.keeps_option agent_ops.keeps_if agent_ops.keeps_pure
      agent_ops.keeps_fold visits_agent keeps_talks_agent ext_ops_talk
      keeps_retry [OF talking.frame_rel_axioms assms] callbacks_talk)

lemma report_merge_agent: "keeps agent_frame (report_merge E job m)"
  unfolding report_merge_def
  by (intro agent_ops.keeps_bind agent_ops.keeps_option agent_ops.keeps_if agent_ops.keeps_sum
      agent_ops.keeps_seq agent_ops.keeps_pure lock_dump_agent keeps_talks_agent ext_ops_talk
      mergeExec_talks)

lemma and_then_agent:
  "keeps agent_frame m \<Longrightarrow> keeps agent_frame n \<Longrightarrow> keeps agent_frame (and_then m n)"
  "keeps agent_frame m \<Longrightarrow> keeps agent_frame (failing text m)"
  unfolding and_then_def failing_def
  by (intro agent_ops.keeps_bind agent_ops.keeps_if agent_ops.keeps_pure; assumption)+

lemma report_xml_agent:
  assumes "retry_documented E" shows "keeps agent_frame (report_xml E p f)"
  unfolding report_xml_def report_html_def
  by (intro agent_ops.keeps_bind agent_ops.keeps_sum agent_ops.keeps_pure and_then_agent
      buildCallbackErrorMessage_agent keeps_talks_agent ext_ops_talk callbacks_talk
      keeps_retry [OF agent_ops.frame_rel_axioms assms])

lemma report_agent:
  assumes "retry_documented E" shows "keeps agent_frame (report E p)"
  unfolding report_def
  by (intro agent_ops.keeps_bind agent_ops.keeps_option agent_ops.keeps_if agent_ops.keeps_seq
      agent_ops.keeps_sum agent_ops.keeps_pure dump_ops_agent report_merge_agent
      report_xml_agent [OF assms])

lemma watch_tick_agent:
  assumes "retry_documented E" shows "keeps agent_frame (watch_tick E p)"
  unfolding watch_tick_def
  by (intro agent_ops.keeps_bind agent_ops.keeps_option agent_ops.keeps_if agent_ops.keeps_seq
      agent_ops.keeps_pure agent_ops.keeps_mod DeleteJob_agent cancel_job_agent
      report_agent [OF assms] callbackEndWithMessage_agent keeps_talks_agent ext_ops_talk)

lemma schedule_ready_agent:
  assumes "retry_documented E" shows "keeps agent_frame (schedule_ready E p)"
proof -
  have last: "keeps agent_frame (go_bind (go_get (\<lambda>s. GetJob s p)) (\<lambda>found.
             case found of None \<Rightarrow> go_ret None
             | Some r \<Rightarrow> go_seq (go_mod (upd_job r (\<lambda>j. j\<lparr>job_JobStatus := Ready\<rparr>)))
                 (go_seq (go_mod (SetJob p r)) (go_ret (Some r)))))"
    by (rule keeps_get_bind)
       (auto simp: go_eval SetJob_same agent_ops.R_refl upd_job_agent split: option.split)
  show ?thesis
    unfolding schedule_ready_def
    by (intro agent_ops.keeps_bind [OF keeps_retry [OF agent_ops.frame_rel_axioms assms]]
        agent_ops.keeps_bind [OF buildCallbackErrorMessage_agent] last
        agent_ops.keeps_option agent_ops.keeps_seq agent_ops.keeps_pure dump_ops_agent
        callbackEndWithMessage_agent keeps_talks_agent callbacks_talk)
qed

lemma schedule_start_agent:
  assumes "retry_documented E" shows "keeps agent_frame (schedule_start E p)"
  unfolding schedule_start_def schedule_load_def
  by (intro agent_ops.keeps_bind agent_ops.keeps_option agent_ops.keeps_if agent_ops.keeps_seq
      agent_ops.keeps_pure loadClassSources_agent [OF assms] schedule_ready_agent [OF assms]
      callbackEndWithMessage_agent keeps_talks_agent ext_ops_talk)

lemma schedule_tick_agent: "keeps agent_frame (schedule_tick E p r n)"
  unfolding schedule_tick_def
  by (intro agent_ops.keeps_bind agent_ops.keeps_if agent_ops.keeps_seq agent_ops.keeps_pure
      dump_ops_agent keeps_talks_agent ext_ops_talk)

subsection \<open>Saving a job\<close>

definition cancelled_by :: "map_key list \<Rightarrow> agent \<Rightarrow> agent" where
  "cancelled_by ks s = s\<lparr>jobs := (\<lambda>q. if \<exists>k \<in> set ks. RunJobs s k = Some q
                                  then (jobs s q)\<lparr>job_done := True\<rparr> else jobs s q)\<rparr>"

lemma cancel_visits: "go_fold cancel_visit () ks s = (Ret (), cancelled_by ks s)"
proof (induction ks arbitrary: s)
  case Nil
  then show ?case by (simp add: cancelled_by_def go_eval)
next
  case (Cons k ks)
  show ?case
  proof (cases "RunJobs s k")
    case None
    then have "cancelled_by (k # ks) s = cancelled_by ks s" by (simp add: cancelled_by_def)
    then show ?thesis
      using None Cons.IH by (simp add: cancel_visit_def go_bind_Ret go_eval)
  next
    case (Some r)
    let ?s = "upd_job r (\<lambda>j. j\<lparr>job_done := True\<rparr>) s"
    have "cancelled_by ks ?s = cancelled_by (k # ks) s"
      using Some by (auto simp: cancelled_by_def upd_job_def fun_eq_iff)
    then show ?thesis
      using Some Cons.IH [of ?s]
      by (simp add: cancel_visit_def cancel_job_def go_bind_Ret go_eval)
  qed
qed

lemma write_settings_talks: "keeps only_talks (write_settings E d)" "nonblocking (write_settings E d)"
  unfolding write_settings_def
  by (intro talking.keeps_bind talking.keeps_if talking.keeps_seq talking.keeps_pure ext_ops_talk
      nonblocking_bind nonblocking_cases nonblocking_seq nonblocking_pure ext_ops_nonblocking)+

lemma write_settings_returns: "\<exists>ok u. write_settings E d s = (Ret ok, u) \<and> only_talks s u"
proof -
  have "\<exists>ok u. write_settings E d s = (Ret ok, u)"
    by (auto simp: write_settings_def ext_defs go_eval)
  then show ?thesis using keepsD [OF write_settings_talks(1)] by blast
qed

text \<open>A new job after the others are cancelled.\<close>

definition job_added :: "env \<Rightarrow> exec_detail \<Rightarrow> agent \<Rightarrow> agent \<Rightarrow> bool \<Rightarrow> bool" where
  "job_added E d s t ok \<longleftrightarrow>
     (\<forall>k q. RunJobs s k = Some q \<longrightarrow> job_done (jobs t q))
     \<and> RunJobs t = (if ok then (RunJobs s)(KeyUint64 (d_PlanID d) \<mapsto> next_ref s) else RunJobs s)
     \<and> jobs t (next_ref s) = job_of d \<and> next_ref t = Suc (next_ref s)
     \<and> Services t = Services s \<and> svcs t = svcs s
     \<and> (\<forall>q. q < next_ref s \<longrightarrow> job_PlanID (jobs t q) = job_PlanID (jobs s q)
          \<and> (job_done (jobs s q) \<longrightarrow> job_done (jobs t q)))
     \<and> (ok \<longrightarrow> last (trace t) = EvGo (GoScheduling (d_PlanID d)))"

definition with_new_job :: "exec_detail \<Rightarrow> agent \<Rightarrow> agent" where
  "with_new_job d s = s\<lparr>jobs := (jobs s)(next_ref s := job_of d), next_ref := Suc (next_ref s)\<rparr>"

lemma save_new_run:
  assumes "write_settings E d (cancelled_by (x_order E (trace s) (RunJobs s)) (with_new_job d s)) = (Ret ok, u)"
  shows "save_new E d s = (Ret (),
     if ok then (SetJob (d_PlanID d) (next_ref s) u)\<lparr>trace := trace u @ [EvGo (GoScheduling (d_PlanID d))]\<rparr>
     else u)"
  using assms
  by (simp add: save_new_def new_job_def go_bind_def [of "\<lambda>s. (Ret (next_ref s), _ s)"]
      cancel_all_def cancel_visits go_seq_Ret go_bind_Ret spawn_def go_eval with_new_job_def)

lemma save_new_spec:
  assumes "range_of (RunJobs s) (x_order E (trace s) (RunJobs s))" "jobs_ok s"
  shows "\<exists>t ok. save_new E d s = (Ret (), t) \<and> job_added E d s t ok"
proof -
  let ?r = "next_ref s"
  let ?ks = "x_order E (trace s) (RunJobs s)"
  let ?s2 = "cancelled_by ?ks (with_new_job d s)"
  obtain ok u where w: "write_settings E d ?s2 = (Ret ok, u)" and o: "only_talks ?s2 u"
    using write_settings_returns by blast
  let ?t = "if ok then (SetJob (d_PlanID d) ?r u)\<lparr>trace := trace u @ [EvGo (GoScheduling (d_PlanID d))]\<rparr>
            else u"
  have run: "save_new E d s = (Ret (), ?t)" by (rule save_new_run [OF w])
  have ks: "set ?ks = dom (RunJobs s)"
    using assms(1) by simp
  have fresh: "RunJobs s k \<noteq> Some ?r" for k
    using assms(2) unfolding jobs_ok_def by blast
  have t: "jobs ?t = jobs ?s2" "Services ?t = Services s" "svcs ?t = svcs s" "next_ref ?t = Suc ?r"
    "RunJobs ?t = (if ok then (RunJobs s)(KeyUint64 (d_PlanID d) \<mapsto> ?r) else RunJobs s)"
    using only_talks_same [OF o] by (simp_all add: cancelled_by_def SetJob_def with_new_job_def)
  have j: "job_done (jobs ?s2 q)" if "RunJobs s k = Some q" for k q
    using that ks by (auto simp: cancelled_by_def with_new_job_def)
  have "job_added E d s ?t ok"
    unfolding job_added_def t using j fresh by (auto simp: cancelled_by_def with_new_job_def)
  with run show ?thesis by blast
qed

lemma job_of_PlanID: "job_PlanID (job_of d) = d_PlanID d"
  by (simp add: job_of_def)

lemma job_added_agent:
  assumes "job_added E d s t ok" shows "agent_frame s t"
proof -
  have "agent_ok t" if "agent_ok s"
  proof -
    have R: "RunJobs t k = Some q \<Longrightarrow> (RunJobs s k = Some q \<and> q < next_ref s \<and> job_done (jobs t q))
        \<or> (k = KeyUint64 (d_PlanID d) \<and> q = next_ref s)" for k q
      using assms that
      by (auto simp: job_added_def agent_ok_def jobs_ok_def split: if_splits)
    have "services_ok t"
      using assms that by (simp add: job_added_def agent_ok_def services_ok_def services_named_def
          less_Suc_eq)
    moreover have "jobs_named t"
      unfolding jobs_named_def using R assms that
      by (metis agent_ok_def job_added_def jobs_named_def jobs_ok_def job_of_PlanID)
    moreover have "finite (dom (RunJobs t))"
      using assms that by (auto simp: job_added_def agent_ok_def jobs_ok_def)
    moreover have "q < next_ref t" if "RunJobs t k = Some q" for k q
      using R [OF that] assms by (auto simp: job_added_def)
    moreover have "one_live t"
      unfolding one_live_def using R by metis
    ultimately show ?thesis by (simp add: agent_ok_def jobs_ok_def)
  qed
  then show ?thesis
    using assms by (simp add: agent_frame_def objects_age_def job_added_def)
qed

lemma saveJob_agent:
  assumes "order_documented E" shows "keeps agent_frame (saveJob E detail)"
proof (rule keepsI)
  fix s
  have new: "agent_frame s (snd (save_new E d s))" for d
  proof (cases "agent_ok s")
    case True
    then have "range_of (RunJobs s) (x_order E (trace s) (RunJobs s))" "jobs_ok s"
      using assms by (auto simp: agent_ok_def jobs_ok_def order_documented_def)
    then obtain t ok where "save_new E d s = (Ret (), t)" "job_added E d s t ok"
      using save_new_spec by blast
    then show ?thesis using job_added_agent by simp
  qed (simp add: agent_frame_def)
  show "agent_frame s (snd (saveJob E detail s))"
  proof (cases detail)
    case (Some d)
    show ?thesis
      using new Some
      by (auto simp: saveJob_def go_eval SetJob_same upd_job_agent split: option.split)
  qed (simp add: saveJob_def go_eval agent_ops.R_refl)
qed

lemma poll_tick_agent:
  assumes "retry_documented E" "order_documented E" shows "keeps agent_frame (poll_tick E)"
proof -
  have poll: "keeps agent_frame (poll_status E)"
    unfolding poll_status_def
    by (intro agent_ops.keeps_bind agent_ops.keeps_sum agent_ops.keeps_seq agent_ops.keeps_pure
        agent_ops.keeps_mod poll_detail_agent keeps_talks_agent callbacks_talk)
  show ?thesis
    unfolding poll_tick_def
    by (intro agent_ops.keeps_bind [OF keeps_retry [OF agent_ops.frame_rel_axioms assms(1) poll]]
        agent_ops.keeps_bind agent_ops.keeps_option agent_ops.keeps_seq agent_ops.keeps_if
        agent_ops.keeps_pure agent_ops.keeps_mod poll_detail_agent saveJob_agent [OF assms(2)]
        keeps_talks_agent ext_ops_talk)
qed

subsection \<open>Properties\<close>


definition plan_8 :: exec_detail where
  "plan_8 = \<lparr>d_PlanID = 8, d_ProjectID = 1, d_Status = RunningStatus, d_MavenSetting = [],
     d_Includes = [], d_Excludes = []\<rparr>"


text \<open>A polled plan that is known: only its status changes.\<close>

lemma saveJob_update:
  assumes "GetJob s (d_PlanID d) = Some r" "job_PlanID (jobs s r) = d_PlanID d"
  shows "saveJob E (Some d) s = (Ret (), upd_job r (\<lambda>j. j\<lparr>job_Status := d_Status d\<rparr>) s)"
  using assms by (simp add: saveJob_def go_eval SetJob_same)

text \<open>A cancelled job: after five minutes its directory and it are removed.\<close>

lemma watch_tick_removes:
  assumes "GetJob s p = Some r" "job_done (jobs s r)"
  shows "watch_tick E p s = (Ret False, (DeleteJob p s)\<lparr>trace := trace s @
           [EvSleep 300, EvRun ''rm'' [''-rf'', GenPlanDumpExecDir p]]\<rparr>)"
  using assms by (simp add: watch_tick_def go_eval time_Sleep_def simpleRun_def DeleteJob_def)

text \<open>A job that the centre ended is cancelled, and nothing else.\<close>

lemma watch_tick_terminal:
  assumes "GetJob s p = Some r" "\<not> job_done (jobs s r)" "is_terminal (job_Status (jobs s r))"
  shows "watch_tick E p s = (Ret False, upd_job r (\<lambda>j. j\<lparr>job_done := True\<rparr>) s)"
  using assms by (simp add: watch_tick_def cancel_job_def go_eval)

text \<open>
  A failure of a known job: it is marked as failed and cancelled before the centre is
  told, and telling the centre, whether or not it works, changes nothing but the outside.
\<close>

lemma callbackEndWithMessage_spec:
  assumes "GetJob s p = Some r"
  shows "let t = upd_job r (\<lambda>j. j\<lparr>job_Status := FailStatus, job_JobStatus := Fail, job_done := True\<rparr>) s;
             u = snd (callbackEndWithMessage E p msg s)
         in only_talks t u \<and> u = snd (callbackEnd E p msg FailStatus [] t)"
proof -
  let ?t = "upd_job r (\<lambda>j. j\<lparr>job_Status := FailStatus, job_JobStatus := Fail, job_done := True\<rparr>) s"
  let ?rest = "go_bind (callbackEnd E p msg FailStatus []) (\<lambda>err. go_ret ())"
  have "callbackEndWithMessage E p msg s = ?rest ?t"
    using assms by (simp add: callbackEndWithMessage_def cancel_job_def go_eval SetJob_same)
      (simp add: upd_job_def)
  moreover have "snd (?rest ?t) = snd (callbackEnd E p msg FailStatus [] ?t)"
    by (simp add: go_bind_def go_ret_def split: prod.split res.split)
  moreover have "only_talks ?t (snd (callbackEnd E p msg FailStatus [] ?t))"
    using callbacks_talk(1) by (simp add: keeps_def)
  ultimately show ?thesis by (simp only: Let_def)
qed

subsection \<open>The lock of the dumps\<close>

lemma message_visit_eval:
  "\<exists>m'. message_visit m key s = (m', s)"
  by (cases key) (simp_all add: message_visit_def go_eval)

lemma buildCallbackErrorMessage_talks: "keeps only_talks (buildCallbackErrorMessage E p)"
proof -
  have "keeps only_talks (message_visit m key)" for m key
    by (cases key; simp add: message_visit_def talking.keeps_pure)
  then show ?thesis
    unfolding buildCallbackErrorMessage_def
    by (intro talking.keeps_bind talking.keeps_option talking.keeps_pure talking.keeps_fold)
qed

lemma report_xml_talks:
  assumes "retry_documented E" shows "keeps only_talks (report_xml E p f)"
  unfolding report_xml_def report_html_def and_then_def failing_def
  by (intro talking.keeps_bind [OF keeps_retry [OF talking.frame_rel_axioms assms]]
      talking.keeps_bind [OF buildCallbackErrorMessage_talks]
      talking.keeps_bind talking.keeps_sum talking.keeps_if talking.keeps_pure
      ext_ops_talk callbacks_talk)

lemma report_merge_lock:
  assumes "report_merge E r m s = (res, t)" "\<not> job_DumpLock (jobs s r)"
  shows "GetJob t p = GetJob s p \<and> (\<exists>x. res = Ret x \<and> (job_DumpLock (jobs t r) \<longleftrightarrow> isl x))"
  using assms
  by (auto simp: report_merge_def lock_dump_def unlock_dump_def go_seq_Ret go_eval os_CreateTemp_def
      mergeExec_def simpleRun_def split: if_splits sum.splits option.splits)

lemma bind_result:
  assumes "go_bind m k s = (res, u)"
  obtains (ret) a t where "m s = (Ret a, t)" "k a t = (res, u)"
    | (stop) x where "m s = (x, u)" "\<nexists>a. x = Ret a" "\<nexists>a. res = Ret a"
  using assms by (auto simp: go_bind_def split: prod.splits res.splits)

lemma report_lock:
  assumes E: "retry_documented E" and s: "services_ok s" "GetJob s p = Some r"
    "\<not> job_DumpLock (jobs s r)" and rep: "report E p s = (res, u)"
  shows "GetJob u p = Some r \<and> (job_DumpLock (jobs u r) \<longrightarrow> (\<exists>e. res = Ret (Some e)))"
proof (cases "job_Status (jobs s r) = EndingStatus")
  case False
  then show ?thesis using rep s by (simp add: report_def go_eval)
next
  case True
  let ?k2 = "\<lambda>m. go_bind (report_merge E r m) (\<lambda>x. case x of Inl e \<Rightarrow> go_ret (Some e)
                  | Inr f \<Rightarrow> report_xml E p f)"
  have same: "GetJob t p = Some r \<and> \<not> job_DumpLock (jobs t r) \<and> services_ok t"
    if "svc_frame s' t" "GetJob s' p = Some r" "\<not> job_DumpLock (jobs s' r)" "services_ok s'" for s' t
    using that by (simp add: svc_frame_def)
  have "go_bind (dumpExec E p) (\<lambda>_. go_bind (mergeAllSvcExec E p) ?k2) s = (res, u)"
    using rep s True by (simp add: report_def go_eval go_seq_def)
  then show ?thesis
  proof (cases rule: bind_result)
    case (stop x)
    from keepsD [OF dumpExec_frame stop(1)] show ?thesis
      using same [of s u] s by (simp add: ok_frame_def)
  next
    case (ret a s1)
    have s1: "GetJob s1 p = Some r" "\<not> job_DumpLock (jobs s1 r)" "services_ok s1"
      using keepsD [OF dumpExec_frame ret(1)] same [of s s1] s by (simp_all add: ok_frame_def)
    from ret(2) show ?thesis
    proof (cases rule: bind_result)
      case (stop x)
      from keepsD [OF mergeAllSvcExec_frame stop(1)] show ?thesis
        using same [of s1 u] s1 by (simp add: ok_frame_def)
    next
      case (ret m s2)
      have s2: "GetJob s2 p = Some r" "\<not> job_DumpLock (jobs s2 r)"
        using keepsD [OF mergeAllSvcExec_frame ret(1)] same [of s1 s2] s1 by (simp_all add: ok_frame_def)
      from ret(2) show ?thesis
      proof (cases rule: bind_result)
        case (stop x)
        then show ?thesis using report_merge_lock [OF stop(1) s2(2), of p] by auto
      next
        case (ret x s3)
        have s3: "GetJob s3 p = Some r" "job_DumpLock (jobs s3 r) \<longleftrightarrow> isl x"
          using report_merge_lock [OF ret(1) s2(2), of p] s2(1) by auto
        show ?thesis
        proof (cases x)
          case (Inl e)
          then show ?thesis using ret(2) s3 by (auto simp: go_ret_def)
        next
          case (Inr f)
          have "only_talks s3 u"
            using keepsD [OF report_xml_talks [OF E]] ret(2) Inr by simp
          then show ?thesis using s3 Inr by (simp add: only_talks_defs GetJob_def)
        qed
      qed
    qed
  qed
qed

lemma fail_keeps_lock:
  assumes "GetJob s p = Some r" "callbackEndWithMessage E p msg s = (res, u)"
  shows "job_done (jobs u r)"
proof -
  let ?t = "upd_job r (\<lambda>j. j\<lparr>job_Status := FailStatus, job_JobStatus := Fail, job_done := True\<rparr>) s"
  let ?rest = "go_bind (callbackEnd E p msg FailStatus []) (\<lambda>err. go_ret ())"
  have "callbackEndWithMessage E p msg s = ?rest ?t"
    using assms by (simp add: callbackEndWithMessage_def cancel_job_def go_eval SetJob_same)
      (simp add: upd_job_def)
  moreover have "keeps only_talks ?rest"
    by (intro talking.keeps_bind talking.keeps_pure callbacks_talk)
  ultimately have "only_talks ?t u" using assms(2) by (metis keeps_def snd_conv)
  then show ?thesis by (simp add: only_talks_defs)
qed

lemma watch_after_report:
  assumes "retry_documented E" "services_ok s" "GetJob s p = Some r" "\<not> job_DumpLock (jobs s r)"
    and "go_bind (report E p) (\<lambda>err. case err of None \<Rightarrow> go_ret ()
      | Some e \<Rightarrow> callbackEndWithMessage E p (report_error e)) s = (x, t)"
    and "job_DumpLock (jobs t r)"
  shows "job_done (jobs t r)"
  using assms(5)
proof (cases rule: bind_result)
  case (ret err v)
  then show ?thesis
    using report_lock [OF assms(1-4) ret(1)] fail_keeps_lock [of v p r] assms(6)
    by (cases err) (auto simp: go_ret_def)
next
  case (stop z)
  then show ?thesis using report_lock [OF assms(1-4) stop(1)] assms(6) by auto
qed

text \<open>
  The lock of the dumps leaks only when the job ends: when a turn of the watching loop
  starts with the lock free and leaves it locked, the job is cancelled after the turn.
\<close>

lemma watch_tick_lock:
  assumes "retry_documented E" "services_ok s" "GetJob s p = Some r" "\<not> job_DumpLock (jobs s r)"
    and "job_DumpLock (jobs (snd (watch_tick E p s)) r)"
  shows "job_done (jobs (snd (watch_tick E p s)) r)"
proof (cases "\<not> job_done (jobs s r) \<and> job_Status (jobs s r) = EndingStatus")
  case False
  then show ?thesis
    using assms(3-5)
    by (auto simp: watch_tick_def cancel_job_def go_eval time_Sleep_def simpleRun_def DeleteJob_def
        split: if_splits)
next
  case True
  let ?report = "go_bind (report E p) (\<lambda>err. case err of None \<Rightarrow> go_ret ()
      | Some e \<Rightarrow> callbackEndWithMessage E p (report_error e))"
  let ?rest = "go_seq (time_Sleep 30) (go_ret True)"
  have "\<not> is_terminal EndingStatus" by (simp add: is_terminal_def status_defs)
  then have run: "watch_tick E p s = go_bind ?report (\<lambda>_. ?rest) s"
    using True assms(3) by (simp add: watch_tick_def go_eval go_seq_def)
  obtain x u where w: "watch_tick E p s = (x, u)" by fastforce
  then have "go_bind ?report (\<lambda>_. ?rest) s = (x, u)" using run by simp
  then show ?thesis
  proof (cases rule: bind_result)
    case (ret a t)
    have "jobs u = jobs t" using ret(2) by (auto simp: time_Sleep_def go_eval)
    then show ?thesis using watch_after_report [OF assms(1-4) ret(1)] assms(5) w by simp
  next
    case (stop y)
    then show ?thesis using watch_after_report [OF assms(1-4) stop(1)] assms(5) w by simp
  qed
qed

definition ending_job :: agent where
  "ending_job = one_job\<lparr>Services := Map.empty, jobs := (\<lambda>_. empty_job)
     (1 := empty_job\<lparr>job_PlanID := 7, job_Status := EndingStatus\<rparr>)\<rparr>"

text \<open>A report that finds no dumps returns with the lock held.\<close>

lemma report_leaks_lock:
  "fst (report (calm_env ok_answer (JObj []) []) 7 ending_job) = Ret (Some no_dump_error)
   \<and> job_DumpLock (jobs (snd (report (calm_env ok_answer (JObj []) []) 7 ending_job)) 1)"
  by code_simp

text \<open>
  A report that went well changes nothing of the jobs: the next turn of the loop, thirty
  seconds later, finds the job still ending and not cancelled, and reports again.
\<close>

definition same_phase :: "agent \<Rightarrow> agent \<Rightarrow> bool" where
  "same_phase s t \<longleftrightarrow> services_ok s \<longrightarrow> services_ok t \<and>
     (\<forall>q. job_Status (jobs t q) = job_Status (jobs s q) \<and> job_done (jobs t q) = job_done (jobs s q))"

interpretation phases: frame_rel same_phase
  by unfold_locales (auto simp: same_phase_def)

lemma phase_frames:
  "keeps ok_frame m \<Longrightarrow> keeps same_phase m" "keeps only_talks m \<Longrightarrow> keeps same_phase m"
  by (auto simp: keeps_def same_phase_def ok_frame_def svc_frame_def only_talks_defs services_ok_def
      services_named_def)

lemma lock_phase: "keeps same_phase (lock_dump r)" "keeps same_phase (unlock_dump r)"
  by (auto simp: keeps_def lock_dump_def unlock_dump_def same_phase_def services_ok_def
      services_named_def)

lemma report_phase:
  assumes "retry_documented E" shows "keeps same_phase (report E p)"
  unfolding report_def report_merge_def
  by (intro phases.keeps_bind [OF phase_frames(1) [OF mergeAllSvcExec_frame]]
      phases.keeps_seq [OF phase_frames(1) [OF dumpExec_frame]]
      phases.keeps_bind phases.keeps_option phases.keeps_sum phases.keeps_if phases.keeps_seq
      phases.keeps_pure lock_phase phase_frames(2) ext_ops_talk mergeExec_talks
      report_xml_talks [OF assms])

lemma report_repeats:
  assumes "retry_documented E" "services_ok s" "GetJob s p = Some r" "\<not> job_done (jobs s r)"
    and "job_Status (jobs s r) = EndingStatus" "report E p s = (Ret None, t)"
  shows "watch_tick E p s = (Ret True, t\<lparr>trace := trace t @ [EvSleep 30]\<rparr>)
       \<and> job_Status (jobs t r) = EndingStatus \<and> \<not> job_done (jobs t r)"
proof -
  have "\<not> is_terminal EndingStatus" by (simp add: is_terminal_def status_defs)
  then have "watch_tick E p s = (Ret True, t\<lparr>trace := trace t @ [EvSleep 30]\<rparr>)"
    using assms(3-6) by (simp add: watch_tick_def go_eval go_bind_Ret go_seq_Ret time_Sleep_def)
  moreover have "same_phase s t" by (rule keepsD [OF report_phase [OF assms(1)] assms(6)])
  ultimately show ?thesis using assms(2,4,5) by (simp add: same_phase_def)
qed

subsection \<open>Messages and sources\<close>

text \<open>What the visits of all services collect, as a function of the state.\<close>

definition key_service :: "agent \<Rightarrow> map_key \<Rightarrow> service" where
  "key_service s key = svcs s (the (Services s key))"

lemma visit_services:
  assumes "services_named s" "set keys \<subseteq> dom (Services s)"
  shows "go_fold message_visit acc keys s
      = (Ret (acc @ concat (map (\<lambda>k. svc_message (key_service s k)) keys)), s)"
    and "go_fold jar_visit jars keys s
      = (Ret (jars @ concat (map (\<lambda>k. if svc_ErrorMessage (key_service s k) = []
                                      then svc_JarAddrList (key_service s k) else []) keys)), s)"
proof -
  have key: "\<exists>n r. k = KeyString n \<and> GetService s n = Some r \<and> key_service s k = svcs s r"
    if k: "k \<in> set keys" for k
  proof -
    obtain r where r: "Services s k = Some r" using k assms(2) by blast
    then show ?thesis
      using assms(1) unfolding services_named_def GetService_def key_service_def by (metis option.sel)
  qed
  show "go_fold message_visit acc keys s
      = (Ret (acc @ concat (map (\<lambda>k. svc_message (key_service s k)) keys)), s)"
    using key
  proof (induction keys arbitrary: acc)
    case (Cons k ks)
    obtain n r where "k = KeyString n" "GetService s n = Some r" "key_service s k = svcs s r"
      using Cons.prems [of k] by auto
    then show ?case using Cons by (simp add: message_visit_def go_eval)
  qed (simp add: go_eval)
  show "go_fold jar_visit jars keys s
      = (Ret (jars @ concat (map (\<lambda>k. if svc_ErrorMessage (key_service s k) = []
                                      then svc_JarAddrList (key_service s k) else []) keys)), s)"
    using key
  proof (induction keys arbitrary: jars)
    case (Cons k ks)
    obtain n r where "k = KeyString n" "GetService s n = Some r" "key_service s k = svcs s r"
      using Cons.prems [of k] by auto
    then show ?case using Cons by (simp add: jar_visit_def go_eval)
  qed (simp add: go_eval)
qed

text \<open>
  The message for the centre is the job's followed by those of all services in the
  order of the map, cut after 1500 bytes; building it changes nothing.
\<close>

lemma buildCallbackErrorMessage_spec:
  assumes "GetJob s p = Some r" "services_named s"
    and "range_of (Services s) (x_order E (trace s) (Services s))"
  shows "buildCallbackErrorMessage E p s =
     (let all = concat (map (\<lambda>k. svc_message (key_service s k)) (x_order E (trace s) (Services s)))
      in (Ret (take 1500 (job_message (jobs s r) @ (if all = [] then [] else all @ newline))), s))"
proof -
  let ?keys = "x_order E (trace s) (Services s)"
  let ?all = "concat (map (\<lambda>k. svc_message (key_service s k)) ?keys)"
  have "go_fold message_visit [] ?keys s = (Ret ?all, s)"
    using visit_services(1) [OF assms(2), of ?keys "[]"] assms(3) by simp
  then show ?thesis
    using assms(1) by (simp add: buildCallbackErrorMessage_def go_eval go_bind_Ret Let_def)
qed

definition all_jars :: "agent \<Rightarrow> map_key list \<Rightarrow> string list" where
  "all_jars s keys = concat (map (\<lambda>k. if svc_ErrorMessage (key_service s k) = []
                                     then svc_JarAddrList (key_service s k) else []) keys)"

text \<open>
  C29. Loading the classes hands the jars of all services without an error message, in the
  order of the map, to one run of the extraction; it fails without a run when there is no
  jar, and fails whenever the run does.
\<close>

theorem loadClassSources_spec:
  assumes "services_named s" "range_of (Services s) (x_order E (trace s) (Services s))"
  shows "let jars = all_jars s (x_order E (trace s) (Services s))
         in if jars = [] then loadClassSources E p s = (Ret (Some no_jar_error), s)
            else if x_run E (trace s) ''/bin/bash'' (extract_args jars) = None
            then loadClassSources E p s =
              (Ret None, s\<lparr>trace := trace s @ [EvRun ''/bin/bash'' (extract_args jars)]\<rparr>)
            else fst (loadClassSources E p s) \<noteq> Ret None"
proof -
  let ?keys = "x_order E (trace s) (Services s)"
  let ?jars = "all_jars s ?keys"
  have "go_fold jar_visit [] ?keys s = (Ret ?jars, s)"
    using visit_services(2) [OF assms(1), of ?keys "[]"] assms(2) by (simp add: all_jars_def)
  moreover have "fst (go_bind m (\<lambda>ce. go_ret (if ce \<noteq> None then ce else Some e)) u) \<noteq> Ret None"
    for m :: "(agent, go_error option) prog" and e u
    by (auto simp: go_bind_def go_ret_def split: prod.split res.split)
  ultimately show ?thesis
    by (auto simp: loadClassSources_def go_eval go_bind_Ret Let_def simpleRun_def)
qed

theorem loadClassSources_spec_witness:
  "loadClassSources (calm_env ok_answer (JObj []) [KeyString ''web'']) 7 one_job
     = (Ret (Some no_jar_error), one_job)"
proof -
  let ?E = "calm_env ok_answer (JObj []) [KeyString ''web'']"
  have "services_named one_job"
    by (simp add: services_named_def one_job_def web_with_pod_def)
  moreover have "range_of (Services one_job) (x_order ?E (trace one_job) (Services one_job))"
    by (simp add: range_of_def one_job_def web_with_pod_def)
  moreover have "all_jars one_job [KeyString ''web''] = []" by code_simp
  ultimately show ?thesis using loadClassSources_spec [of one_job ?E 7] by simp
qed

end
