(* ===== verification/KeyOrder.thy ===== *)
theory KeyOrder
  imports AgentState "HOL-Library.List_Lexorder" "HOL-Library.Char_ord"
begin

text \<open>
  A linear order on the keys of a \<open>sync.Map\<close>, and with it an outside whose \<open>Range\<close> visits
  every map in the order of its keys: an instance of what \<open>order_documented\<close> asks for.
\<close>

instantiation map_key :: linorder
begin

definition less_eq_map_key :: "map_key \<Rightarrow> map_key \<Rightarrow> bool" where
  "less_eq_map_key a b =
     (case a of
        KeyUint64 m \<Rightarrow> (case b of KeyUint64 n \<Rightarrow> m \<le> n | KeyString t \<Rightarrow> True)
      | KeyString s \<Rightarrow> (case b of KeyUint64 n \<Rightarrow> False | KeyString t \<Rightarrow> s \<le> t))"

definition less_map_key :: "map_key \<Rightarrow> map_key \<Rightarrow> bool" where
  "less_map_key a b = (a \<le> b \<and> \<not> b \<le> a)"

instance
  by intro_classes (auto simp: less_eq_map_key_def less_map_key_def split: map_key.splits)

end

definition sorted_env :: "outcome \<Rightarrow> json \<Rightarrow> env" where
  "sorted_env a j = (calm_env a j [])\<lparr>x_order := \<lambda>h m. sorted_list_of_set (dom m)\<rparr>"

lemma sorted_env_documented: "order_documented (sorted_env a j)"
  by (simp add: order_documented_def sorted_env_def range_of_def)

lemma sorted_env_retry: "retry_documented (sorted_env a j)"
  using calm_env_retry [of a j "[]"] by (simp add: retry_documented_def sorted_env_def)

end
