(* ===== verification/Agent.thy ===== *)
theory Agent
  imports Jobs KeyOrder
begin

text \<open>
  The agent as a whole: the handlers of the informer, the poll and the goroutines they
  start, in any order, each as one step. What holds of every state it can reach follows
  from what each operation keeps (\<open>agent_frame\<close>).
\<close>

definition documented :: "env \<Rightarrow> bool" where
  "documented E \<longleftrightarrow> retry_documented E \<and> order_documented E"

definition agent_start :: "env \<Rightarrow> agent \<Rightarrow> bool" where
  "agent_start E s \<longleftrightarrow> s = agent_init \<and> documented E"

inductive agent_step :: "env \<Rightarrow> agent \<Rightarrow> agent \<Rightarrow> bool" for E where
  watching: "agent_step E s (snd (start_watch s))"
| preloading: "agent_step E s (snd (preload E s))"
| added: "agent_step E s (snd (AddFunc E obj s))"
| updated: "agent_step E s (snd (UpdateFunc E obj s))"
| deleted: "agent_step E s (snd (DeleteFunc obj s))"
| reloaded: "agent_step E s (snd (reloadJarAddr E r s))"
| awaited: "agent_step E s (snd (awaitDelete r s))"
| polled: "agent_step E s (snd (poll_tick E s))"
| scheduled: "agent_step E s (snd (schedule_start E p s))"
| ticked: "agent_step E s (snd (schedule_tick E p r n s))"
| watched: "agent_step E s (snd (watch_tick E p s))"

inductive_cases agent_stepE: "agent_step E s t"

lemma agent_step_frame: "documented E \<Longrightarrow> agent_step E s t \<Longrightarrow> agent_frame s t"
proof (erule agent_stepE; hypsubst)
  assume "documented E"
  then have r: "retry_documented E" and o: "order_documented E" by (simp_all add: documented_def)
  note run = keeps_def [THEN iffD1, rule_format]
  show "agent_frame s (snd (start_watch s))" by (rule run [OF keeps_svc_agent [OF start_watch_frame]])
  show "agent_frame s (snd (preload E s))" by (rule run [OF keeps_svc_agent [OF preload_frame [OF r]]])
  show "agent_frame s (snd (AddFunc E obj s))" for obj
    by (rule run [OF keeps_svc_agent [OF AddFunc_frame [OF r]]])
  show "agent_frame s (snd (UpdateFunc E obj s))" for obj
    by (rule run [OF keeps_svc_agent [OF UpdateFunc_frame [OF r]]])
  show "agent_frame s (snd (DeleteFunc obj s))" for obj
    by (rule run [OF keeps_svc_agent [OF DeleteFunc_frame]])
  show "agent_frame s (snd (reloadJarAddr E q s))" for q
    by (rule run [OF keeps_svc_agent [OF reloadJarAddr_frame]])
  show "agent_frame s (snd (awaitDelete q s))" for q
    by (rule run [OF keeps_svc_agent [OF awaitDelete_frame]])
  show "agent_frame s (snd (poll_tick E s))" by (rule run [OF poll_tick_agent [OF r o]])
  show "agent_frame s (snd (schedule_start E p s))" for p by (rule run [OF schedule_start_agent [OF r]])
  show "agent_frame s (snd (schedule_tick E p q n s))" for p q n by (rule run [OF schedule_tick_agent])
  show "agent_frame s (snd (watch_tick E p s))" for p by (rule run [OF watch_tick_agent [OF r]])
qed

interpretation agent_run: machine "agent_start E" "agent_step E" "\<lambda>s. agent_ok s \<and> documented E" for E
proof unfold_locales
  show "agent_start E s \<Longrightarrow> agent_ok s \<and> documented E" for s
    by (auto simp: agent_start_def agent_init_def agent_ok_def services_ok_def services_named_def
        jobs_ok_def jobs_named_def one_live_def)
  show "agent_ok s \<and> documented E \<Longrightarrow> agent_step E s t \<Longrightarrow> agent_ok t \<and> documented E" for s t
    using agent_step_frame by (auto simp: agent_frame_def)
qed

text \<open>
  In every state the agent reaches, by any sequence of informer events, polls and turns
  of its goroutines, at most one job of the map is not cancelled, and a job is found under
  its own plan.
\<close>

lemma one_live_job:
  assumes "reach (agent_start E) (agent_step E) s"
    and "GetJob s p = Some i" "\<not> job_done (jobs s i)" "GetJob s q = Some j" "\<not> job_done (jobs s j)"
  shows "p = q \<and> i = j \<and> job_PlanID (jobs s i) = p"
proof -
  have ok: "agent_ok s" using agent_run.reach_inv [OF assms(1)] by simp
  then have "KeyUint64 p = KeyUint64 q"
    using assms(2-5) unfolding agent_ok_def one_live_def GetJob_def by blast
  then show ?thesis
    using ok assms(2,4) unfolding agent_ok_def jobs_ok_def jobs_named_def GetJob_def by auto
qed

definition poll_json :: json where
  "poll_json = JObj [(''success'', JBool True),
     (''data'', JObj [(''planID'', JNum 8), (''status'', JStr ''running'')])]"

definition polled_once :: agent where
  "polled_once = snd (poll_tick (sorted_env ok_answer poll_json) agent_init)"

lemma sorted_start: "agent_start (sorted_env a j) agent_init"
  by (simp add: agent_start_def documented_def sorted_env_documented sorted_env_retry)

lemma polled_once_step:
  "agent_step (sorted_env ok_answer poll_json) agent_init polled_once"
  unfolding polled_once_def by (rule polled)

lemma polled_once_reached:
  "reach (agent_start (sorted_env ok_answer poll_json)) (agent_step (sorted_env ok_answer poll_json)) polled_once"
  by (rule reach_step [where s = agent_init], rule reach_init, rule sorted_start, rule polled_once_step)

text \<open>
  C8. From a reached state on, whatever happens: the plan of a job never changes, a
  cancelled job stays cancelled, a service never leaves the map of services, and a service
  is found under its own name.
\<close>

theorem agent_ages:
  assumes "reach (agent_start E) (agent_step E) s" "steps (agent_step E) n s t"
  shows "objects_age s t \<and> services_ok t"
proof -
  have ok: "agent_ok s \<and> documented E" using agent_run.reach_inv [OF assms(1)] .
  have "agent_frame s t"
    using assms(2) ok
  proof (induction rule: steps.induct)
    case (steps_0 s)
    show ?case by (rule agent_ops.R_refl)
  next
    case (steps_Suc s t n u)
    then have "agent_frame s t" using agent_step_frame by blast
    moreover have "agent_ok t" using calculation steps_Suc.prems by (simp add: agent_frame_def)
    ultimately show ?case using steps_Suc agent_ops.R_trans by blast
  qed
  then show ?thesis using ok by (simp add: agent_frame_def agent_ok_def)
qed

theorem agent_ages_witness:
  "objects_age agent_init polled_once \<and> services_ok polled_once"
  by (rule agent_ages, rule reach_init, rule sorted_start,
      rule steps_Suc, rule polled_once_step, rule steps_0)

end
