(* ===== verification/AgentProcess.thy ===== *)
theory AgentProcess
  imports Agent Goroutines
begin

text \<open>
  The process of the agent: \<open>main\<close> (\<open>agent/cmd/main.go\<close>) and every goroutine it starts, as
  lists of actions that interleave at the locks, the sleeps and the calls of one another.
  A \<open>go\<close> statement inside an action is an event of the trace, from which the new goroutine
  is made. In \<open>Agent\<close> a turn of a goroutine is one step; here it is a run of actions
  (\<open>turns_are_runs\<close>), between which the others may act.
\<close>

subsection \<open>Actions\<close>

datatype action =
    StartMain
  | AwaitCancel                       \<comment> \<open>waits for a context that nobody cancels\<close>
  | Preloading                        \<comment> \<open>the goroutine of \<open>WatchJacocoPod\<close>\<close>
  | Informing                         \<comment> \<open>\<open>controller.Run\<close>: it calls the handlers\<close>
  | AwaitPreload                      \<comment> \<open>\<open>WatchJob\<close> before its loop\<close>
  | Polling                           \<comment> \<open>the loop of \<open>WatchJob\<close>\<close>
  | Scheduling uint64                 \<comment> \<open>\<open>schedulingJob\<close>\<close>
  | LoadingSources uint64
  | TellingReady uint64
  | MarkingReady uint64
  | DumpLoop uint64 nat nat           \<comment> \<open>its loop, with the job and \<open>loopTimes\<close>\<close>
  | Watching uint64                   \<comment> \<open>the loop of the goroutine it starts\<close>
  | RemovingPlan uint64
  | Pausing uint64
  | Reporting uint64                  \<comment> \<open>\<open>report\<close>\<close>
  | TakeForProject uint64 nat "(string \<times> string) list"
  | InProject uint64 nat "(string \<times> string) list"
  | SendingReport uint64 string
  | Failing uint64 string             \<comment> \<open>\<open>callbackEndWithMessage\<close>\<close>
  | Dumping uint64                    \<comment> \<open>\<open>dumpExec\<close>\<close>
  | TakeForDump uint64 nat
  | InDump uint64 nat
  | Merging uint64 "nat option"       \<comment> \<open>\<open>mergeAllSvcExec\<close>; a report goes on with its job\<close>
  | TakeForMerge uint64 nat "nat option"
  | InMerge uint64 nat "nat option"
  | GiveBack nat                      \<comment> \<open>\<open>job.DumpLock.Unlock()\<close>\<close>
  | AwaitingDelete nat                \<comment> \<open>the goroutine of a new service\<close>
  | Reloading nat                     \<comment> \<open>\<open>reloadJarAddr\<close>\<close>
  | InReload nat
  | GiveBackLoad nat

text \<open>What a \<open>select\<close> takes, or which event the informer delivers.\<close>

datatype choice = Plain | Cancelled
  | OnAdd "deployment option" | OnUpdate "deployment option" | OnDelete "deployment option"

text \<open>The part of \<open>report\<close> between the lock and its release.\<close>

definition merge_project :: "env \<Rightarrow> (string \<times> string) list \<Rightarrow> (agent, go_error + string) prog" where
  "merge_project E svcExecMap =
     (if svcExecMap = [] then go_ret (Inl no_dump_error)
      else
        go_bind (os_CreateTemp E [] ''_project_.exec'') (\<lambda>f.
          case f of
            Inl e \<Rightarrow> go_ret (Inl (''create project exec dump file error '' @ e))
          | Inr projectExec \<Rightarrow>
              go_bind (go_get (\<lambda>s. x_shuffle E (trace s) (map snd svcExecMap))) (\<lambda>svcExecList.
              go_bind (mergeExec E projectExec svcExecList) (\<lambda>err.
                case err of
                  Some e \<Rightarrow> go_ret (Inl (''merge all svc exec dump error '' @ e))
                | None \<Rightarrow> go_ret (Inr projectExec)))))"

definition act_informing :: "env \<Rightarrow> choice \<Rightarrow> (agent, action list) prog" where
  "act_informing E c =
     (case c of
        OnAdd obj \<Rightarrow> go_seq (AddFunc E obj) (go_ret [Informing])
      | OnUpdate obj \<Rightarrow> go_seq (UpdateFunc E obj) (go_ret [Informing])
      | OnDelete obj \<Rightarrow> go_seq (DeleteFunc obj) (go_ret [Informing])
      | _ \<Rightarrow> go_block)"

definition act_scheduling :: "env \<Rightarrow> uint64 \<Rightarrow> (agent, action list) prog" where
  "act_scheduling E planID =
     go_bind (go_get (\<lambda>s. GetJob s planID)) (\<lambda>found.
       case found of
         None \<Rightarrow> go_ret []
       | Some r \<Rightarrow>
           go_bind (go_get (\<lambda>s. job_JobStatus (jobs s r))) (\<lambda>st.
             if st \<noteq> Running then go_ret []
             else
               go_bind (Exists E (GenPlanDumpExecDir planID)) (\<lambda>there.
               go_bind (if there then go_ret None else os_Mkdir E (GenPlanDumpExecDir planID)) (\<lambda>err.
                 if err \<noteq> None then go_ret [] else go_ret [LoadingSources planID]))))"

definition act_ready :: "env \<Rightarrow> uint64 \<Rightarrow> (agent, action list) prog" where
  "act_ready E planID =
     go_bind (x_retry E (go_bind (buildCallbackErrorMessage E planID) (callbackReady E planID))) (\<lambda>err.
       case err of
         Some e \<Rightarrow> go_ret [Failing planID (''callback ready error '' @ e)]
       | None \<Rightarrow> go_ret [MarkingReady planID])"

definition act_marking :: "uint64 \<Rightarrow> (agent, action list) prog" where
  "act_marking planID =
     go_bind (go_get (\<lambda>s. GetJob s planID)) (\<lambda>found.
       case found of
         None \<Rightarrow> go_ret []
       | Some r \<Rightarrow>
           go_seq (go_mod (upd_job r (\<lambda>j. j\<lparr>job_JobStatus := Ready\<rparr>)))
           (go_seq (go_mod (SetJob planID r)) (go_ret [DumpLoop planID r 1])))"

text \<open>
  The \<open>select\<close> of the loop: the end of the job's context, or five minutes. When both are
  ready Go takes either.
\<close>

definition act_loop :: "choice \<Rightarrow> uint64 \<Rightarrow> nat \<Rightarrow> nat \<Rightarrow> (agent, action list) prog" where
  "act_loop c planID r loopTimes =
     (case c of
        Cancelled \<Rightarrow> go_bind (go_get (\<lambda>s. job_done (jobs s r))) (\<lambda>cancelled.
          if cancelled then go_ret [] else go_block)
      | _ \<Rightarrow> go_seq (time_Sleep 300) (go_ret (Dumping planID #
          (if Suc loopTimes > 10 then [Merging planID None, DumpLoop planID r 1]
           else [DumpLoop planID r (Suc loopTimes)]))))"

definition act_watching :: "uint64 \<Rightarrow> (agent, action list) prog" where
  "act_watching planID =
     go_bind (go_get (\<lambda>s. GetJob s planID)) (\<lambda>found.
       case found of
         None \<Rightarrow> go_ret []
       | Some r \<Rightarrow>
           go_bind (go_get (\<lambda>s. job_done (jobs s r))) (\<lambda>cancelled.
             if cancelled then go_seq (time_Sleep 300) (go_ret [RemovingPlan planID])
             else
               go_bind (go_get (\<lambda>s. job_Status (jobs s r))) (\<lambda>st.
                 if is_terminal st then go_seq (cancel_job r) (go_ret [])
                 else if st = EndingStatus then go_ret [Reporting planID, Pausing planID]
                 else go_ret [Pausing planID])))"

definition act_reporting :: "uint64 \<Rightarrow> (agent, action list) prog" where
  "act_reporting planID =
     go_bind (go_get (\<lambda>s. GetJob s planID)) (\<lambda>found.
       case found of
         None \<Rightarrow> go_ret []
       | Some job \<Rightarrow>
           go_bind (go_get (\<lambda>s. job_Status (jobs s job))) (\<lambda>st.
             if st \<noteq> EndingStatus then go_ret []
             else go_ret [Dumping planID, Merging planID (Some job)]))"

definition after_merge :: "uint64 \<Rightarrow> nat option \<Rightarrow> (string \<times> string) list \<Rightarrow> action list" where
  "after_merge planID rep svcExecMap =
     (case rep of None \<Rightarrow> [] | Some job \<Rightarrow> [TakeForProject planID job svcExecMap])"

definition report_failed :: "uint64 \<Rightarrow> go_error option \<Rightarrow> action list" where
  "report_failed planID err = (case err of None \<Rightarrow> [] | Some e \<Rightarrow> [Failing planID (report_error e)])"

primrec act :: "env \<Rightarrow> choice \<Rightarrow> action \<Rightarrow> (agent, action list) prog" where
  "act E c StartMain = go_seq start_watch (go_ret [AwaitCancel])"
| "act E c AwaitCancel = go_block"
| "act E c Preloading = go_bind (preload E) (\<lambda>ok. go_ret (if ok then [Informing] else []))"
| "act E c Informing = act_informing E c"
| "act E c AwaitPreload = go_seq await_preload (go_ret [Polling])"
| "act E c Polling = go_seq (poll_tick E) (go_ret [Polling])"
| "act E c (Scheduling p) = act_scheduling E p"
| "act E c (LoadingSources p) = go_bind (loadClassSources E p) (\<lambda>err. go_ret (case err of
     Some e \<Rightarrow> [Failing p (''loadClassSources error '' @ e)] | None \<Rightarrow> [Dumping p, TellingReady p]))"
| "act E c (TellingReady p) = act_ready E p"
| "act E c (MarkingReady p) = act_marking p"
| "act E c (DumpLoop p r n) = act_loop c p r n"
| "act E c (Watching p) = act_watching p"
| "act E c (RemovingPlan p) = go_seq (simpleRun E ''rm'' [''-rf'', GenPlanDumpExecDir p])
     (go_seq (go_mod (DeleteJob p)) (go_ret []))"
| "act E c (Pausing p) = go_seq (time_Sleep 30) (go_ret [Watching p])"
| "act E c (Reporting p) = act_reporting p"
| "act E c (TakeForProject p r m) = go_seq (lock_dump r) (go_ret [InProject p r m])"
| "act E c (InProject p r m) = go_bind (merge_project E m) (\<lambda>res. go_ret (case res of
     Inl e \<Rightarrow> report_failed p (Some e) | Inr f \<Rightarrow> [GiveBack r, SendingReport p f]))"
| "act E c (SendingReport p f) = go_bind (report_xml E p f) (\<lambda>err. go_ret (report_failed p err))"
| "act E c (Failing p msg) = go_seq (callbackEndWithMessage E p msg) (go_ret [])"
| "act E c (Dumping p) = go_bind (go_get (\<lambda>s. GetJob s p)) (\<lambda>found. go_ret (case found of
     None \<Rightarrow> [] | Some r \<Rightarrow> [TakeForDump p r]))"
| "act E c (TakeForDump p r) = go_seq (lock_dump r) (go_ret [InDump p r])"
| "act E c (InDump p r) = go_seq (dump_round E p r) (go_ret [GiveBack r])"
| "act E c (Merging p rep) = go_bind (go_get (\<lambda>s. GetJob s p)) (\<lambda>found. go_ret (case found of
     None \<Rightarrow> after_merge p rep [] | Some r \<Rightarrow> [TakeForMerge p r rep]))"
| "act E c (TakeForMerge p r rep) = go_seq (lock_dump r) (go_ret [InMerge p r rep])"
| "act E c (InMerge p r rep) = go_bind (merge_round E p r) (\<lambda>m. go_ret (GiveBack r # after_merge p rep m))"
| "act E c (GiveBack r) = go_seq (unlock_dump r) (go_ret [])"
| "act E c (AwaitingDelete r) = go_seq (awaitDelete r) (go_ret [])"
| "act E c (Reloading r) = go_seq (lock_load r) (go_ret [InReload r])"
| "act E c (InReload r) = go_seq (reload_body E r) (go_ret [GiveBackLoad r])"
| "act E c (GiveBackLoad r) = go_seq (unlock_load r) (go_ret [])"

text \<open>The \<open>go\<close> statements: those of \<open>main\<close> and \<open>schedulingJob\<close>, and the events of the trace.\<close>

fun born :: "event \<Rightarrow> action list list" where
  "born (EvGo (GoScheduling p)) = [[Scheduling p]]"
| "born (EvGo (GoAwaitDelete r)) = [[AwaitingDelete r]]"
| "born (EvGo (GoReloadJar r)) = [[Reloading r]]"
| "born _ = []"

definition spawned :: "action \<Rightarrow> agent \<Rightarrow> agent \<Rightarrow> action list list" where
  "spawned a s t =
     (case a of StartMain \<Rightarrow> [[Preloading], [AwaitPreload]] | Scheduling p \<Rightarrow> [[Watching p]] | _ \<Rightarrow> [])
     @ concat (map born (drop (length (trace s)) (trace t)))"

abbreviation process_step :: "env \<Rightarrow> (agent, action) process \<Rightarrow> (agent, action) process \<Rightarrow> bool" where
  "process_step E \<equiv> pool_step (act E) spawned"

definition main_start :: "env \<Rightarrow> (agent, action) process \<Rightarrow> bool" where
  "main_start E P \<longleftrightarrow> start_process agent_init [StartMain] P \<and> documented E"

subsection \<open>Turns of goroutines are runs of actions\<close>

lemma solo_one: "act E c i s = (Ret js, t) \<Longrightarrow> solo (act E) (i # is, s) (js @ is, t)"
  by (rule solo_act) (auto intro: solo_stop)

lemma solo_step:
  "solo (act E) (js @ is, t) x \<Longrightarrow> act E Plain i s = (Ret js, t) \<Longrightarrow> solo (act E) (i # is, s) x"
  by (rule solo_act)

lemma solo_last: "act E Plain i s = (Ret [], t) \<Longrightarrow> solo (act E) ([i], s) ([], t)"
  using solo_one [of E Plain i s "[]" t "[]"] by simp

lemma solo_head: "solo (act E) (js, t) x \<Longrightarrow> act E Plain i s = (Ret js, t) \<Longrightarrow> solo (act E) ([i], s) x"
  by (rule solo_act) simp_all

lemma defer_cases:
  assumes "go_defer fin body s = (Ret a, t)"
  obtains u where "body s = (Ret a, u)" "fin u = (Ret (), t)"
  using assms by (auto simp: go_defer_def go_seq_def go_bind_def go_ret_def go_panic_def
      split: prod.splits res.splits)

lemma seq_cases:
  assumes "go_seq m n s = (Ret b, t)"
  obtains a u where "m s = (Ret a, u)" "n u = (Ret b, t)"
  using assms unfolding go_seq_def by (rule go_bind_cases)

text \<open>A section: it is entered by one action, runs as one, and gives the lock back by one.\<close>

lemma dump_solo:
  assumes "dumpExec E p s = (Ret u, t)" shows "solo (act E) ([Dumping p], s) ([], t)"
proof (cases "GetJob s p")
  case None
  then show ?thesis using assms by (intro solo_last) (simp add: dumpExec_def go_eval)
next
  case (Some r)
  then have "go_seq (lock_dump r) (go_defer (unlock_dump r) (dump_round E p r)) s = (Ret u, t)"
    using assms by (simp add: dumpExec_def go_eval)
  then obtain a s1 where l: "lock_dump r s = (Ret a, s1)"
    and d: "go_defer (unlock_dump r) (dump_round E p r) s1 = (Ret u, t)" by (rule seq_cases)
  from d obtain s2 where b: "dump_round E p r s1 = (Ret u, s2)" "unlock_dump r s2 = (Ret (), t)"
    by (rule defer_cases)
  have "solo (act E) ([GiveBack r], s2) ([], t)" by (rule solo_last) (simp add: go_eval b)
  then have "solo (act E) ([InDump p r], s1) ([], t)" by (rule solo_head) (simp add: go_eval b)
  then have "solo (act E) ([TakeForDump p r], s) ([], t)" by (rule solo_head) (simp add: go_eval l)
  then show ?thesis by (rule solo_head) (simp add: go_eval Some)
qed

lemma merge_solo:
  assumes "mergeAllSvcExec E p s = (Ret m, t)"
  shows "solo (act E) ([Merging p rep], s) (after_merge p rep m, t)"
proof (cases "GetJob s p")
  case None
  then have "m = []" "t = s" using assms by (simp_all add: mergeAllSvcExec_def go_eval)
  then show ?thesis
    using None solo_one [of E Plain "Merging p rep" s "after_merge p rep []" s "[]"] by (simp add: go_eval)
next
  case (Some r)
  then have "go_seq (lock_dump r) (go_defer (unlock_dump r) (merge_round E p r)) s = (Ret m, t)"
    using assms by (simp add: mergeAllSvcExec_def go_eval)
  then obtain a s1 where l: "lock_dump r s = (Ret a, s1)"
    and d: "go_defer (unlock_dump r) (merge_round E p r) s1 = (Ret m, t)" by (rule seq_cases)
  from d obtain s2 where b: "merge_round E p r s1 = (Ret m, s2)" "unlock_dump r s2 = (Ret (), t)"
    by (rule defer_cases)
  have "solo (act E) (GiveBack r # after_merge p rep m, s2) (after_merge p rep m, t)"
    using solo_one [of E Plain "GiveBack r" s2 "[]" t] by (simp add: go_eval b)
  then have "solo (act E) ([InMerge p r rep], s1) (after_merge p rep m, t)"
    by (rule solo_head) (simp add: go_eval b)
  then have "solo (act E) ([TakeForMerge p r rep], s) (after_merge p rep m, t)"
    by (rule solo_head) (simp add: go_eval l)
  then show ?thesis by (rule solo_head) (simp add: go_eval Some)
qed

lemma report_merge_parts:
  "report_merge E r m = go_seq (lock_dump r) (go_bind (merge_project E m) (\<lambda>res.
     case res of Inl e \<Rightarrow> go_ret (Inl e) | Inr f \<Rightarrow> go_seq (unlock_dump r) (go_ret (Inr f))))"
proof -
  have "(if m = [] then go_ret (Inl no_dump_error)
        else
          go_bind (os_CreateTemp E [] ''_project_.exec'') (\<lambda>f.
            case f of
              Inl e \<Rightarrow> go_ret (Inl (''create project exec dump file error '' @ e))
            | Inr projectExec \<Rightarrow>
                go_bind (go_get (\<lambda>s. x_shuffle E (trace s) (map snd m))) (\<lambda>svcExecList.
                go_bind (mergeExec E projectExec svcExecList) (\<lambda>err.
                  case err of
                    Some e \<Rightarrow> go_ret (Inl (''merge all svc exec dump error '' @ e))
                  | None \<Rightarrow> go_seq (unlock_dump r) (go_ret (Inr projectExec))))))
      = go_bind (merge_project E m) (\<lambda>res. case res of Inl e \<Rightarrow> go_ret (Inl e)
          | Inr f \<Rightarrow> go_seq (unlock_dump r) (go_ret (Inr f)))"
    unfolding merge_project_def
    by (auto simp: go_bind_ret go_bind_assoc fun_eq_iff os_CreateTemp_def mergeExec_def simpleRun_def
        go_eval split: sum.split option.split)
  then show ?thesis unfolding report_merge_def by (rule arg_cong)
qed

lemma report_solo:
  assumes "report E p s = (Ret err, t)"
  shows "solo (act E) ([Reporting p], s) (report_failed p err, t)"
proof (cases "GetJob s p")
  case None
  then show ?thesis
    using assms solo_last [of E "Reporting p" s t]
    by (auto simp: report_def act_reporting_def report_failed_def go_eval)
next
  case (Some job)
  show ?thesis
  proof (cases "job_Status (jobs s job) = EndingStatus")
    case False
    then show ?thesis
      using Some assms solo_last [of E "Reporting p" s t]
      by (auto simp: report_def act_reporting_def report_failed_def go_eval)
  next
    case True
    then have "go_seq (dumpExec E p) (go_bind (mergeAllSvcExec E p) (\<lambda>m.
        go_bind (report_merge E job m) (\<lambda>r.
          case r of Inl e \<Rightarrow> go_ret (Some e) | Inr f \<Rightarrow> report_xml E p f))) s = (Ret err, t)"
      using Some assms by (simp add: report_def go_eval)
    then obtain a s1 where d: "dumpExec E p s = (Ret a, s1)" and
      "go_bind (mergeAllSvcExec E p) (\<lambda>m. go_bind (report_merge E job m) (\<lambda>r.
          case r of Inl e \<Rightarrow> go_ret (Some e) | Inr f \<Rightarrow> report_xml E p f)) s1 = (Ret err, t)"
      by (rule seq_cases)
    from this(2) obtain m s2 where m: "mergeAllSvcExec E p s1 = (Ret m, s2)" and
      "go_bind (report_merge E job m) (\<lambda>r.
          case r of Inl e \<Rightarrow> go_ret (Some e) | Inr f \<Rightarrow> report_xml E p f) s2 = (Ret err, t)"
      by (rule go_bind_cases)
    from this(2) obtain r s3 where r: "report_merge E job m s2 = (Ret r, s3)" and
      x: "(case r of Inl e \<Rightarrow> go_ret (Some e) | Inr f \<Rightarrow> report_xml E p f) s3 = (Ret err, t)"
      by (rule go_bind_cases)
    from r obtain u s4 where l: "lock_dump job s2 = (Ret u, s4)" and
      "go_bind (merge_project E m) (\<lambda>res. case res of Inl e \<Rightarrow> go_ret (Inl e)
         | Inr f \<Rightarrow> go_seq (unlock_dump job) (go_ret (Inr f))) s4 = (Ret r, s3)"
      unfolding report_merge_parts by (rule seq_cases)
    from this(2) obtain q s5 where q: "merge_project E m s4 = (Ret q, s5)" and
      g: "(case q of Inl e \<Rightarrow> go_ret (Inl e)
         | Inr f \<Rightarrow> go_seq (unlock_dump job) (go_ret (Inr f))) s5 = (Ret r, s3)"
      by (rule go_bind_cases)
    have "solo (act E) ([InProject p job m], s4) (report_failed p err, t)"
    proof (cases q)
      case (Inl e)
      then have "err = Some e" "s5 = t" using g x by (auto simp: go_eval)
      then show ?thesis
        using solo_one [of E Plain "InProject p job m" s4 _ s5 "[]"] q Inl by (simp add: go_eval)
    next
      case (Inr f)
      then have un: "unlock_dump job s5 = (Ret (), s3)" "r = Inr f"
        using g by (auto elim!: seq_cases simp: go_ret_def)
      then have "report_xml E p f s3 = (Ret err, t)" using x by simp
      then have "solo (act E) ([SendingReport p f], s3) (report_failed p err, t)"
        using solo_one [of E Plain "SendingReport p f" s3 _ t "[]"] by (simp add: go_eval)
      then have "solo (act E) ([GiveBack job, SendingReport p f], s5) (report_failed p err, t)"
        by (intro solo_step [where js = "[]"]) (simp_all add: go_eval un)
      then show ?thesis by (rule solo_head) (simp add: go_eval q Inr)
    qed
    then have "solo (act E) ([TakeForProject p job m], s2) (report_failed p err, t)"
      by (rule solo_head) (simp add: go_eval l)
    then have "solo (act E) ([Merging p (Some job)], s1) (report_failed p err, t)"
      using merge_solo [OF m, of "Some job"] by (auto simp: after_merge_def intro: solo_trans)
    from solo_then [OF dump_solo [OF d] this]
    have "solo (act E) ([Dumping p, Merging p (Some job)], s) (report_failed p err, t)" by simp
    then show ?thesis by (rule solo_head) (simp add: act_reporting_def go_eval Some True)
  qed
qed

lemma fail_solo:
  assumes "callbackEndWithMessage E p msg s = (Ret u, t)"
  shows "solo (act E) ([Failing p msg], s) ([], t)"
  by (rule solo_last) (simp add: go_eval assms)

lemma watch_solo:
  assumes "watch_tick E p s = (Ret again, t)"
  shows "solo (act E) ([Watching p], s) (if again then [Watching p] else [], t)"
proof (cases "GetJob s p")
  case None
  then have "\<not> again" "t = s" using assms by (simp_all add: watch_tick_def go_eval)
  then show ?thesis using None by (auto simp: act_watching_def go_eval intro: solo_last)
next
  case (Some r)
  consider "job_done (jobs s r)" | "\<not> job_done (jobs s r)" "is_terminal (job_Status (jobs s r))"
    | "\<not> job_done (jobs s r)" "\<not> is_terminal (job_Status (jobs s r))" by blast
  then show ?thesis
  proof cases
    case 1
    let ?s1 = "s\<lparr>trace := trace s @ [EvSleep 300]\<rparr>"
    have "\<not> again" "go_seq (simpleRun E ''rm'' [''-rf'', GenPlanDumpExecDir p])
        (go_seq (go_mod (DeleteJob p)) (go_ret [])) ?s1 = (Ret [], t)"
      using assms Some 1 by (auto simp: watch_tick_def go_eval time_Sleep_def simpleRun_def)
    then have "\<not> again" "solo (act E) ([RemovingPlan p], ?s1) ([], t)" by (auto intro: solo_last)
    then show ?thesis
      using Some 1 by (auto simp: act_watching_def go_eval time_Sleep_def intro: solo_head)
  next
    case 2
    then have "\<not> again" "act E Plain (Watching p) s = (Ret [], t)"
      using assms Some by (auto simp: watch_tick_def act_watching_def cancel_job_def go_eval)
    then show ?thesis by (simp add: solo_last)
  next
    case 3
    let ?work = "if job_Status (jobs s r) = EndingStatus then go_bind (report E p) (\<lambda>err.
        case err of None \<Rightarrow> go_ret () | Some e \<Rightarrow> callbackEndWithMessage E p (report_error e)) else go_ret ()"
    have "go_seq ?work (go_seq (time_Sleep 30) (go_ret True)) s = (Ret again, t)"
      using assms Some 3 by (simp add: watch_tick_def go_eval)
    then obtain a s1 where w: "?work s = (Ret a, s1)"
      and z: "go_seq (time_Sleep 30) (go_ret True) s1 = (Ret again, t)" by (rule seq_cases)
    have again: "again" and pause: "solo (act E) ([Pausing p], s1) ([Watching p], t)"
      using z solo_one [of E Plain "Pausing p" s1 "[Watching p]" t "[]"]
      by (simp_all add: time_Sleep_def go_eval)
    show ?thesis
    proof (cases "job_Status (jobs s r) = EndingStatus")
      case False
      then have "s1 = s" using w by (simp add: go_eval)
      then show ?thesis
        using again pause Some 3 False by (auto simp: act_watching_def go_eval intro: solo_head)
    next
      case True
      then obtain err s2 where "report E p s = (Ret err, s2)" and
        f: "(case err of None \<Rightarrow> go_ret () | Some e \<Rightarrow> callbackEndWithMessage E p (report_error e)) s2
              = (Ret a, s1)"
        using w by (auto elim: go_bind_cases)
      then have "solo (act E) ([Reporting p], s) (report_failed p err, s2)" by (intro report_solo)
      moreover have "solo (act E) (report_failed p err, s2) ([], s1)"
        using f by (cases err) (auto simp: report_failed_def go_eval intro: solo_stop fail_solo)
      ultimately have "solo (act E) ([Reporting p, Pausing p], s) ([Watching p], t)"
        using solo_then [OF solo_trans pause] by fastforce
      then show ?thesis
        using again Some 3 True by (auto simp: act_watching_def go_eval intro: solo_head)
    qed
  qed
qed

text \<open>The dump loop, and the way to it.\<close>

lemma tick_solo:
  assumes "schedule_tick E p r n s = (Ret next, t)"
  shows "solo (act E) ([DumpLoop p r n], s)
    (case next of None \<Rightarrow> [] | Some m \<Rightarrow> [DumpLoop p r m], t)"
proof (cases "job_done (jobs s r)")
  case True
  then have "next = None" "act E Cancelled (DumpLoop p r n) s = (Ret [], t)"
    using assms by (simp_all add: schedule_tick_def act_loop_def go_eval)
  then show ?thesis using solo_one [of E Cancelled "DumpLoop p r n" s "[]" t "[]"] by simp
next
  case False
  let ?s1 = "s\<lparr>trace := trace s @ [EvSleep 300]\<rparr>"
  let ?code = "if Suc n > 10 then [Merging p None, DumpLoop p r 1] else [DumpLoop p r (Suc n)]"
  have "go_seq (dumpExec E p) (if Suc n > 10
      then go_bind (mergeAllSvcExec E p) (\<lambda>m. go_ret (Some 1)) else go_ret (Some (Suc n))) ?s1 = (Ret next, t)"
    using assms False by (simp add: schedule_tick_def time_Sleep_def go_eval)
  then obtain a s2 where d: "dumpExec E p ?s1 = (Ret a, s2)" and
    z: "(if Suc n > 10 then go_bind (mergeAllSvcExec E p) (\<lambda>m. go_ret (Some 1))
         else go_ret (Some (Suc n))) s2 = (Ret next, t)" by (rule seq_cases)
  have "solo (act E) (?code, s2) (case next of None \<Rightarrow> [] | Some m \<Rightarrow> [DumpLoop p r m], t)"
  proof (cases "Suc n > 10")
    case True
    then obtain m where "mergeAllSvcExec E p s2 = (Ret m, t)" "next = Some 1"
      using z by (auto simp: go_ret_def elim: go_bind_cases)
    then have "solo (act E) ([Merging p None], s2) ([], t)" "next = Some 1"
      using merge_solo [of E p s2 m t None] by (simp_all add: after_merge_def)
    then show ?thesis using True solo_append [of "act E" "([Merging p None], s2)" "([], t)"] by fastforce
  qed (use z in \<open>auto simp: go_eval intro: solo_stop\<close>)
  from solo_then [OF dump_solo [OF d] this]
  have "solo (act E) (Dumping p # ?code, ?s1) (case next of None \<Rightarrow> [] | Some m \<Rightarrow> [DumpLoop p r m], t)"
    by simp
  then show ?thesis by (rule solo_head) (simp add: act_loop_def time_Sleep_def go_eval)
qed

definition loop_of :: "uint64 \<Rightarrow> nat option \<Rightarrow> action list" where
  "loop_of p found = (case found of None \<Rightarrow> [] | Some r \<Rightarrow> [DumpLoop p r 1])"

lemma ready_solo:
  assumes "schedule_ready E p s = (Ret res, t)"
  shows "solo (act E) ([Dumping p, TellingReady p], s) (loop_of p res, t)"
proof -
  let ?tell = "x_retry E (go_bind (buildCallbackErrorMessage E p) (callbackReady E p))"
  let ?mark = "go_bind (go_get (\<lambda>s. GetJob s p)) (\<lambda>found.
             case found of None \<Rightarrow> go_ret None
             | Some r \<Rightarrow> go_seq (go_mod (upd_job r (\<lambda>j. j\<lparr>job_JobStatus := Ready\<rparr>)))
                 (go_seq (go_mod (SetJob p r)) (go_ret (Some r))))"
  from assms obtain a s1 where d: "dumpExec E p s = (Ret a, s1)" and
    "go_bind ?tell (\<lambda>err. case err of
         Some e \<Rightarrow> go_seq (callbackEndWithMessage E p (''callback ready error '' @ e)) (go_ret None)
       | None \<Rightarrow> ?mark) s1 = (Ret res, t)" unfolding schedule_ready_def by (rule seq_cases)
  from this(2) obtain err s2 where tell: "?tell s1 = (Ret err, s2)" and
    z: "(case err of
         Some e \<Rightarrow> go_seq (callbackEndWithMessage E p (''callback ready error '' @ e)) (go_ret None)
       | None \<Rightarrow> ?mark) s2 = (Ret res, t)" by (rule go_bind_cases)
  have "solo (act E) ([TellingReady p], s1) (loop_of p res, t)"
  proof (cases err)
    case (Some e)
    then obtain u where "callbackEndWithMessage E p (''callback ready error '' @ e) s2 = (Ret u, t)" "res = None"
      using z by (auto simp: go_ret_def elim: seq_cases)
    then have "solo (act E) ([Failing p (''callback ready error '' @ e)], s2) (loop_of p res, t)"
      by (simp add: fail_solo loop_of_def)
    then show ?thesis by (rule solo_head) (use tell Some in \<open>simp add: act_ready_def go_eval\<close>)
  next
    case None
    then have "act E Plain (MarkingReady p) s2 = (Ret (loop_of p res), t)"
      using z by (auto simp: act_marking_def loop_of_def go_eval split: option.splits)
    from solo_one [OF this, of "[]"] have "solo (act E) ([MarkingReady p], s2) (loop_of p res, t)" by simp
    then show ?thesis by (rule solo_head) (use tell None in \<open>simp add: act_ready_def go_eval\<close>)
  qed
  from solo_then [OF dump_solo [OF d] this] show ?thesis by simp
qed

lemma start_solo:
  assumes "schedule_start E p s = (Ret res, t)"
  shows "solo (act E) ([Scheduling p], s) (loop_of p res, t)"
proof (cases "GetJob s p")
  case None
  then have "res = None" "act E Plain (Scheduling p) s = (Ret [], t)"
    using assms by (simp_all add: schedule_start_def act_scheduling_def go_eval)
  then show ?thesis by (simp add: loop_of_def solo_last)
next
  case (Some r)
  let ?dir = "GenPlanDumpExecDir p"
  let ?mkdir = "go_bind (Exists E ?dir) (\<lambda>there. if there then go_ret None else os_Mkdir E ?dir)"
  show ?thesis
  proof (cases "job_JobStatus (jobs s r) = Running")
    case False
    then have "res = None" "act E Plain (Scheduling p) s = (Ret [], t)"
      using Some assms by (simp_all add: schedule_start_def act_scheduling_def go_eval)
    then show ?thesis by (simp add: loop_of_def solo_last)
  next
    case True
    then have "go_bind ?mkdir (\<lambda>err. if err \<noteq> None then go_ret None else schedule_load E p) s = (Ret res, t)"
      using Some assms by (simp add: schedule_start_def go_eval go_bind_assoc)
    then obtain err s1 where made: "?mkdir s = (Ret err, s1)" and
      z: "(if err \<noteq> None then go_ret None else schedule_load E p) s1 = (Ret res, t)"
      by (rule go_bind_cases)
    have "act E Plain (Scheduling p) s =
        go_bind ?mkdir (\<lambda>err. if err \<noteq> None then go_ret [] else go_ret [LoadingSources p]) s"
      using Some True by (simp add: act_scheduling_def go_eval go_bind_assoc)
    then have act: "act E Plain (Scheduling p) s = (Ret (if err \<noteq> None then [] else [LoadingSources p]), s1)"
      unfolding go_bind_def [of ?mkdir] by (simp add: made go_eval)
    show ?thesis
    proof (cases err)
      case (Some e)
      then have "res = None" "s1 = t" using z by (simp_all add: go_eval)
      then show ?thesis using act Some by (simp add: loop_of_def solo_last)
    next
      case None
      then obtain le s2 where le: "loadClassSources E p s1 = (Ret le, s2)" and
        y: "(case le of Some e \<Rightarrow> go_seq (callbackEndWithMessage E p (''loadClassSources error '' @ e)) (go_ret None)
             | None \<Rightarrow> schedule_ready E p) s2 = (Ret res, t)"
        using z by (auto simp: schedule_load_def elim: go_bind_cases)
      have "solo (act E) ([LoadingSources p], s1) (loop_of p res, t)"
      proof (cases le)
        case (Some e)
        then obtain u where "callbackEndWithMessage E p (''loadClassSources error '' @ e) s2 = (Ret u, t)" "res = None"
          using y by (auto simp: go_ret_def elim: seq_cases)
        then have "solo (act E) ([Failing p (''loadClassSources error '' @ e)], s2) (loop_of p res, t)"
          by (simp add: fail_solo loop_of_def)
        then show ?thesis by (rule solo_head) (use le Some in \<open>simp add: go_eval\<close>)
      next
        case None
        then have "schedule_ready E p s2 = (Ret res, t)" using y by simp
        from ready_solo [OF this] show ?thesis
          by (rule solo_head) (use le None in \<open>simp add: go_eval\<close>)
      qed
      then show ?thesis by (rule solo_head) (use act None in simp)
    qed
  qed
qed

subsection \<open>What an action keeps\<close>

text \<open>
  \<open>unused_free\<close>: an object that is not allocated yet has a free lock. \<open>process_frame\<close>: what
  \<open>agent_frame\<close> says, and no lock of a job changes.
\<close>

definition unused_free :: "agent \<Rightarrow> bool" where
  "unused_free s \<longleftrightarrow> (\<forall>r \<ge> next_ref s. \<not> job_DumpLock (jobs s r))"

definition locks_kept :: "agent \<Rightarrow> agent \<Rightarrow> bool" where
  "locks_kept s t \<longleftrightarrow> (unused_free s \<longrightarrow> next_ref s \<le> next_ref t
     \<and> (\<forall>r. job_DumpLock (jobs t r) = job_DumpLock (jobs s r)))"

definition process_frame :: "agent \<Rightarrow> agent \<Rightarrow> bool" where
  "process_frame s t \<longleftrightarrow> (agent_ok s \<and> unused_free s \<longrightarrow> agent_ok t \<and> objects_age s t
     \<and> (\<forall>r. job_DumpLock (jobs t r) = job_DumpLock (jobs s r)))"

lemma unused_free_kept:
  "unused_free s \<Longrightarrow> next_ref s \<le> next_ref t \<Longrightarrow>
   (\<And>r. job_DumpLock (jobs t r) = job_DumpLock (jobs s r)) \<Longrightarrow> unused_free t"
  by (auto simp: unused_free_def)

interpretation lock_ops: frame_rel locks_kept
  by unfold_locales (auto simp: locks_kept_def intro: unused_free_kept)

interpretation process_ops: frame_rel process_frame
proof unfold_locales
  fix s t u assume a: "process_frame s t" "process_frame t u"
  show "process_frame s u"
    unfolding process_frame_def
  proof (intro impI)
    assume s: "agent_ok s \<and> unused_free s"
    with a(1) have t: "agent_ok t" "objects_age s t" "\<And>r. job_DumpLock (jobs t r) = job_DumpLock (jobs s r)"
      by (simp_all add: process_frame_def)
    then have "unused_free t" using s unused_free_kept by (auto simp: objects_age_def)
    then show "agent_ok u \<and> objects_age s u \<and> (\<forall>r. job_DumpLock (jobs u r) = job_DumpLock (jobs s r))"
      using t a(2) by (auto simp: process_frame_def intro: objects_age_trans)
  qed
qed (simp add: process_frame_def objects_age_def)

lemma ok_process:
  assumes "ok_frame s t" shows "process_frame s t"
  unfolding process_frame_def
proof (intro impI)
  assume s: "agent_ok s \<and> unused_free s"
  then have "svc_frame s t" using assms by (simp add: ok_frame_def agent_ok_def)
  moreover have "agent_frame s t" by (rule ok_agent [OF assms])
  ultimately show "agent_ok t \<and> objects_age s t
      \<and> (\<forall>r. job_DumpLock (jobs t r) = job_DumpLock (jobs s r))"
    using s by (simp add: agent_frame_def svc_frame_def)
qed

lemma keeps_ok_process: "keeps ok_frame m \<Longrightarrow> keeps process_frame m"
  by (simp add: keeps_def ok_process)

lemma keeps_svc_process: "keeps svc_frame m \<Longrightarrow> keeps process_frame m"
  by (intro keeps_ok_process keeps_svc_ok)

lemma keeps_talks_process: "keeps only_talks m \<Longrightarrow> keeps process_frame m"
  by (intro keeps_svc_process keeps_talks_svc)

lemma keeps_both_process: "keeps agent_frame m \<Longrightarrow> keeps locks_kept m \<Longrightarrow> keeps process_frame m"
  by (auto simp: keeps_def process_frame_def agent_frame_def locks_kept_def)

lemma keeps_svc_locks: "keeps svc_frame m \<Longrightarrow> keeps locks_kept m"
  by (simp add: keeps_def svc_frame_def locks_kept_def)

lemma keeps_talks_locks: "keeps only_talks m \<Longrightarrow> keeps locks_kept m"
  by (intro keeps_svc_locks keeps_talks_svc)

lemma job_ops_locks:
  "(\<And>j. job_DumpLock (f j) = job_DumpLock j) \<Longrightarrow> keeps locks_kept (go_mod (upd_job r f))"
  "keeps locks_kept (go_mod (SetJob p r))" "keeps locks_kept (go_mod (DeleteJob p))"
  "keeps locks_kept (cancel_job r)" "keeps locks_kept (new_job (job_of d))"
  "keeps locks_kept (go_mod (\<lambda>s. s\<lparr>poll_detail := v\<rparr>))"
  by (auto simp: keeps_def go_mod_def locks_kept_def cancel_job_def DeleteJob_def new_job_def
      job_of_def empty_job_def unused_free_def)

lemma callbackEndWithMessage_locks: "keeps locks_kept (callbackEndWithMessage E p msg)"
  unfolding callbackEndWithMessage_def
  by (intro lock_ops.keeps_bind lock_ops.keeps_option lock_ops.keeps_seq lock_ops.keeps_pure
      job_ops_locks keeps_talks_locks callbacks_talk) simp

lemma saveJob_locks: "keeps locks_kept (saveJob E d)"
  unfolding saveJob_def save_new_def cancel_all_def cancel_visit_def
  by (intro lock_ops.keeps_bind lock_ops.keeps_option lock_ops.keeps_seq lock_ops.keeps_pure
      lock_ops.keeps_if lock_ops.keeps_fold job_ops_locks keeps_talks_locks write_settings_talks
      ext_ops_talk) simp

lemma poll_tick_locks: "retry_documented E \<Longrightarrow> keeps locks_kept (poll_tick E)"
  unfolding poll_tick_def poll_status_def
  by (intro lock_ops.keeps_bind lock_ops.keeps_option lock_ops.keeps_seq lock_ops.keeps_pure
      lock_ops.keeps_if lock_ops.keeps_sum saveJob_locks job_ops_locks keeps_talks_locks
      callbacks_talk ext_ops_talk keeps_retry [OF lock_ops.frame_rel_axioms])

lemma jar_visits_talk: "keeps only_talks (jar_visit jars key)"
  by (cases key; simp add: jar_visit_def talking.keeps_pure)

lemma loadClassSources_talks: "retry_documented E \<Longrightarrow> keeps only_talks (loadClassSources E p)"
  unfolding loadClassSources_def
  by (intro talking.keeps_bind talking.keeps_option talking.keeps_if talking.keeps_pure
      talking.keeps_fold jar_visits_talk ext_ops_talk callbacks_talk
      keeps_retry [OF talking.frame_rel_axioms])

lemma merge_project_talks: "keeps only_talks (merge_project E m)" "nonblocking (merge_project E m)"
  unfolding merge_project_def
  by (intro talking.keeps_bind talking.keeps_option talking.keeps_if talking.keeps_sum
      talking.keeps_pure mergeExec_talks ext_ops_talk nonblocking_bind nonblocking_cases
      nonblocking_pure ext_ops_nonblocking)+

subsection \<open>The lock of the dumps\<close>

text \<open>Which lock an action waits for, which actions are inside a section, what it refers to.\<close>

definition waits :: "action \<Rightarrow> nat option" where
  "waits a = (case a of TakeForDump p r \<Rightarrow> Some r | TakeForMerge p r rep \<Rightarrow> Some r
     | TakeForProject p r m \<Rightarrow> Some r | _ \<Rightarrow> None)"

definition inside :: "action \<Rightarrow> nat option" where
  "inside a = (case a of InDump p r \<Rightarrow> Some r | InMerge p r rep \<Rightarrow> Some r
     | InProject p r m \<Rightarrow> Some r | GiveBack r \<Rightarrow> Some r | _ \<Rightarrow> None)"

definition job_refs :: "action \<Rightarrow> nat list" where
  "job_refs a = (case a of DumpLoop p r n \<Rightarrow> [r] | TakeForProject p r m \<Rightarrow> [r] | InProject p r m \<Rightarrow> [r]
     | TakeForDump p r \<Rightarrow> [r] | InDump p r \<Rightarrow> [r] | Merging p (Some r) \<Rightarrow> [r]
     | TakeForMerge p r rep \<Rightarrow> r # (case rep of None \<Rightarrow> [] | Some q \<Rightarrow> [q])
     | InMerge p r rep \<Rightarrow> r # (case rep of None \<Rightarrow> [] | Some q \<Rightarrow> [q]) | GiveBack r \<Rightarrow> [r] | _ \<Rightarrow> [])"

definition knows :: "agent \<Rightarrow> action \<Rightarrow> bool" where
  "knows s a \<longleftrightarrow> list_all (\<lambda>r. r < next_ref s) (job_refs a)"

definition dump_held :: "agent \<Rightarrow> nat \<Rightarrow> bool" where
  "dump_held s r = job_DumpLock (jobs s r)"

definition actions_left :: "action \<Rightarrow> nat" where
  "actions_left a = (case a of GiveBack r \<Rightarrow> 0 | _ \<Rightarrow> 1)"

definition process_ok :: "env \<Rightarrow> agent \<Rightarrow> bool" where
  "process_ok E s \<longleftrightarrow> agent_ok s \<and> unused_free s \<and> documented E"

lemmas section_defs = waits_def inside_def job_refs_def actions_left_def

lemma act_process_frame:
  assumes "documented E" "waits a = None" "\<And>r. a \<noteq> GiveBack r"
  shows "keeps process_frame (act E c a)"
proof -
  have E: "retry_documented E" "order_documented E" using assms(1) by (simp_all add: documented_def)
  note ops = process_ops.keeps_bind process_ops.keeps_seq process_ops.keeps_pure
    process_ops.keeps_option process_ops.keeps_if process_ops.keeps_sum
  note talks = keeps_talks_process [OF ext_ops_talk(1)] keeps_talks_process [OF ext_ops_talk(2)]
    keeps_talks_process [OF ext_ops_talk(3)] keeps_talks_process [OF ext_ops_talk(15)]
  show ?thesis
  proof (cases a)
    case StartMain
    then show ?thesis by (simp, intro ops keeps_svc_process start_watch_frame)
  next
    case AwaitCancel
    then show ?thesis by (simp, intro ops)
  next
    case Preloading
    then show ?thesis by (simp, intro ops keeps_svc_process preload_frame E)
  next
    case Informing
    then show ?thesis
      by (cases c; simp add: act_informing_def; intro ops keeps_svc_process AddFunc_frame
          UpdateFunc_frame DeleteFunc_frame E)
  next
    case AwaitPreload
    have "keeps process_frame await_preload"
      by (auto simp: keeps_def await_preload_def process_ops.R_refl)
    then show ?thesis using AwaitPreload by (simp, intro ops)
  next
    case Polling
    then show ?thesis
      by (simp, intro ops keeps_both_process poll_tick_agent poll_tick_locks E)
  next
    case (Scheduling p)
    then show ?thesis by (simp add: act_scheduling_def, intro ops talks)
  next
    case (LoadingSources p)
    then show ?thesis by (simp, intro ops keeps_talks_process loadClassSources_talks E)
  next
    case (TellingReady p)
    then show ?thesis
      by (simp add: act_ready_def, intro ops keeps_talks_process keeps_retry
          talking.frame_rel_axioms talking.keeps_bind buildCallbackErrorMessage_talks callbacks_talk E)
  next
    case (MarkingReady p)
    have "keeps process_frame (act_marking p)"
      unfolding act_marking_def
    proof (rule keeps_both_process)
      show "keeps locks_kept (go_bind (go_get (\<lambda>s. GetJob s p)) (\<lambda>found. case found of
          None \<Rightarrow> go_ret [] | Some r \<Rightarrow> go_seq (go_mod (upd_job r (\<lambda>j. j\<lparr>job_JobStatus := Ready\<rparr>)))
           (go_seq (go_mod (SetJob p r)) (go_ret [DumpLoop p r 1]))))"
        by (intro lock_ops.keeps_bind lock_ops.keeps_option lock_ops.keeps_seq lock_ops.keeps_pure
            job_ops_locks) simp
      show "keeps agent_frame (go_bind (go_get (\<lambda>s. GetJob s p)) (\<lambda>found. case found of
          None \<Rightarrow> go_ret [] | Some r \<Rightarrow> go_seq (go_mod (upd_job r (\<lambda>j. j\<lparr>job_JobStatus := Ready\<rparr>)))
           (go_seq (go_mod (SetJob p r)) (go_ret [DumpLoop p r 1]))))"
        by (rule keeps_get_bind)
           (auto simp: go_eval SetJob_same agent_ops.R_refl upd_job_agent split: option.split)
    qed
    then show ?thesis using MarkingReady by simp
  next
    case (DumpLoop p r n)
    have "keeps process_frame (act_loop c p r n)"
      unfolding act_loop_def by (cases c) (simp_all only: choice.case, (intro ops talks)+)
    then show ?thesis using DumpLoop by simp
  next
    case (Watching p)
    then show ?thesis
      by (simp add: act_watching_def, intro ops talks keeps_both_process cancel_job_agent job_ops_locks)
  next
    case (RemovingPlan p)
    have "keeps agent_frame (go_mod (DeleteJob p))"
      by (rule agent_ops.keeps_mod) (rule DeleteJob_agent)
    then show ?thesis using RemovingPlan by (simp, intro ops talks keeps_both_process job_ops_locks)
  next
    case (Pausing p)
    then show ?thesis by (simp, intro ops talks)
  next
    case (Reporting p)
    then show ?thesis by (simp add: act_reporting_def, intro ops)
  next
    case (InProject p r m)
    then show ?thesis by (simp, intro ops keeps_talks_process merge_project_talks)
  next
    case (SendingReport p f)
    then show ?thesis by (simp, intro ops keeps_talks_process report_xml_talks E)
  next
    case (Failing p msg)
    then show ?thesis
      by (simp, intro ops keeps_both_process callbackEndWithMessage_agent callbackEndWithMessage_locks)
  next
    case (Dumping p)
    then show ?thesis by (simp, intro ops)
  next
    case (InDump p r)
    then show ?thesis by (simp, intro ops keeps_ok_process dump_round_frame)
  next
    case (Merging p rep)
    then show ?thesis by (simp, intro ops)
  next
    case (InMerge p r rep)
    then show ?thesis by (simp, intro ops keeps_ok_process merge_round_frame)
  next
    case (AwaitingDelete r)
    then show ?thesis by (simp, intro ops keeps_svc_process awaitDelete_frame)
  next
    case (Reloading r)
    then show ?thesis by (simp, intro ops keeps_svc_process lock_load_frame)
  next
    case (InReload r)
    then show ?thesis by (simp, intro ops keeps_svc_process reload_body_frame)
  next
    case (GiveBackLoad r)
    then show ?thesis by (simp, intro ops keeps_svc_process lock_load_frame)
  qed (use assms(2,3) in \<open>simp_all add: waits_def\<close>)
qed

text \<open>What the actions answer with: a job that \<open>GetJob\<close> found, or one they had.\<close>

definition yields :: "(action list \<Rightarrow> bool) \<Rightarrow> (agent, action list) prog \<Rightarrow> bool" where
  "yields Q m \<longleftrightarrow> (\<forall>s js t. m s = (Ret js, t) \<longrightarrow> Q js)"

lemma yields_ops:
  "Q js \<Longrightarrow> yields Q (go_ret js)" "yields Q go_block"
  "(\<And>x. yields Q (k x)) \<Longrightarrow> yields Q (go_bind m k)" "yields Q n \<Longrightarrow> yields Q (go_seq l n)"
  "yields Q n \<Longrightarrow> yields Q n' \<Longrightarrow> yields Q (if b then n else n')"
  "yields Q n \<Longrightarrow> (\<And>y. yields Q (h y)) \<Longrightarrow> yields Q (case v of None \<Rightarrow> n | Some y \<Rightarrow> h y)"
  by (auto simp: yields_def go_ret_def go_block_def elim!: go_bind_cases seq_cases split: option.split)

definition names_no_job :: "action list \<Rightarrow> bool" where
  "names_no_job js \<longleftrightarrow> list_all (\<lambda>j. job_refs j = [] \<and> inside j = None) js"

lemma names_no_job_simps [simp]:
  "names_no_job []" "names_no_job (j # js) \<longleftrightarrow> job_refs j = [] \<and> inside j = None \<and> names_no_job js"
  "names_no_job (report_failed p err)"
  by (auto simp: names_no_job_def report_failed_def job_refs_def inside_def split: option.split)

definition looks_up :: "action \<Rightarrow> bool" where
  "looks_up a = (case a of MarkingReady p \<Rightarrow> True | DumpLoop p r n \<Rightarrow> True | Reporting p \<Rightarrow> True
     | TakeForProject p r m \<Rightarrow> True | InProject p r m \<Rightarrow> True | Dumping p \<Rightarrow> True | TakeForDump p r \<Rightarrow> True
     | InDump p r \<Rightarrow> True | Merging p rep \<Rightarrow> True | TakeForMerge p r rep \<Rightarrow> True
     | InMerge p r rep \<Rightarrow> True | _ \<Rightarrow> False)"

lemma act_names_no_job: "\<not> looks_up a \<Longrightarrow> yields names_no_job (act E c a)"
  by (cases a; (cases c)?)
     (auto intro!: yields_ops simp: act_informing_def act_scheduling_def act_ready_def
       act_watching_def looks_up_def section_defs split: option.split)

text \<open>The others, one by one.\<close>

definition known_list :: "agent \<Rightarrow> action list \<Rightarrow> bool" where
  "known_list s js \<longleftrightarrow> list_all (knows s) js \<and> list_all (\<lambda>j. inside j = None) (tl js)"

lemma GetJob_allocated: "agent_ok s \<Longrightarrow> GetJob s p = Some r \<Longrightarrow> r < next_ref s"
  unfolding agent_ok_def jobs_ok_def GetJob_def by blast

lemma after_merge_known:
  "(\<And>q. rep = Some q \<Longrightarrow> q < next_ref s) \<Longrightarrow> list_all (knows s) (after_merge p rep m)"
  "list_all (\<lambda>j. inside j = None) (after_merge p rep m)"
  by (auto simp: after_merge_def knows_def section_defs split: option.split)

lemma names_known: "names_no_job js \<Longrightarrow> known_list s js"
  by (cases js) (auto simp: known_list_def names_no_job_def knows_def list_all_iff)

lemma act_known:
  assumes "agent_ok s" "knows s a" "act E c a s = (Ret js, t)"
  shows "known_list s js"
proof (cases "looks_up a")
  case False
  then show ?thesis
    using act_names_no_job [OF False, of E c] assms(3) names_known [of js] unfolding yields_def by blast
next
  case True
  note simps = known_list_def knows_def section_defs go_eval
  show ?thesis
  proof (cases a)
    case (MarkingReady p)
    then show ?thesis
      using assms GetJob_allocated [OF assms(1)] by (auto simp: act_marking_def simps split: option.splits)
  next
    case (DumpLoop p r n)
    then show ?thesis
      using assms by (cases c) (auto simp: act_loop_def time_Sleep_def simps split: if_splits)
  next
    case (Reporting p)
    then show ?thesis
      using assms GetJob_allocated [OF assms(1)]
      by (auto simp: act_reporting_def simps split: option.splits if_splits)
  next
    case (TakeForProject p r m)
    then show ?thesis using assms by (auto simp: simps lock_dump_def elim!: seq_cases)
  next
    case (InProject p r m)
    then show ?thesis
      using assms
      by (auto simp: simps report_failed_def elim!: go_bind_cases split: sum.splits)
  next
    case (Dumping p)
    then show ?thesis
      using assms GetJob_allocated [OF assms(1)] by (auto simp: simps split: option.splits)
  next
    case (TakeForDump p r)
    then show ?thesis using assms by (auto simp: simps elim!: seq_cases)
  next
    case (InDump p r)
    then show ?thesis using assms by (auto simp: simps elim!: seq_cases)
  next
    case (Merging p rep)
    have "q < next_ref s" if "rep = Some q" for q
      using that assms(2) Merging by (simp add: knows_def job_refs_def)
    then show ?thesis
      using assms(3) Merging GetJob_allocated [OF assms(1)]
      by (cases rep; cases "GetJob s p") (auto simp: simps after_merge_def)
  next
    case (TakeForMerge p r rep)
    then show ?thesis using assms by (auto simp: simps elim!: seq_cases)
  next
    case (InMerge p r rep)
    have "q < next_ref s" if "rep = Some q" for q
      using that assms(2) InMerge by (simp add: knows_def job_refs_def)
    then show ?thesis
      using assms(2,3) InMerge after_merge_known(1) [of rep s p] after_merge_known(2) [of p rep]
      by (auto simp: known_list_def go_eval elim!: go_bind_cases) (simp add: knows_def section_defs)
  qed (use True in \<open>simp_all add: looks_up_def\<close>)
qed

lemma act_enters:
  assumes "waits a = None" "act E c a s = (Ret js, t)" "enters inside l js"
  shows "inside a = Some l"
proof (cases "looks_up a")
  case False
  then have "names_no_job js"
    using act_names_no_job [OF False, of E c] assms(2) unfolding yields_def by blast
  then show ?thesis using assms(3) by (cases js) simp_all
next
  case True
  note simps = section_defs go_eval
  show ?thesis
  proof (cases a)
    case (MarkingReady p)
    then show ?thesis using assms by (auto simp: act_marking_def simps split: option.splits)
  next
    case (DumpLoop p r n)
    then show ?thesis
      using assms by (cases c) (auto simp: act_loop_def time_Sleep_def simps split: if_splits)
  next
    case (Reporting p)
    then show ?thesis
      using assms by (auto simp: act_reporting_def simps split: option.splits if_splits)
  next
    case (InProject p r m)
    then show ?thesis
      using assms by (auto simp: simps report_failed_def elim!: go_bind_cases split: sum.splits)
  next
    case (Dumping p)
    then show ?thesis using assms by (auto simp: simps split: option.splits)
  next
    case (InDump p r)
    then show ?thesis using assms by (auto simp: simps elim!: seq_cases)
  next
    case (Merging p rep)
    then show ?thesis using assms by (auto simp: simps after_merge_def split: option.splits)
  next
    case (InMerge p r rep)
    then show ?thesis using assms by (auto simp: simps elim!: go_bind_cases)
  qed (use True assms(1) in \<open>simp_all add: looks_up_def waits_def\<close>)
qed

text \<open>An action that waits takes the lock, which was free, and enters the section.\<close>

lemma act_takes:
  assumes "waits a = Some r"
  shows "act E c a s = (if dump_held s r then (Blocked, s) else
     (Ret [case a of TakeForDump p q \<Rightarrow> InDump p q | TakeForMerge p q rep \<Rightarrow> InMerge p q rep
             | TakeForProject p q m \<Rightarrow> InProject p q m], upd_job r (\<lambda>j. j\<lparr>job_DumpLock := True\<rparr>) s))"
  using assms by (cases a) (auto simp: waits_def lock_dump_def dump_held_def go_seq_Ret go_seq_Blocked go_eval)

lemma act_enters_section:
  assumes "waits a = Some r" "act E c a s = (Ret js, t)"
  shows "enters inside l js \<longleftrightarrow> l = r"
  using assms(2) unfolding act_takes [OF assms(1)] using assms(1)
  by (cases a) (auto simp: waits_def inside_def split: if_splits)

lemma lock_set_ok:
  assumes "process_ok E s" "r < next_ref s"
  shows "process_ok E (upd_job r (\<lambda>j. j\<lparr>job_DumpLock := b\<rparr>) s)"
proof -
  have "agent_frame s (upd_job r (\<lambda>j. j\<lparr>job_DumpLock := b\<rparr>) s)" by (rule upd_job_agent) simp_all
  then show ?thesis using assms by (simp add: process_ok_def agent_frame_def unused_free_def)
qed

lemma act_effect:
  assumes "process_ok E s" "knows s a" "act E c a s = (Ret js, t)"
  shows "process_ok E t \<and> next_ref s \<le> next_ref t
    \<and> lock_change (inside a = Some l) (enters inside l js) (dump_held s l) (dump_held t l)"
proof -
  consider (take) r where "waits a = Some r" | (give) r where "a = GiveBack r" "waits a = None"
    | (other) "waits a = None" "\<And>r. a \<noteq> GiveBack r" by (cases "waits a") blast+
  then show ?thesis
  proof cases
    case take
    then have "r < next_ref s" "inside a = None"
      using assms(2) by (auto simp: knows_def section_defs split: action.splits)
    then show ?thesis
      using assms take act_enters_section [OF take assms(3)] lock_set_ok [OF assms(1), of r True]
      by (auto simp: act_takes [OF take] dump_held_def split: if_splits)
  next
    case give
    then have "r < next_ref s" "js = []" "t = upd_job r (\<lambda>j. j\<lparr>job_DumpLock := False\<rparr>) s"
      using assms(2,3) by (auto simp: knows_def section_defs unlock_dump_def go_seq_def go_bind_def
          go_ret_def split: if_splits)
    then show ?thesis
      using lock_set_ok [OF assms(1), of r False] give by (auto simp: inside_def dump_held_def)
  next
    case other
    have d: "documented E" using assms(1) by (simp add: process_ok_def)
    have "process_frame s t" by (rule keepsD [OF act_process_frame [OF d other] assms(3)])
    then have t: "agent_ok t" "next_ref s \<le> next_ref t" "\<And>r. dump_held t r = dump_held s r"
      using assms(1) by (simp_all add: process_frame_def process_ok_def objects_age_def dump_held_def)
    moreover have "unused_free t"
      using assms(1) t unused_free_kept [of s t] by (simp add: process_ok_def dump_held_def)
    moreover have "lock_change (inside a = Some l) (enters inside l js) h h" for h
      using act_enters [OF other(1) assms(3), of l]
      by (cases "inside a = Some l"; cases "enters inside l js") auto
    ultimately show ?thesis using d by (simp add: process_ok_def)
  qed
qed

lemma act_grows:
  assumes "process_ok E s" "knows s a" "act E c a s = (Ret js, t)"
  shows "process_ok E t" "next_ref s \<le> next_ref t" "knows s j \<Longrightarrow> knows t j"
proof -
  show "process_ok E t" and le: "next_ref s \<le> next_ref t" using act_effect [OF assms] by blast+
  then show "knows s j \<Longrightarrow> knows t j" by (auto simp: knows_def list_all_iff)
qed

lemma spawned_outside:
  assumes "code \<in> set (spawned a s t)"
  shows "list_all (knows u) code \<and> list_all (\<lambda>j. inside j = None) code"
proof -
  have "list_all (knows u) code \<and> list_all (\<lambda>j. inside j = None) code" if "code \<in> set (born ev)" for ev
    using that by (cases ev rule: born.cases) (auto simp: knows_def section_defs)
  then show ?thesis
    using assms by (cases a) (auto simp: spawned_def knows_def section_defs)
qed

lemma unlock_nonblocking: "nonblocking (unlock_dump r)"
  by (simp add: nonblocking_def unlock_dump_def)

lemma sections_nonblocking: "inside a = Some r \<Longrightarrow> nonblocking (act E c a)"
  by (cases a) (auto simp: inside_def intro!: nonblocking_bind nonblocking_seq nonblocking_pure
      dump_round_nonblocking merge_round_nonblocking merge_project_talks unlock_nonblocking)

interpretation dump_sections: critical_sections "act E" spawned "process_ok E" knows inside waits
  dump_held actions_left
  for E
proof unfold_locales
  fix s t :: agent and i j :: action and js :: "action list" and c :: choice and l :: nat
    and code :: "action list"
  show "process_ok E s \<Longrightarrow> knows s i \<Longrightarrow> act E c i s = (Ret js, t) \<Longrightarrow> process_ok E t"
    by (rule act_grows(1))
  show "process_ok E s \<Longrightarrow> knows s i \<Longrightarrow> act E c i s = (Ret js, t) \<Longrightarrow> list_all (knows t) js"
  proof -
    assume a: "process_ok E s" "knows s i" "act E c i s = (Ret js, t)"
    then have "known_list s js" using act_known by (auto simp: process_ok_def)
    then show "list_all (knows t) js"
      using act_grows(3) [OF a] by (simp add: known_list_def list_all_iff)
  qed
  show "process_ok E s \<Longrightarrow> knows s i \<Longrightarrow> act E c i s = (Ret js, t) \<Longrightarrow> knows s j \<Longrightarrow> knows t j"
    by (rule act_grows(3))
  show "process_ok E s \<Longrightarrow> knows s i \<Longrightarrow> act E c i s = (Ret js, t) \<Longrightarrow>
      code \<in> set (spawned i s t) \<Longrightarrow> list_all (knows t) code \<and> list_all (\<lambda>j. inside j = None) code"
    by (rule spawned_outside)
  show "process_ok E s \<Longrightarrow> knows s i \<Longrightarrow> act E c i s = (Ret js, t) \<Longrightarrow>
      list_all (\<lambda>j. inside j = None) (tl js)"
    using act_known [of s i E c js t] by (simp add: known_list_def process_ok_def)
  show "process_ok E s \<Longrightarrow> knows s i \<Longrightarrow> act E c i s = (Ret js, t) \<Longrightarrow>
      lock_change (inside i = Some l) (enters inside l js) (dump_held s l) (dump_held t l)"
    using act_effect by blast
  show "process_ok E s \<Longrightarrow> knows s i \<Longrightarrow> inside i = Some l \<Longrightarrow> fst (act E c i s) \<noteq> Blocked"
    using sections_nonblocking by (simp add: nonblocking_def)
  show "inside i = Some l \<Longrightarrow> act E c i s = (Ret js, t) \<Longrightarrow> enters inside l js \<Longrightarrow>
      actions_left (hd js) < actions_left i"
    by (cases i) (auto simp: section_defs report_failed_def elim!: seq_cases go_bind_cases
        simp: go_eval split: sum.splits option.splits)
  show "waits i = Some l \<Longrightarrow> inside i = None"
    by (auto simp: section_defs split: action.splits)
  show "waits i = Some l \<Longrightarrow> dump_held s l \<Longrightarrow> fst (act E c i s) = Blocked"
    by (simp add: act_takes)
  show "process_ok E s \<Longrightarrow> knows s i \<Longrightarrow> waits i = Some l \<Longrightarrow> \<not> dump_held s l \<Longrightarrow>
      fst (act E c i s) \<noteq> Blocked"
    by (simp add: act_takes)
qed

end
