(* ===== verification/ProcessSafety.thy ===== *)
theory ProcessSafety
  imports AgentProcess
begin

text \<open>
  What holds of the process of the agent however its goroutines interleave: one live job,
  exclusive sections of dumps and merges, when a lock is lost and what follows, that a
  goroutine that waits for a lock can be served, and that the turns of \<open>Jobs\<close> are runs of
  actions.
\<close>

subsection \<open>Reachable processes\<close>

lemma main_inv:
  assumes "main_start E P" shows "dump_sections.pool_inv E P"
proof -
  have "agent_ok agent_init"
    by (simp add: agent_init_def agent_ok_def services_ok_def services_named_def jobs_ok_def
        jobs_named_def one_live_def)
  moreover have "unused_free agent_init"
    by (simp add: unused_free_def agent_init_def empty_job_def)
  ultimately have ok: "process_ok E agent_init" using assms by (simp add: process_ok_def main_start_def)
  show ?thesis
    by (rule dump_sections.start_pool_inv [OF ok])
       (use assms in \<open>auto simp: main_start_def dump_sections.code_ok_def knows_def section_defs\<close>)
qed

lemma process_reach_inv: "reach (main_start E) (process_step E) P \<Longrightarrow> dump_sections.pool_inv E P"
  by (rule dump_sections.reach_pool_inv [OF main_inv])

lemma reach_ok:
  "reach (main_start E) (process_step E) P \<Longrightarrow> \<not> crashed P \<Longrightarrow> process_ok E (store P)"
  using process_reach_inv [of E P] by (simp add: dump_sections.pool_inv_def)

text \<open>A lock that is held while no goroutine is inside of a section of it.\<close>

definition lock_lost :: "nat \<Rightarrow> (agent, action) process \<Rightarrow> bool" where
  "lock_lost r P \<longleftrightarrow> dump_held (store P) r \<and> list_all (\<lambda>code. \<not> enters inside r code) (pool P)"

lemma lock_lost_leaked: "lock_lost r P \<longleftrightarrow> dump_sections.leaked r P"
  by (simp add: lock_lost_def dump_sections.leaked_def dump_sections.crowd_def filter_empty_conv
      list_all_iff)

subsection \<open>Properties\<close>

text \<open>
  C1. From the start of main on, however the goroutines of the agent interleave between
  their actions: at most one job of the map is not cancelled, and a job is found under its
  own plan.
\<close>

theorem process_one_live_job:
  assumes "reach (main_start E) (process_step E) P" "\<not> crashed P"
    and "GetJob (store P) p = Some i" "\<not> job_done (jobs (store P) i)"
    and "GetJob (store P) q = Some j" "\<not> job_done (jobs (store P) j)"
  shows "p = q \<and> i = j \<and> job_PlanID (jobs (store P) i) = p"
proof -
  have ok: "agent_ok (store P)" using reach_ok [OF assms(1,2)] by (simp add: process_ok_def)
  then have "KeyUint64 p = KeyUint64 q"
    using assms(3-6) unfolding agent_ok_def one_live_def GetJob_def by blast
  then show ?thesis
    using ok assms(3,5) unfolding agent_ok_def jobs_ok_def jobs_named_def GetJob_def by auto
qed

text \<open>
  C2. Mutual exclusion: of all goroutines that a run of the agent starts, at most one is
  inside a dump, a merge or the merge of a report under the lock of a job, and the lock is
  held while it is.
\<close>

theorem dump_sections_exclusive:
  assumes "reach (main_start E) (process_step E) P" "\<not> crashed P"
    and "j < length (pool P)" "k < length (pool P)"
    and "enters inside r (pool P ! j)" "enters inside r (pool P ! k)"
  shows "j = k \<and> dump_held (store P) r"
  by (rule dump_sections.sections_exclude [OF process_reach_inv [OF assms(1)] assms(2-6)])

text \<open>
  C4. A lost lock stays lost: whatever the goroutines do afterwards, it is held by nobody,
  and every goroutine that waits for it has not moved.
\<close>

theorem lost_lock_blocks:
  assumes "reach (main_start E) (process_step E) P" "lock_lost r P"
    and "steps (process_step E) n P Q" "\<not> crashed Q"
  shows "lock_lost r Q \<and> (\<forall>k < length (pool P). enters waits r (pool P ! k) \<longrightarrow> pool Q ! k = pool P ! k)"
proof -
  note inv = process_reach_inv [OF assms(1)]
  have "dump_sections.leaked r Q"
    using assms(3) inv assms(2,4) unfolding lock_lost_leaked
  proof (induction rule: steps.induct)
    case (steps_Suc P R n Q)
    have "\<not> crashed R"
      using steps_Suc.hyps(2) steps_Suc.prems(3)
      by (cases rule: steps.cases) (auto dest: dump_sections.crashed_end)
    then show ?case
      using steps_Suc dump_sections.leak_step dump_sections.pool_step_inv by blast
  qed simp
  moreover have "pool Q ! k = pool P ! k" if k: "k < length (pool P)" "enters waits r (pool P ! k)" for k
  proof -
    obtain a "is" where a: "pool P ! k = a # is" "waits a = Some r"
      using k(2) by (cases "pool P ! k") auto
    then show ?thesis
      using dump_sections.waiter_stuck [OF assms(3) inv _ assms(4) k(1)] assms(2)
      by (simp add: lock_lost_leaked)
  qed
  ultimately show ?thesis by (simp add: lock_lost_leaked)
qed


text \<open>
  C3. The only way to lose the lock of a job (held, with nobody inside) is a report whose
  merge fails: the goroutine was at this merge, and goes on with failing the job, with the
  error of the merge.
\<close>

theorem lock_lost_by_report:
  assumes "reach (main_start E) (process_step E) P" "process_step E P Q" "\<not> crashed Q"
    and "\<not> lock_lost r P" "lock_lost r Q"
  shows "\<exists>k p m is e. k < length (pool P) \<and> pool P ! k = InProject p r m # is
    \<and> merge_project E m (store P) = (Ret (Inl e), store Q)
    \<and> pool Q ! k = Failing p (report_error e) # is"
proof -
  from dump_sections.leak_origin [OF process_reach_inv [OF assms(1)] assms(2,3)] assms(4,5)
  obtain k a "is" c js where k: "k < length (pool P)" "pool P ! k = a # is" "inside a = Some r"
    and act: "act E c a (store P) = (Ret js, store Q)" "\<not> enters inside r js" "pool Q ! k = js @ is"
    unfolding lock_lost_leaked by blast
  have held: "dump_held (store Q) r" using assms(5) by (simp add: lock_lost_def)
  show ?thesis
  proof (cases a)
    case (InProject p q m)
    then obtain res where m: "merge_project E m (store P) = (Ret res, store Q)"
      "js = (case res of Inl e \<Rightarrow> report_failed p (Some e) | Inr f \<Rightarrow> [GiveBack q, SendingReport p f])"
      using act(1) by (auto simp: go_ret_def elim!: go_bind_cases)
    have "q = r" using k(3) InProject by (simp add: inside_def)
    then obtain e where "res = Inl e" using m(2) act(2) by (cases res) (auto simp: inside_def)
    then show ?thesis
      using k(1,2) InProject m act(3) \<open>q = r\<close> by (auto simp: report_failed_def)
  next
    case (GiveBack q)
    then have "upd_job q (\<lambda>j. j\<lparr>job_DumpLock := False\<rparr>) (store P) = store Q"
      using act(1) by (auto simp: unlock_dump_def go_seq_def go_bind_def go_ret_def split: if_splits)
    from this [symmetric] have "\<not> dump_held (store Q) q" by (simp add: dump_held_def)
    then show ?thesis using held k(3) GiveBack by (simp add: inside_def)
  qed (use k(3) act in \<open>auto simp: inside_def go_ret_def elim!: seq_cases go_bind_cases\<close>)
qed

text \<open>The turns of \<open>Jobs\<close>, as what a goroutine has left after one.\<close>

definition turn :: "env \<Rightarrow> action \<Rightarrow> agent \<Rightarrow> (action list \<times> agent) option" where
  "turn E g s = (case g of
     Watching p \<Rightarrow> (case watch_tick E p s of
       (Ret again, t) \<Rightarrow> Some (if again then [Watching p] else [], t) | _ \<Rightarrow> None)
   | Scheduling p \<Rightarrow> (case schedule_start E p s of (Ret r, t) \<Rightarrow> Some (loop_of p r, t) | _ \<Rightarrow> None)
   | DumpLoop p r n \<Rightarrow> (case schedule_tick E p r n s of
       (Ret rounds, t) \<Rightarrow> Some (case rounds of None \<Rightarrow> [] | Some m \<Rightarrow> [DumpLoop p r m], t) | _ \<Rightarrow> None)
   | _ \<Rightarrow> None)"

lemma turn_solo: "turn E g s = Some (code, t) \<Longrightarrow> solo (act E) ([g], s) (code, t)"
  by (cases g) (auto simp: turn_def intro: watch_solo start_solo tick_solo split: prod.splits res.splits)



subsection \<open>An example\<close>

text \<open>
  A run from \<open>main\<close> to a lost lock: the first poll is answered with a plan that is already
  ending, its report finds no dumps and returns inside of its section.
\<close>

definition ending_json :: json where
  "ending_json = JObj [(''success'', JBool True),
     (''data'', JObj [(''planID'', JNum 8), (''status'', JStr ''ending'')])]"

definition ending_env :: env where
  "ending_env = sorted_env ok_answer ending_json"

definition after_preload :: agent where
  "after_preload = agent_init\<lparr>trace := [EvInClusterConfig, EvNewForConfig, EvListDeployments]\<rparr>"

definition after_poll :: agent where
  "after_poll = snd (poll_tick ending_env after_preload)"

definition with_goroutines :: "agent \<Rightarrow> action list list \<Rightarrow> (agent, action) process" where
  "with_goroutines s others = \<lparr>store = s, pool = [[AwaitCancel], [Informing], [Polling]] @ others, crashed = False\<rparr>"

abbreviation reached :: "(agent, action) process \<Rightarrow> bool" where
  "reached \<equiv> reach (main_start ending_env) (process_step ending_env)"

lemma ending_documented: "documented ending_env"
  by (simp add: ending_env_def documented_def sorted_env_documented sorted_env_retry)

lemma ending_start: "reached \<lparr>store = agent_init, pool = [[StartMain]], crashed = False\<rparr>"
  by (rule reach_init) (simp add: main_start_def start_process_def ending_documented)

lemma reach_polling: "reached (with_goroutines after_preload [])"
proof -
  let ?s1 = "agent_init\<lparr>start_lock := True\<rparr>"
  have 1: "reached \<lparr>store = ?s1, pool = [[AwaitCancel], [Preloading], [AwaitPreload]], crashed = False\<rparr>"
    by (rule reach_act [OF ending_start, where k = 0 and i = StartMain and rest = "[]" and c = Plain and js = "[AwaitCancel]" and t = ?s1])
       (simp_all add: start_watch_def agent_init_def go_seq_Ret go_eval spawned_def)
  have pre: "preload ending_env ?s1 = (Ret True, after_preload)"
    by (simp add: preload_def setK8sClientSet_def restclient_InClusterConfig_def go_eval
        kubernetes_NewForConfig_def list_Deployments_def ending_env_def sorted_env_def calm_env_def
        after_preload_def agent_init_def)
  then have p: "act ending_env Plain Preloading ?s1 = (Ret [Informing], after_preload)"
    by (simp add: go_bind_Ret go_eval)
  have 2: "reached \<lparr>store = after_preload, pool = [[AwaitCancel], [Informing], [AwaitPreload]], crashed = False\<rparr>"
    by (rule reach_act [OF 1, where k = 1 and i = Preloading and rest = "[]" and c = Plain and js = "[Informing]" and t = after_preload])
       (simp_all add: p del: act.simps, simp_all add: spawned_def after_preload_def agent_init_def)
  have w: "act ending_env Plain AwaitPreload after_preload = (Ret [Polling], after_preload)"
    by (simp add: await_preload_def after_preload_def agent_init_def go_seq_Ret go_eval)
  show ?thesis
    by (rule reach_act [OF 2, where k = 2 and i = AwaitPreload and rest = "[]" and c = Plain and js = "[Polling]" and t = after_preload])
       (simp_all add: w with_goroutines_def del: act.simps, simp_all add: spawned_def)
qed

definition ending_plan :: exec_detail where
  "ending_plan = \<lparr>d_PlanID = 8, d_ProjectID = 0, d_Status = ''ending'', d_MavenSetting = [],
     d_Includes = [], d_Excludes = []\<rparr>"

lemma ending_status:
  "fst (status ((calm_env ok_answer ending_json [])\<lparr>x_order := f\<rparr>) after_preload) = Ret (Inr (Some ending_plan))"
  "concat (map born (drop 3 (trace (snd (status ((calm_env ok_answer ending_json [])\<lparr>x_order := f\<rparr>) after_preload))))) = []"
  by code_simp+

lemma settings_events:
  "write_settings (sorted_env a j) d s = (Ret True, s\<lparr>trace := trace s @ [EvStat settings_path,
     EvOpenTrunc settings_path, EvWriteString settings_path (d_MavenSetting d),
     EvSetenv ''INCLUDES'' (d_Includes d), EvSetenv ''EXCLUDES'' (d_Excludes d)]\<rparr>)"
  by (simp add: write_settings_def ext_defs go_eval sorted_env_def)

lemma after_poll_facts:
  "act ending_env Plain Polling after_preload = (Ret [Polling], after_poll)"
  "RunJobs after_poll = [KeyUint64 8 \<mapsto> 0]" "Services after_poll = Map.empty"
  "jobs after_poll 0 = job_of ending_plan"
  "spawned Polling after_preload after_poll = [[Scheduling 8]]"
proof -
  let ?E = ending_env and ?d = ending_plan
  have "fst (status ?E after_preload) = Ret (Inr (Some ?d))"
    unfolding ending_env_def sorted_env_def by (rule ending_status)
  then obtain u where u: "status ?E after_preload = (Ret (Inr (Some ?d)), u)" by (metis prod.collapse)
  have calls: "concat (map born (drop 3 (trace u))) = []"
    using ending_status(2) u unfolding ending_env_def sorted_env_def by (metis snd_conv)
  have o: "only_talks after_preload u" by (rule keepsD [OF callbacks_talk(4) u])
  have fields: "RunJobs u = Map.empty" "next_ref u = 0" "Services u = Map.empty"
    using only_talks_same [OF o] by (simp_all add: after_preload_def agent_init_def)
  have len: "3 \<le> length (trace u)"
    using o by (auto simp: only_talks_def after_preload_def dest: prefix_length_le)
  let ?s = "u\<lparr>poll_detail := Some ?d\<rparr>"
  let ?s2 = "cancelled_by (x_order ?E (trace ?s) (RunJobs ?s)) (with_new_job ?d ?s)"
  obtain v where v: "write_settings ?E ?d ?s2 = (Ret True, v)"
    and tr: "v = ?s2\<lparr>trace := trace ?s2 @ [EvStat settings_path,
     EvOpenTrunc settings_path, EvWriteString settings_path (d_MavenSetting ?d),
     EvSetenv ''INCLUDES'' (d_Includes ?d), EvSetenv ''EXCLUDES'' (d_Excludes ?d)]\<rparr>"
    unfolding ending_env_def using settings_events by blast
  let ?t = "(SetJob 8 0 v)\<lparr>trace := trace v @ [EvGo (GoScheduling 8)]\<rparr>"
  have "d_PlanID ?d = 8" by (simp add: ending_plan_def)
  then have save: "saveJob ?E (Some ?d) ?s = (Ret (), ?t)"
    using save_new_run [OF v] fields by (simp add: saveJob_def go_eval GetJob_def)
  have init: "after_preload\<lparr>poll_detail := None\<rparr> = after_preload"
    by (simp add: after_preload_def agent_init_def)
  have retry: "x_retry ?E m = m" for m by (simp add: ending_env_def sorted_env_def)
  have run: "poll_tick ?E after_preload = (Ret (), ?t\<lparr>trace := trace ?t @ [EvSleep 60]\<rparr>)"
    unfolding poll_tick_def retry poll_status_def
    using u save init by (simp add: go_eval go_bind_Ret go_seq_Ret time_Sleep_def ending_plan_def)
  then show "act ?E Plain Polling after_preload = (Ret [Polling], after_poll)"
    by (simp add: after_poll_def go_seq_Ret go_eval)
  have final: "after_poll = ?t\<lparr>trace := trace ?t @ [EvSleep 60]\<rparr>"
    using run by (simp add: after_poll_def)
  show "RunJobs after_poll = [KeyUint64 8 \<mapsto> 0]" "Services after_poll = Map.empty"
    "jobs after_poll 0 = job_of ending_plan"
    unfolding final tr using fields by (simp_all add: SetJob_def cancelled_by_def with_new_job_def)
  show "spawned Polling after_preload after_poll = [[Scheduling 8]]"
    unfolding final tr spawned_def using calls len
    by (simp add: cancelled_by_def with_new_job_def after_preload_def numeral_3_eq_3)
qed

definition locked :: agent where
  "locked = upd_job 0 (\<lambda>j. j\<lparr>job_DumpLock := True\<rparr>) after_poll"

lemma example_jobs:
  "GetJob after_poll 8 = Some 0" "GetJob locked 8 = Some 0"
  "job_Status (jobs after_poll 0) = EndingStatus" "\<not> job_done (jobs after_poll 0)"
  "job_JobStatus (jobs after_poll 0) = []" "\<not> dump_held after_poll 0" "dump_held locked 0"
  "Services after_poll = Map.empty" "Services locked = Map.empty"
  by (simp_all add: after_poll_facts GetJob_def job_of_def ending_plan_def empty_job_def status_defs
      locked_def dump_held_def Ready_def)

lemma unlock_locked: "unlock_dump 0 locked = (Ret (), after_poll)"
proof -
  have "upd_job 0 (\<lambda>j. j\<lparr>job_DumpLock := False\<rparr>) locked = after_poll"
    using example_jobs(6)
    by (cases "jobs after_poll 0") (simp add: locked_def upd_job_def dump_held_def fun_upd_idem)
  then show ?thesis by (simp add: unlock_dump_def locked_def)
qed

lemma no_services:
  assumes "Services s = Map.empty"
  shows "dump_round ending_env p r s = (Ret (), s)" "merge_round ending_env p r s = (Ret [], s)"
  using assms by (simp_all add: dump_round_def merge_round_def ending_env_def sorted_env_def go_eval)

text \<open>The steps of the example: the fourth goroutine schedules, the fifth watches.\<close>

definition watcher :: "agent \<Rightarrow> action list \<Rightarrow> (agent, action) process" where
  "watcher s code = with_goroutines s [[], code]"

lemma watcher_act:
  assumes "reached (watcher s (i # rest))" "act ending_env Plain i s = (Ret js, t)" "trace t = trace s"
    and "spawned i s t = []"
  shows "reached (watcher t (js @ rest))"
  by (rule reach_act [OF assms(1), where k = 4 and i = i and rest = rest and c = Plain and js = js and t = t])
     (use assms in \<open>simp_all add: watcher_def with_goroutines_def\<close>)

lemma nothing_spawned: "trace t = trace s \<Longrightarrow> looks_up a \<Longrightarrow> spawned a s t = []"
  by (cases a) (auto simp: spawned_def looks_up_def)

lemma reach_watching: "reached (watcher after_poll [Watching 8])"
proof -
  have 1: "reached (with_goroutines after_poll [[Scheduling 8]])"
    by (rule reach_act [OF reach_polling, where k = 2 and i = Polling and rest = "[]" and c = Plain
          and js = "[Polling]" and t = after_poll])
       (simp_all add: after_poll_facts with_goroutines_def del: act.simps)
  have "act ending_env Plain (Scheduling 8) after_poll = (Ret [], after_poll)"
    using example_jobs by (simp add: act_scheduling_def go_eval Running_def)
  then show ?thesis
    by (intro reach_act [OF 1, where k = 3 and i = "Scheduling 8" and rest = "[]" and c = Plain
          and js = "[]" and t = after_poll])
       (simp_all add: with_goroutines_def watcher_def spawned_def del: act.simps)
qed

lemma reach_take_dump: "reached (watcher after_poll [TakeForDump 8 0, Merging 8 (Some 0), Pausing 8])"
proof -
  have st: "\<not> is_terminal EndingStatus" by (simp add: is_terminal_def status_defs)
  have 1: "reached (watcher after_poll [Reporting 8, Pausing 8])"
    using watcher_act [OF reach_watching, of "[Reporting 8, Pausing 8]" after_poll] example_jobs st
    by (simp add: act_watching_def go_eval spawned_def)
  have 2: "reached (watcher after_poll [Dumping 8, Merging 8 (Some 0), Pausing 8])"
    using watcher_act [OF 1, of "[Dumping 8, Merging 8 (Some 0)]" after_poll] example_jobs
    by (simp add: act_reporting_def go_eval spawned_def)
  show ?thesis
    using watcher_act [OF 2, of "[TakeForDump 8 0]" after_poll] example_jobs
    by (simp add: go_eval spawned_def)
qed

lemma reach_in_dump: "reached (watcher locked [InDump 8 0, Merging 8 (Some 0), Pausing 8])"
  using watcher_act [OF reach_take_dump, of "[InDump 8 0]" locked] example_jobs
  by (simp add: act_takes [of _ 0] waits_def spawned_def locked_def del: act.simps)

lemma reach_in_project: "reached (watcher locked [InProject 8 0 [], Pausing 8])"
proof -
  have 1: "reached (watcher locked [GiveBack 0, Merging 8 (Some 0), Pausing 8])"
    using watcher_act [OF reach_in_dump, of "[GiveBack 0]" locked] example_jobs no_services
    by (simp add: go_seq_Ret go_eval spawned_def)
  have 2: "reached (watcher after_poll [Merging 8 (Some 0), Pausing 8])"
    using watcher_act [OF 1, of "[]" after_poll] unlock_locked
    by (simp add: go_seq_Ret go_eval spawned_def locked_def)
  have 3: "reached (watcher after_poll [TakeForMerge 8 0 (Some 0), Pausing 8])"
    using watcher_act [OF 2, of "[TakeForMerge 8 0 (Some 0)]" after_poll] example_jobs
    by (simp add: go_eval spawned_def)
  have 4: "reached (watcher locked [InMerge 8 0 (Some 0), Pausing 8])"
    using watcher_act [OF 3, of "[InMerge 8 0 (Some 0)]" locked] example_jobs
    by (simp add: act_takes [of _ 0] waits_def spawned_def locked_def del: act.simps)
  have 5: "reached (watcher locked [GiveBack 0, TakeForProject 8 0 [], Pausing 8])"
    using watcher_act [OF 4, of "[GiveBack 0, TakeForProject 8 0 []]" locked] example_jobs no_services
    by (simp add: go_bind_Ret go_eval spawned_def after_merge_def)
  have 6: "reached (watcher after_poll [TakeForProject 8 0 [], Pausing 8])"
    using watcher_act [OF 5, of "[]" after_poll] unlock_locked
    by (simp add: go_seq_Ret go_eval spawned_def locked_def)
  show ?thesis
    using watcher_act [OF 6, of "[InProject 8 0 []]" locked] example_jobs
    by (simp add: act_takes [of _ 0] waits_def spawned_def locked_def del: act.simps)
qed

lemma lost_step:
  "process_step ending_env (watcher locked [InProject 8 0 [], Pausing 8])
     (watcher locked [Failing 8 (report_error no_dump_error), Pausing 8])"
proof -
  let ?P = "watcher locked [InProject 8 0 [], Pausing 8]"
  have "act ending_env Plain (InProject 8 0 []) locked
      = (Ret [Failing 8 (report_error no_dump_error)], locked)"
    by (simp add: merge_project_def report_failed_def go_eval)
  then show ?thesis
    using pool_step.runs [of ?P 4 "InProject 8 0 []" "[Pausing 8]" "act ending_env" Plain _ locked spawned]
    by (simp add: watcher_def with_goroutines_def spawned_def del: act.simps)
qed

lemma example_lost:
  "\<not> lock_lost 0 (watcher locked [InProject 8 0 [], Pausing 8])"
  "lock_lost 0 (watcher locked [Failing 8 (report_error no_dump_error), Pausing 8])"
  using example_jobs(7)
  by (simp_all add: lock_lost_def watcher_def with_goroutines_def inside_def)

theorem process_one_live_job_witness: "job_PlanID (jobs after_poll 0) = 8"
  using process_one_live_job [OF reach_watching _ _ _ _ _, of 8 0 8 0] example_jobs
  by (simp add: watcher_def with_goroutines_def)

theorem dump_sections_exclusive_witness: "dump_held locked 0"
  using dump_sections_exclusive [OF reach_in_dump, of 4 4 0]
  by (simp add: watcher_def with_goroutines_def inside_def)


theorem lock_lost_by_report_witness:
  "let P = watcher locked [InProject 8 0 [], Pausing 8];
       Q = watcher locked [Failing 8 (report_error no_dump_error), Pausing 8]
   in \<exists>k p m is e. k < length (pool P) \<and> pool P ! k = InProject p 0 m # is
    \<and> merge_project ending_env m (store P) = (Ret (Inl e), store Q)
    \<and> pool Q ! k = Failing p (report_error e) # is"
proof -
  have "\<not> crashed (watcher locked [Failing 8 (report_error no_dump_error), Pausing 8])"
    by (simp add: watcher_def with_goroutines_def)
  from lock_lost_by_report [OF reach_in_project lost_step this example_lost] show ?thesis
    by (simp only: Let_def)
qed

text \<open>The informer goes on while the lock is lost.\<close>

theorem lost_lock_blocks_witness:
  "\<exists>Q. steps (process_step ending_env) 1 (watcher locked [Failing 8 (report_error no_dump_error), Pausing 8]) Q
     \<and> store Q \<noteq> locked \<and> lock_lost 0 Q"
proof -
  let ?P = "watcher locked [Failing 8 (report_error no_dump_error), Pausing 8]"
  let ?t = "locked\<lparr>watchListDeployLoadDoneNum := Suc (watchListDeployLoadDoneNum locked)\<rparr>"
  let ?Q = "?P\<lparr>store := ?t\<rparr>"
  have 0: "reached ?P" by (rule reach_step [OF reach_in_project lost_step])
  have "act ending_env (OnAdd None) Informing locked = (Ret [Informing], ?t)"
    by (simp add: act_informing_def AddFunc_def go_eval)
  then have 1: "process_step ending_env ?P ?Q"
    using pool_step.runs [of ?P 1 Informing "[]" "act ending_env" "OnAdd None" "[Informing]" ?t spawned]
    by (simp add: watcher_def with_goroutines_def spawned_def del: act.simps)
  have n: "steps (process_step ending_env) 1 ?P ?Q"
    using steps_Suc [where step = "process_step ending_env", OF 1 steps_0] by simp
  have "\<not> crashed ?Q" by (simp add: watcher_def with_goroutines_def)
  from lost_lock_blocks [OF 0 example_lost(2) n this] have "lock_lost 0 ?Q" by blast
  moreover have "?t \<noteq> locked"
    by (metis agent.select_convs(9) agent.surjective agent.update_convs(9) n_not_Suc_n)
  ultimately show ?thesis using n by (intro exI [of _ ?Q]) simp
qed

end
