(* ===== verification/ReloadSections.thy ===== *)
theory ReloadSections
  imports ProcessSafety
begin

text \<open>
  The lock \<open>LoadJarPackageLock\<close> of a service in the process of the agent. It is a field of
  the object, a reload is started for an object that was just made, and every path through
  a reload gives it back; so it is held exactly while some goroutine reloads that object.
\<close>

subsection \<open>What an action does to the locks of services\<close>

text \<open>
  \<open>unused_unlocked\<close>: an object that is not allocated yet has a free lock. \<open>load_frame\<close>: no
  lock of a service changes, and a reload is started for allocated objects only.
\<close>

definition unused_unlocked :: "agent \<Rightarrow> bool" where
  "unused_unlocked s \<longleftrightarrow> (\<forall>r \<ge> next_ref s. \<not> svc_LoadLock (svcs s r))"

definition reloads_below :: "nat \<Rightarrow> event list \<Rightarrow> bool" where
  "reloads_below n evs \<longleftrightarrow> (\<forall>r. EvGo (GoReloadJar r) \<in> set evs \<longrightarrow> r < n)"

definition load_frame :: "agent \<Rightarrow> agent \<Rightarrow> bool" where
  "load_frame s t \<longleftrightarrow> (unused_unlocked s \<longrightarrow> next_ref s \<le> next_ref t \<and> same_locks s t
     \<and> (\<exists>evs. trace t = trace s @ evs \<and> reloads_below (next_ref t) evs))"

lemma unused_unlocked_kept: "unused_unlocked s \<Longrightarrow> load_frame s t \<Longrightarrow> unused_unlocked t"
  by (auto simp: unused_unlocked_def load_frame_def same_locks_def)

interpretation load_ops: frame_rel load_frame
proof unfold_locales
  fix s t u assume a: "load_frame s t" "load_frame t u"
  show "load_frame s u"
    unfolding load_frame_def
  proof (intro impI)
    assume s: "unused_unlocked s"
    have t: "unused_unlocked t" by (rule unused_unlocked_kept [OF s a(1)])
    obtain e1 where e1: "trace t = trace s @ e1" "reloads_below (next_ref t) e1"
      and l1: "next_ref s \<le> next_ref t" "same_locks s t"
      using a(1) s by (auto simp: load_frame_def)
    obtain e2 where e2: "trace u = trace t @ e2" "reloads_below (next_ref u) e2"
      and l2: "next_ref t \<le> next_ref u" "same_locks t u"
      using a(2) t by (auto simp: load_frame_def)
    have "reloads_below (next_ref u) (e1 @ e2)"
      using e1(2) e2(2) l2(1) by (auto simp: reloads_below_def dest: less_le_trans)
    then show "next_ref s \<le> next_ref u \<and> same_locks s u
        \<and> (\<exists>evs. trace u = trace s @ evs \<and> reloads_below (next_ref u) evs)"
      using e1(1) e2(1) l1 l2 by (auto simp: same_locks_def)
  qed
qed (simp add: load_frame_def same_locks_def reloads_below_def)

lemma quiet_load:
  "next_ref s \<le> next_ref t \<Longrightarrow> same_locks s t \<Longrightarrow> trace t = trace s \<Longrightarrow> load_frame s t"
  by (simp add: load_frame_def reloads_below_def)

lemma talks_load: "keeps only_talks m \<Longrightarrow> keeps load_frame m"
  by (fastforce simp: keeps_def only_talks_defs load_frame_def same_locks_def starts_no_reload_def
      reloads_below_def)

lemma mod_load: "(\<And>s. next_ref (f s) = next_ref s \<and> svcs (f s) = svcs s \<and> trace (f s) = trace s) \<Longrightarrow>
    keeps load_frame (go_mod f)"
  by (rule load_ops.keeps_mod, rule quiet_load) (simp_all add: same_locks_def)

lemma upd_svc_load:
  "(\<And>v. svc_LoadLock (f v) = svc_LoadLock v) \<Longrightarrow> keeps load_frame (go_mod (upd_svc r f))"
  by (rule load_ops.keeps_mod, rule quiet_load) (simp_all add: same_locks_def upd_svc_def)

lemma mods_load:
  "keeps load_frame (go_mod (SetService n r))" "keeps load_frame (go_mod (DeleteService n))"
  "keeps load_frame (go_mod (SetJob p r))" "keeps load_frame (go_mod (DeleteJob p))"
  "keeps load_frame (go_mod (upd_job r f))" "keeps load_frame (cancel_job r)"
  "keeps load_frame (go_mod (\<lambda>s. s\<lparr>poll_detail := v\<rparr>))"
  "keeps load_frame (go_mod (\<lambda>s. s\<lparr>watchListDeployLoadDoneNum := h s\<rparr>))"
  "keeps load_frame (go_mod (\<lambda>s. s\<lparr>deployListNum := num\<rparr>))"
  "keeps load_frame (go_mod (\<lambda>s. s\<lparr>start_lock := b\<rparr>))"
  unfolding cancel_job_def
  by (rule mod_load; simp add: SetService_def DeleteService_def DeleteJob_def SetJob_def upd_job_def)+

lemma allocs_load:
  "keeps load_frame (new_job j)" "\<not> svc_LoadLock v \<Longrightarrow> keeps load_frame (new_svc v)"
  by (auto simp: keeps_def new_job_def new_svc_def load_frame_def same_locks_def reloads_below_def
      unused_unlocked_def)

lemma spawn_load: "r < next_ref s \<Longrightarrow> load_frame s (snd (spawn (GoReloadJar r) s))"
  by (simp add: spawn_def ext_def load_frame_def same_locks_def reloads_below_def)

lemma locks_dump_load: "keeps load_frame (lock_dump r)" "keeps load_frame (unlock_dump r)"
  by (auto simp: keeps_def lock_dump_def unlock_dump_def upd_job_def same_locks_def intro!: quiet_load)

subsection \<open>The operations of services\<close>

lemmas load_comb = load_ops.keeps_bind load_ops.keeps_seq load_ops.keeps_pure load_ops.keeps_option
  load_ops.keeps_if load_ops.keeps_sum load_ops.keeps_fold

text \<open>A reload starts nothing.\<close>

definition no_start :: "agent \<Rightarrow> agent \<Rightarrow> bool" where
  "no_start s t \<longleftrightarrow> next_ref t = next_ref s \<and> (\<exists>evs. trace t = trace s @ evs \<and> starts_no_reload evs)"

interpretation start_ops: frame_rel no_start
  by unfold_locales (auto simp: no_start_def starts_no_reload_def)

lemma no_start_load: "no_start s t \<Longrightarrow> same_locks s t \<Longrightarrow> load_frame s t"
  by (auto simp: no_start_def load_frame_def starts_no_reload_def reloads_below_def)

lemma reload_body_starts: "keeps no_start (reload_body E r)"
proof -
  have "keeps no_start (getServiceJarPackage E r)"
    using getServiceJarPackage_talks by (auto simp: keeps_def only_talks_defs no_start_def)
  then show ?thesis
    unfolding reload_body_def
    by (intro start_ops.keeps_bind start_ops.keeps_seq start_ops.keeps_option start_ops.keeps_sum
        start_ops.keeps_pure start_ops.keeps_mod)
       (simp_all add: no_start_def starts_no_reload_def)
qed

lemma reload_body_load: "keeps load_frame (reload_body E r)"
  using reload_body_starts reload_body_locks by (simp add: keeps_def no_start_load)

lemma reloadJarAddr_load: "keeps load_frame (reloadJarAddr E r)"
proof (rule keepsI)
  fix s
  show "load_frame s (snd (reloadJarAddr E r s))"
  proof (cases "svc_LoadLock (svcs s r)")
    case True
    then have "reloadJarAddr E r s = (Blocked, s)"
      unfolding reloadJarAddr_def by (intro go_seq_Blocked) (simp add: lock_load_def)
    then show ?thesis by (simp add: load_ops.R_refl)
  next
    case False
    let ?s1 = "upd_svc r (\<lambda>v. v\<lparr>svc_LoadLock := True\<rparr>) s"
    obtain a t where b: "reload_body E r ?s1 = (a, t)" by fastforce
    have t: "svc_LoadLock (svcs t r)"
      using keepsD [OF reload_body_locks b] by (simp add: same_locks_def)
    have "a \<noteq> Blocked" using reload_body_nonblocking b by (metis nonblocking_def fst_conv)
    then have u: "snd (reloadJarAddr E r s) = upd_svc r (\<lambda>v. v\<lparr>svc_LoadLock := False\<rparr>) t"
      using False b t
      by (cases a) (simp_all add: reloadJarAddr_def lock_load_def go_seq_Ret go_defer_def
          unlock_load_def go_eval)
    have "same_locks s (snd (reloadJarAddr E r s))"
      using reloadJarAddr_releases [OF False] by (simp add: same_locks_def)
    moreover have "no_start s (snd (reloadJarAddr E r s))"
      using keepsD [OF reload_body_starts b] u by (simp add: no_start_def)
    ultimately show ?thesis by (rule no_start_load [rotated])
  qed
qed

lemma list_service_pods_load: "keeps load_frame (list_service_pods E r name)"
  unfolding list_service_pods_def
  by (intro load_comb talks_load add_pod_talks upd_svc_load ext_ops_talk) simp

lemma getServiceByDeploy_load:
  assumes "retry_documented E" shows "keeps load_frame (getServiceByDeploy E deploy)"
  unfolding getServiceByDeploy_def
  by (intro load_comb allocs_load keeps_retry [OF load_ops.frame_rel_axioms assms]
      list_service_pods_load) (simp add: empty_service_def)

lemma saveServices_load:
  assumes "\<And>r. svc = Some r \<Longrightarrow> r < next_ref s"
  shows "load_frame s (snd (saveServices E svc sync s))"
proof (cases svc)
  case None
  then show ?thesis by (simp add: saveServices_def go_ret_def load_ops.R_refl)
next
  case (Some r)
  let ?n = "svc_Name (svcs s r)"
  show ?thesis
  proof (cases "GetService s ?n")
    case None
    let ?s1 = "SetService ?n r s"
    have s1: "load_frame s ?s1"
      by (rule quiet_load) (simp_all add: SetService_def same_locks_def)
    show ?thesis
    proof (cases sync)
      case True
      let ?rest = "go_seq (spawn (GoAwaitDelete r)) (go_bind (reloadJarAddr E r) (\<lambda>err. go_ret ()))"
      have "saveServices E svc sync s = ?rest ?s1"
        using Some None True by (simp add: saveServices_def go_eval)
      moreover have "keeps load_frame ?rest"
        by (intro load_comb talks_load ext_ops_talk reloadJarAddr_load)
      ultimately show ?thesis using s1 by (metis keeps_def load_ops.R_trans)
    next
      case False
      let ?s2 = "?s1\<lparr>trace := trace ?s1 @ [EvGo (GoAwaitDelete r)]\<rparr>"
      have s2: "load_frame ?s1 ?s2" by (simp add: load_frame_def same_locks_def reloads_below_def)
      have s3: "load_frame ?s2 (snd (spawn (GoReloadJar r) ?s2))"
        using assms Some by (intro spawn_load) (simp add: SetService_def)
      have "saveServices E svc sync s = spawn (GoReloadJar r) ?s2"
        using Some None False by (simp add: saveServices_def spawn_def go_eval)
      then show ?thesis using load_ops.R_trans [OF s1 load_ops.R_trans [OF s2 s3]] by simp
    qed
  next
    case old: (Some q)
    let ?pods = "svc_Pods (svcs s r)"
    let ?s1 = "upd_svc q (\<lambda>v. v\<lparr>svc_Pods := ?pods\<rparr>) s"
    let ?s2 = "upd_svc q (\<lambda>v. v\<lparr>svc_Image := svc_Image (svcs ?s1 r)\<rparr>) ?s1"
    have s1: "load_frame s ?s1" and s2: "load_frame s ?s2"
      by (rule quiet_load; simp add: same_locks_def upd_svc_def)+
    have g: "GetService ?s1 ?n = Some q" "GetService ?s2 ?n = Some q" using old by simp_all
    show ?thesis
    proof (cases "svc_Image (svcs ?s1 q) = svc_Image (svcs ?s1 r)")
      case True
      then have "snd (saveServices E svc sync s) = ?s1"
        using Some old g by (simp add: saveServices_def go_eval SetService_same)
      then show ?thesis using s1 by simp
    next
      case False
      then have "saveServices E svc sync s = spawn (GoReloadJar r) ?s2"
        using Some old g by (simp add: saveServices_def go_eval SetService_same)
      moreover have "load_frame ?s2 (snd (spawn (GoReloadJar r) ?s2))"
        using assms Some by (intro spawn_load) (simp add: upd_svc_def)
      ultimately show ?thesis using load_ops.R_trans [OF s2] by simp
    qed
  qed
qed

lemma deploy_then_load:
  assumes "retry_documented E"
    and "\<And>v t. (\<And>r. v = Some r \<Longrightarrow> r < next_ref t) \<Longrightarrow> load_frame t (snd (K v t))"
  shows "keeps load_frame (go_bind (getServiceByDeploy E d) K)"
proof (rule keepsI)
  fix s
  obtain a t where r: "getServiceByDeploy E d s = (a, t)" by fastforce
  have f: "load_frame s t" by (rule keepsD [OF getServiceByDeploy_load [OF assms(1)] r])
  show "load_frame s (snd (go_bind (getServiceByDeploy E d) K s))"
  proof (cases a)
    case (Ret v)
    have "load_frame t (snd (K v t))"
      using getServiceByDeploy_fresh [OF assms(1)] r Ret by (intro assms(2)) blast
    then show ?thesis using r Ret f by (auto simp: go_bind_def intro: load_ops.R_trans)
  qed (use r f in \<open>auto simp: go_bind_def\<close>)
qed

lemma handlers_load:
  assumes "retry_documented E"
  shows "keeps load_frame (UpdateFunc E obj)" "keeps load_frame (AddFunc E obj)"
    and "keeps load_frame (DeleteFunc obj)" "keeps load_frame (preload E)"
    and "keeps load_frame (awaitDelete r)"
proof -
  show "keeps load_frame (UpdateFunc E obj)"
    unfolding UpdateFunc_def
    by (intro load_ops.keeps_option load_ops.keeps_pure deploy_then_load [OF assms] saveServices_load)
  have seq: "load_frame s (snd (m s)) \<Longrightarrow> keeps load_frame n \<Longrightarrow> load_frame s (snd (go_seq m n s))"
    for m :: "(agent, unit) prog" and n :: "(agent, unit) prog" and s
    by (cases "m s"; cases "fst (m s)")
       (auto simp: go_seq_def go_bind_def keeps_def intro: load_ops.R_trans)
  show "keeps load_frame (AddFunc E obj)"
    unfolding AddFunc_def
    by (intro load_ops.keeps_option mods_load deploy_then_load [OF assms])
       (simp add: go_eval seq saveServices_load mods_load)
  show "keeps load_frame (DeleteFunc obj)"
    unfolding DeleteFunc_def deleteService_def
    by (intro load_comb mods_load upd_svc_load) simp_all
  show "keeps load_frame (preload E)"
    unfolding preload_def setK8sClientSet_def
    by (intro load_comb mods_load deploy_then_load [OF assms] saveServices_load talks_load ext_ops_talk)
  show "keeps load_frame (awaitDelete r)"
    unfolding awaitDelete_def by (intro load_comb mods_load talks_load ext_ops_talk)
qed

subsection \<open>The operations of jobs\<close>

lemma finish_dump_load: "keeps load_frame (finish_dump E key name f found)"
  unfolding finish_dump_def
  by (intro load_comb talks_load mergeExec_talks mods_load upd_svc_load) (simp add: record_dump_def)

lemma note_merge_error_load: "keeps load_frame (note_merge_error name err)"
  unfolding note_merge_error_def by (intro load_comb mods_load upd_svc_load) simp

lemma rounds_load:
  "keeps load_frame (dump_round E p job)" "keeps load_frame (merge_round E p job)"
  unfolding dump_round_def dump_visit_def dump_service_def merge_round_def merge_visit_def
    merge_service_def Let_def
  by (intro load_comb keeps_visit_key talks_load ext_ops_talk dump_pods_talks mergeExec_talks
      finish_dump_load note_merge_error_load)+

lemma saveJob_load: "keeps load_frame (saveJob E d)"
proof -
  have "keeps load_frame (cancel_all E)"
    unfolding cancel_all_def cancel_visit_def by (intro load_comb mods_load)
  then have "keeps load_frame (save_new E d)" for d
    unfolding save_new_def
    by (intro load_comb mods_load allocs_load talks_load [OF write_settings_talks(1)]
        talks_load [OF ext_ops_talk(16)])
  then show ?thesis unfolding saveJob_def by (intro load_comb mods_load)
qed

lemma jobs_load:
  assumes "retry_documented E"
  shows "keeps load_frame (poll_tick E)" "keeps load_frame (callbackEndWithMessage E p msg)"
proof -
  show "keeps load_frame (callbackEndWithMessage E p msg)"
    unfolding callbackEndWithMessage_def by (intro load_comb mods_load talks_load callbacks_talk)
  have "keeps load_frame (poll_status E)"
    unfolding poll_status_def by (intro load_comb mods_load talks_load [OF callbacks_talk(4)])
  then show "keeps load_frame (poll_tick E)"
    unfolding poll_tick_def
    by (intro load_comb mods_load saveJob_load talks_load [OF ext_ops_talk(15)]
        keeps_retry [OF load_ops.frame_rel_axioms assms])
qed

subsection \<open>The sections\<close>

definition waits_load :: "action \<Rightarrow> nat option" where
  "waits_load a = (case a of Reloading r \<Rightarrow> Some r | _ \<Rightarrow> None)"

definition inside_load :: "action \<Rightarrow> nat option" where
  "inside_load a = (case a of InReload r \<Rightarrow> Some r | GiveBackLoad r \<Rightarrow> Some r | _ \<Rightarrow> None)"

definition knows_load :: "agent \<Rightarrow> action \<Rightarrow> bool" where
  "knows_load s a \<longleftrightarrow> (case a of Reloading r \<Rightarrow> r < next_ref s | InReload r \<Rightarrow> r < next_ref s
     | GiveBackLoad r \<Rightarrow> r < next_ref s | _ \<Rightarrow> True)"

definition load_held :: "agent \<Rightarrow> nat \<Rightarrow> bool" where
  "load_held s r = svc_LoadLock (svcs s r)"

definition load_left :: "action \<Rightarrow> nat" where
  "load_left a = (case a of GiveBackLoad r \<Rightarrow> 0 | _ \<Rightarrow> 1)"

definition load_ok :: "env \<Rightarrow> agent \<Rightarrow> bool" where
  "load_ok E s \<longleftrightarrow> unused_unlocked s \<and> retry_documented E"

lemmas load_section_defs = waits_load_def inside_load_def knows_load_def load_left_def

lemma act_load_frame:
  assumes "retry_documented E" "\<And>r. a \<noteq> Reloading r" "\<And>r. a \<noteq> GiveBackLoad r"
  shows "keeps load_frame (act E c a)"
proof (cases a)
  case StartMain
  have "keeps load_frame start_watch"
    by (auto simp: keeps_def start_watch_def same_locks_def intro!: quiet_load)
  then show ?thesis using StartMain by (simp, intro load_comb)
next
  case Preloading
  then show ?thesis by (simp, intro load_comb handlers_load [OF assms(1)])
next
  case Informing
  then show ?thesis by (cases c; simp add: act_informing_def; intro load_comb handlers_load [OF assms(1)])
next
  case AwaitPreload
  have "keeps load_frame await_preload"
    by (auto simp: keeps_def await_preload_def load_ops.R_refl)
  then show ?thesis using AwaitPreload by (simp, intro load_comb)
next
  case Polling
  then show ?thesis by (simp, intro load_comb jobs_load assms(1))
next
  case (Scheduling p)
  then show ?thesis by (simp add: act_scheduling_def, intro load_comb talks_load ext_ops_talk)
next
  case (LoadingSources p)
  then show ?thesis by (simp, intro load_comb talks_load loadClassSources_talks assms(1))
next
  case (TellingReady p)
  then show ?thesis
    by (simp add: act_ready_def, intro load_comb talks_load keeps_retry talking.frame_rel_axioms
        talking.keeps_bind buildCallbackErrorMessage_talks callbacks_talk assms(1))
next
  case (MarkingReady p)
  then show ?thesis by (simp add: act_marking_def, intro load_comb mods_load)
next
  case (DumpLoop p r n)
  have "keeps load_frame (act_loop c p r n)"
    unfolding act_loop_def
    by (cases c) (simp_all only: choice.case, (intro load_comb talks_load [OF ext_ops_talk(15)])+)
  then show ?thesis using DumpLoop by simp
next
  case (Watching p)
  then show ?thesis
    by (simp add: act_watching_def, intro load_comb mods_load talks_load [OF ext_ops_talk(15)])
next
  case (RemovingPlan p)
  then show ?thesis by (simp, intro load_comb mods_load talks_load [OF ext_ops_talk(1)])
next
  case (Pausing p)
  then show ?thesis by (simp, intro load_comb talks_load ext_ops_talk)
next
  case (Reporting p)
  then show ?thesis by (simp add: act_reporting_def, intro load_comb)
next
  case (InProject p r m)
  then show ?thesis by (simp, intro load_comb talks_load merge_project_talks)
next
  case (SendingReport p f)
  then show ?thesis by (simp, intro load_comb talks_load report_xml_talks assms(1))
next
  case (Failing p msg)
  then show ?thesis by (simp, intro load_comb jobs_load assms(1))
next
  case (AwaitingDelete r)
  then show ?thesis by (simp, intro load_comb handlers_load [OF assms(1)])
next
  case (InReload r)
  then show ?thesis by (simp, intro load_comb reload_body_load)
next
  case (TakeForProject p r m)
  then show ?thesis by (simp, intro load_comb locks_dump_load)
next
  case (TakeForDump p r)
  then show ?thesis by (simp, intro load_comb locks_dump_load)
next
  case (TakeForMerge p r rep)
  then show ?thesis by (simp, intro load_comb locks_dump_load)
next
  case (GiveBack r)
  then show ?thesis by (simp, intro load_comb locks_dump_load)
next
  case (InDump p r)
  then show ?thesis by (simp, intro load_comb rounds_load)
next
  case (InMerge p r rep)
  then show ?thesis by (simp, intro load_comb rounds_load)
next
  case (Dumping p)
  then show ?thesis by (simp, intro load_comb)
next
  case (Merging p rep)
  then show ?thesis by (simp, intro load_comb)
next
  case AwaitCancel
  then show ?thesis by (simp, intro load_comb)
qed (use assms(2,3) in simp_all)

text \<open>No other action turns into a reload.\<close>

definition no_reload :: "action list \<Rightarrow> bool" where
  "no_reload js \<longleftrightarrow> list_all (\<lambda>j. waits_load j = None \<and> inside_load j = None) js"

lemma no_reload_simps [simp]:
  "no_reload []" "no_reload (j # js) \<longleftrightarrow> waits_load j = None \<and> inside_load j = None \<and> no_reload js"
  "no_reload (report_failed p err)" "no_reload (after_merge p rep m)"
  by (auto simp: no_reload_def report_failed_def after_merge_def load_section_defs split: option.split)

lemma knows_other: "waits_load j = None \<Longrightarrow> inside_load j = None \<Longrightarrow> knows_load t j"
  by (cases j) (simp_all add: load_section_defs)

lemma no_reload_known:
  "no_reload js \<Longrightarrow> list_all (knows_load t) js" "no_reload js \<Longrightarrow> list_all (\<lambda>j. inside_load j = None) js"
  by (auto simp: no_reload_def list_all_iff intro: knows_other)

lemma act_no_reload:
  assumes "waits_load a = None" "inside_load a = None"
  shows "yields no_reload (act E c a)"
  using assms
  by (cases a; (cases c)?)
     (auto intro!: yields_ops simp: act_informing_def act_scheduling_def act_ready_def act_marking_def
       act_loop_def act_watching_def act_reporting_def load_section_defs split: option.split sum.split)

text \<open>The three actions of a reload, and what any other one does.\<close>

lemma reload_acts:
  "act E c (Reloading r) s = (if load_held s r then (Blocked, s)
     else (Ret [InReload r], upd_svc r (\<lambda>v. v\<lparr>svc_LoadLock := True\<rparr>) s))"
  "act E c (GiveBackLoad r) s = (if load_held s r
     then (Ret [], upd_svc r (\<lambda>v. v\<lparr>svc_LoadLock := False\<rparr>) s)
     else (Panic ''sync: unlock of unlocked mutex'', s))"
  by (simp_all add: lock_load_def unlock_load_def load_held_def go_seq_def go_bind_def go_ret_def)

lemma in_reload_yields: "act E c (InReload r) s = (Ret js, t) \<Longrightarrow> js = [GiveBackLoad r]"
  by (auto simp: go_ret_def elim!: seq_cases)

lemma load_lock_ok:
  "load_ok E s \<Longrightarrow> r < next_ref s \<Longrightarrow> load_ok E (upd_svc r (\<lambda>v. v\<lparr>svc_LoadLock := b\<rparr>) s)"
  by (auto simp: load_ok_def unused_unlocked_def upd_svc_def)

lemma framed_act:
  assumes "load_ok E s" "act E c a s = (Ret js, t)" "\<And>r. a \<noteq> Reloading r" "\<And>r. a \<noteq> GiveBackLoad r"
  shows "load_ok E t \<and> next_ref s \<le> next_ref t \<and> (\<forall>l. load_held t l = load_held s l)
    \<and> (\<exists>evs. trace t = trace s @ evs \<and> reloads_below (next_ref t) evs)"
proof -
  have E: "retry_documented E" and s: "unused_unlocked s" using assms(1) by (simp_all add: load_ok_def)
  have f: "load_frame s t" by (rule keepsD [OF act_load_frame [OF E assms(3,4)] assms(2)])
  then show ?thesis
    using E s unused_unlocked_kept [OF s f] by (simp add: load_ok_def load_frame_def load_held_def same_locks_def)
qed

lemma lock_change_same: "lock_change a a h h"
  by (cases a) simp_all

lemma act_load:
  assumes "load_ok E s" "knows_load s a" "act E c a s = (Ret js, t)"
  shows "load_ok E t \<and> next_ref s \<le> next_ref t \<and> list_all (knows_load t) js
    \<and> list_all (\<lambda>j. inside_load j = None) (tl js)
    \<and> lock_change (inside_load a = Some l) (enters inside_load l js) (load_held s l) (load_held t l)
    \<and> (\<exists>evs. trace t = trace s @ evs \<and> reloads_below (next_ref t) evs)"
proof -
  consider (take) r where "a = Reloading r" | (give) r where "a = GiveBackLoad r"
    | (body) r where "a = InReload r" | (other) "waits_load a = None" "inside_load a = None"
    by (cases a) (auto simp: load_section_defs)
  then show ?thesis
  proof cases
    case take
    then show ?thesis
      using assms load_lock_ok [OF assms(1), of r True]
      by (auto simp: reload_acts load_section_defs load_held_def upd_svc_def reloads_below_def
          simp del: act.simps split: if_splits)
  next
    case give
    then show ?thesis
      using assms load_lock_ok [OF assms(1), of r False]
      by (auto simp: reload_acts load_section_defs load_held_def upd_svc_def reloads_below_def
          simp del: act.simps split: if_splits)
  next
    case body
    then have "js = [GiveBackLoad r]" using in_reload_yields assms(3) by blast
    then show ?thesis
      using framed_act [OF assms(1,3)] assms(2) body by (auto simp: load_section_defs lock_change_same)
  next
    case other
    have "no_reload js" using act_no_reload [OF other, of E c] assms(3) unfolding yields_def by blast
    then have js: "list_all (knows_load t) js" "list_all (\<lambda>j. inside_load j = None) js"
      using no_reload_known by blast+
    then have "list_all (\<lambda>j. inside_load j = None) (tl js)" "\<not> enters inside_load l js"
      by (cases js; auto)+
    moreover have "\<And>r. a \<noteq> Reloading r" "\<And>r. a \<noteq> GiveBackLoad r"
      using other by (auto simp: load_section_defs)
    ultimately show ?thesis
      using framed_act [OF assms(1,3)] js(1) other by simp
  qed
qed

lemma born_known:
  "code \<in> set (born ev) \<Longrightarrow> (\<And>r. ev = EvGo (GoReloadJar r) \<Longrightarrow> r < next_ref t) \<Longrightarrow>
     list_all (knows_load t) code \<and> list_all (\<lambda>j. inside_load j = None) code"
  by (cases ev rule: born.cases) (auto simp: load_section_defs)

lemma spawned_known:
  assumes "trace t = trace s @ evs" "reloads_below (next_ref t) evs" "code \<in> set (spawned a s t)"
  shows "list_all (knows_load t) code \<and> list_all (\<lambda>j. inside_load j = None) code"
proof (cases "\<exists>ev \<in> set evs. code \<in> set (born ev)")
  case True
  then show ?thesis using born_known assms(2) unfolding reloads_below_def by blast
next
  case False
  then show ?thesis
    using assms(1,3) by (cases a) (auto simp: spawned_def load_section_defs)
qed

interpretation reload_sections: critical_sections "act E" spawned "load_ok E" knows_load inside_load
  waits_load load_held load_left
  for E
proof unfold_locales
  fix s t :: agent and i j :: action and js :: "action list" and c :: choice and l :: nat
    and code :: "action list"
  note rule = act_load [of E s i c js t l]
  show "load_ok E s \<Longrightarrow> knows_load s i \<Longrightarrow> act E c i s = (Ret js, t) \<Longrightarrow> load_ok E t"
    "load_ok E s \<Longrightarrow> knows_load s i \<Longrightarrow> act E c i s = (Ret js, t) \<Longrightarrow> list_all (knows_load t) js"
    "load_ok E s \<Longrightarrow> knows_load s i \<Longrightarrow> act E c i s = (Ret js, t) \<Longrightarrow>
       list_all (\<lambda>j. inside_load j = None) (tl js)"
    "load_ok E s \<Longrightarrow> knows_load s i \<Longrightarrow> act E c i s = (Ret js, t) \<Longrightarrow>
       lock_change (inside_load i = Some l) (enters inside_load l js) (load_held s l) (load_held t l)"
    using rule by blast+
  show "load_ok E s \<Longrightarrow> knows_load s i \<Longrightarrow> act E c i s = (Ret js, t) \<Longrightarrow> knows_load s j \<Longrightarrow> knows_load t j"
    using rule by (auto simp: knows_load_def split: action.splits)
  show "load_ok E s \<Longrightarrow> knows_load s i \<Longrightarrow> act E c i s = (Ret js, t) \<Longrightarrow> code \<in> set (spawned i s t) \<Longrightarrow>
      list_all (knows_load t) code \<and> list_all (\<lambda>j. inside_load j = None) code"
    using rule spawned_known by blast
  show "load_ok E s \<Longrightarrow> knows_load s i \<Longrightarrow> inside_load i = Some l \<Longrightarrow> fst (act E c i s) \<noteq> Blocked"
    using reload_body_nonblocking [of E l]
    by (cases i) (auto simp: inside_load_def nonblocking_def go_seq_def go_bind_def go_ret_def
        unlock_load_def split: prod.splits res.splits, metis fst_conv)
  show "inside_load i = Some l \<Longrightarrow> act E c i s = (Ret js, t) \<Longrightarrow> enters inside_load l js \<Longrightarrow>
      load_left (hd js) < load_left i"
    by (cases i) (auto simp: load_section_defs go_ret_def elim!: seq_cases)
  show "waits_load i = Some l \<Longrightarrow> inside_load i = None"
    "waits_load i = Some l \<Longrightarrow> load_held s l \<Longrightarrow> fst (act E c i s) = Blocked"
    "load_ok E s \<Longrightarrow> knows_load s i \<Longrightarrow> waits_load i = Some l \<Longrightarrow> \<not> load_held s l \<Longrightarrow>
       fst (act E c i s) \<noteq> Blocked"
    by (cases i; auto simp: load_section_defs reload_acts simp del: act.simps)+
qed

subsection \<open>Properties\<close>

lemma main_load_inv:
  assumes "main_start E P" shows "reload_sections.pool_inv E P"
proof -
  have ok: "load_ok E agent_init"
    using assms by (simp add: load_ok_def unused_unlocked_def agent_init_def empty_service_def
        main_start_def documented_def)
  show ?thesis
    by (rule reload_sections.start_pool_inv [OF ok])
       (use assms in \<open>auto simp: main_start_def reload_sections.code_ok_def load_section_defs\<close>)
qed

lemma reach_load_inv: "reach (main_start E) (process_step E) P \<Longrightarrow> reload_sections.pool_inv E P"
  by (rule reload_sections.reach_pool_inv [OF main_load_inv])

lemma reload_never_lost:
  assumes "reach (main_start E) (process_step E) P" "\<not> crashed P"
  shows "\<not> reload_sections.leaked r P"
  using assms
proof (induction rule: reach.induct)
  case (reach_init P)
  then have "\<not> load_held (store P) r"
    by (simp add: main_start_def start_process_def load_held_def agent_init_def empty_service_def)
  then show ?case by (simp add: reload_sections.leaked_def)
next
  case (reach_step P Q)
  show ?case
  proof
    assume l: "reload_sections.leaked r Q"
    have "\<not> crashed P" using reach_step.hyps(2) by (auto dest: reload_sections.crashed_end)
    then have "\<not> reload_sections.leaked r P" by (rule reach_step.IH)
    from reload_sections.leak_origin [OF reach_load_inv [OF reach_step.hyps(1)] reach_step.hyps(2)
        reach_step.prems this l]
    obtain i c js where i: "inside_load i = Some r" "act E c i (store P) = (Ret js, store Q)"
      "\<not> enters inside_load r js" by blast
    have "\<not> load_held (store Q) r"
    proof (cases i)
      case (InReload q)
      then have "js = [GiveBackLoad q]" using in_reload_yields i(2) by blast
      then show ?thesis using i(1,3) InReload by (simp add: inside_load_def)
    next
      case (GiveBackLoad q)
      then show ?thesis
        using i(1,2) by (auto simp: reload_acts inside_load_def load_held_def upd_svc_def
            simp del: act.simps split: if_splits dest!: sym [of _ "store Q"])
    qed (use i(1) in \<open>simp_all add: inside_load_def\<close>)
    then show False using l by (simp add: reload_sections.leaked_def)
  qed
qed

text \<open>
  C6. The lock of a service object: in every state of a run of the agent that has not
  panicked, exactly one goroutine reloads the object when its lock is held, and none when it
  is free; no path through a reload, a handler or the preloading loses it.
\<close>

theorem reload_lock_exact:
  assumes "reach (main_start E) (process_step E) P" "\<not> crashed P"
  shows "length (filter (enters inside_load r) (pool P)) = (if svc_LoadLock (svcs (store P) r) then 1 else 0)"
proof -
  have "reload_sections.crowd P r \<le> (if load_held (store P) r then 1 else 0)"
    using reach_load_inv [OF assms(1)] assms(2) by (simp add: reload_sections.pool_inv_def)
  moreover have "load_held (store P) r \<Longrightarrow> reload_sections.crowd P r \<noteq> 0"
    using reload_never_lost [OF assms, of r] by (simp add: reload_sections.leaked_def)
  ultimately have "reload_sections.crowd P r = (if load_held (store P) r then 1 else 0)"
    by (cases "load_held (store P) r") simp_all
  then show ?thesis by (simp only: reload_sections.crowd_def load_held_def)
qed

text \<open>A goroutine that waits to reload a service can be served within two actions of another one.\<close>

lemma reload_lock_served:
  assumes "reach (main_start E) (process_step E) P" "\<not> crashed P"
    and "k < length (pool P)" "pool P ! k = Reloading r # is"
  shows "\<exists>n \<le> 2. \<exists>Q. steps (process_step E) n P Q \<and> (crashed Q
     \<or> (pool Q ! k = Reloading r # is \<and> (\<exists>t. act E Plain (Reloading r) (store Q) = (Ret [InReload r], t))))"
proof -
  have "load_left i \<le> 1" for i by (simp add: load_left_def split: action.split)
  from reload_sections.waiter_served [OF reach_load_inv [OF assms(1)] assms(2)
      reload_never_lost [OF assms(1,2)] this assms(3,4)]
  obtain n Q where n: "n \<le> 2" "steps (process_step E) n P Q" and Q: "crashed Q \<or> reload_sections.leaked r Q
      \<or> (pool Q ! k = Reloading r # is \<and> (\<forall>c. fst (act E c (Reloading r) (store Q)) \<noteq> Blocked))"
    by (auto simp: waits_load_def numeral_2_eq_2)
  have "reach (main_start E) (process_step E) Q" using n(2) assms(1) by (rule reach_steps)
  then have "\<not> crashed Q \<Longrightarrow> \<not> reload_sections.leaked r Q" by (rule reload_never_lost)
  then show ?thesis using n Q by (auto simp: reload_acts simp del: act.simps split: if_splits)
qed

subsection \<open>Two reloads of one service\<close>

text \<open>
  The lock does not serialise the reloads of a service: an update makes a new object, whose
  lock is its own. Here a deployment is added and its image changes, and two goroutines
  reload the service \<open>web\<close> at the same time.
\<close>

definition next_deploy :: deployment where
  "next_deploy = web_deploy\<lparr>dep_Containers :=
     [\<lparr>kc_Image = ''web:2'', kc_Env = [(''OPEN_JACOCO_AGENT'', ''true'')]\<rparr>]\<rparr>"

definition web_service :: "string \<Rightarrow> service" where
  "web_service img = empty_service\<lparr>svc_Name := ''web'', svc_Image := img\<rparr>"

definition after_add :: agent where
  "after_add = after_preload\<lparr>svcs := (\<lambda>_. empty_service)(0 := web_service ''web:1''),
     Services := [KeyString ''web'' \<mapsto> 0], next_ref := 1, watchListDeployLoadDoneNum := 1,
     trace := trace after_preload @ [EvListPods ''app=web'', EvGo (GoAwaitDelete 0), EvGo (GoReloadJar 0)]\<rparr>"

definition after_update :: agent where
  "after_update = after_add\<lparr>svcs := (\<lambda>_. empty_service)(0 := web_service ''web:2'', 1 := web_service ''web:2''),
     next_ref := 2, trace := trace after_add @ [EvListPods ''app=web'', EvGo (GoReloadJar 1)]\<rparr>"

definition reloading :: "agent \<Rightarrow> action list list \<Rightarrow> (agent, action) process" where
  "reloading s others = with_goroutines s ([AwaitingDelete 0] # others)"

lemma handler_acts:
  "act ending_env (OnAdd (Some web_deploy)) Informing after_preload = (Ret [Informing], after_add)"
  "act ending_env (OnUpdate (Some next_deploy)) Informing after_add = (Ret [Informing], after_update)"
proof -
  note defs = act_informing_def AddFunc_def UpdateFunc_def getServiceByDeploy_def list_service_pods_def
    list_Pods_def saveServices_def spawn_def go_eval deploy_image_def jacoco_env_def ending_env_def
    sorted_env_def calm_env_def web_deploy_def after_preload_def agent_init_def after_add_def
    web_service_def empty_service_def new_svc_def upd_svc_def GetService_def SetService_def
  show "act ending_env (OnAdd (Some web_deploy)) Informing after_preload = (Ret [Informing], after_add)"
    by (simp add: defs go_bind_def go_seq_def go_ret_def ext_def go_mod_def go_get_def)
  show "act ending_env (OnUpdate (Some next_deploy)) Informing after_add = (Ret [Informing], after_update)"
    by (simp add: defs next_deploy_def after_update_def go_bind_def go_seq_def go_ret_def ext_def
        go_mod_def go_get_def fun_upd_twist)
qed

definition both_reloading :: agent where
  "both_reloading = upd_svc 1 (\<lambda>v. v\<lparr>svc_LoadLock := True\<rparr>)
     (upd_svc 0 (\<lambda>v. v\<lparr>svc_LoadLock := True\<rparr>) after_update)"

lemma reloads_overlap: "reached (reloading both_reloading [[InReload 0], [InReload 1]])"
proof -
  let ?s1 = "upd_svc 0 (\<lambda>v. v\<lparr>svc_LoadLock := True\<rparr>) after_update"
  have 1: "reached (reloading after_add [[Reloading 0]])"
    by (rule reach_act [OF reach_polling, where k = 1 and i = Informing and rest = "[]"
          and c = "OnAdd (Some web_deploy)" and js = "[Informing]" and t = after_add])
       (simp_all add: handler_acts with_goroutines_def reloading_def del: act.simps,
         simp_all add: spawned_def after_add_def)
  have 2: "reached (reloading after_update [[Reloading 0], [Reloading 1]])"
    by (rule reach_act [OF 1, where k = 1 and i = Informing and rest = "[]"
          and c = "OnUpdate (Some next_deploy)" and js = "[Informing]" and t = after_update])
       (simp_all add: handler_acts with_goroutines_def reloading_def del: act.simps,
         simp_all add: spawned_def after_update_def)
  have free: "\<not> load_held after_update 0" "\<not> load_held ?s1 (Suc 0)"
    by (simp_all add: load_held_def after_update_def web_service_def empty_service_def)
  have 3: "reached (reloading ?s1 [[InReload 0], [Reloading 1]])"
    by (rule reach_act [OF 2, where k = 4 and i = "Reloading 0" and rest = "[]"
          and c = Plain and js = "[InReload 0]" and t = ?s1])
       (simp_all add: reload_acts free with_goroutines_def reloading_def del: act.simps,
         simp_all add: spawned_def upd_svc_def)
  show ?thesis
    by (rule reach_act [OF 3, where k = 5 and i = "Reloading 1" and rest = "[]"
          and c = Plain and js = "[InReload 1]" and t = both_reloading])
       (simp_all add: reload_acts free both_reloading_def with_goroutines_def reloading_def del: act.simps,
         simp_all add: spawned_def upd_svc_def)
qed

theorem reload_lock_exact_witness:
  "let P = reloading both_reloading [[InReload 0], [InReload 1]]
   in svc_Name (svcs (store P) 0) = ''web'' \<and> svc_Name (svcs (store P) 1) = ''web''
    \<and> length (filter (enters inside_load 0) (pool P)) = (if svc_LoadLock (svcs (store P) 0) then 1 else 0)
    \<and> length (filter (enters inside_load 1) (pool P)) = (if svc_LoadLock (svcs (store P) 1) then 1 else 0)
    \<and> svc_LoadLock (svcs (store P) 0) \<and> svc_LoadLock (svcs (store P) 1)"
proof -
  let ?P = "reloading both_reloading [[InReload 0], [InReload 1]]"
  have "\<not> crashed ?P" by (simp add: reloading_def with_goroutines_def)
  from reload_lock_exact [OF reloads_overlap this, of 0] reload_lock_exact [OF reloads_overlap this, of 1]
  show ?thesis
    by (simp add: Let_def reloading_def with_goroutines_def both_reloading_def after_update_def
        web_service_def upd_svc_def)
qed

end
