(* ===== verification/Report.thy ===== *)
theory Report
  imports Jobs
begin

text \<open>
  The order of what a report does (\<open>report\<close> in \<open>agent/core/job.go\<close>), read off the history
  of events: which events an operation adds is one more relation that operations keep.
\<close>

subsection \<open>Operations that add only certain events\<close>

definition logs :: "(event \<Rightarrow> bool) \<Rightarrow> agent \<Rightarrow> agent \<Rightarrow> bool" where
  "logs P s t \<longleftrightarrow> (\<exists>evs. trace t = trace s @ evs \<and> list_all P evs)"

interpretation logging: frame_rel "logs P" for P
proof unfold_locales
  fix s t u assume "logs P s t" "logs P t u"
  then show "logs P s u" unfolding logs_def by (metis append_assoc list_all_append)
qed (simp add: logs_def)

lemma ext_logs: "P ev \<Longrightarrow> keeps (logs P) (ext f ev)"
  by (simp add: keeps_def ext_def logs_def)

lemma mod_logs: "(\<And>s. trace (f s) = trace s) \<Longrightarrow> keeps (logs P) (go_mod f)"
  by (simp add: keeps_def go_mod_def logs_def)

text \<open>What talking to the centre adds to the history.\<close>

fun web_event :: "event \<Rightarrow> bool" where
  "web_event (EvHttp r) = True"
| "web_event (EvOpen f) = True"
| "web_event (EvSleep n) = True"
| "web_event _ = False"

lemma web_ops:
  "keeps (logs web_event) (send_request E r)" "keeps (logs web_event) (os_Open E f)"
  "keeps (logs web_event) (time_Sleep n)"
  by (simp_all add: ext_defs ext_logs)

lemma agent_Do_logs: "keeps (logs P) (agent_Do E r)"
  by (auto simp: keeps_def agent_Do_def logs_def split: prod.split)

lemma timeout_loop_logs: "keeps (logs P) fn \<Longrightarrow> keeps (logs P) (timeout_loop i fn oc)"
  by (induction i fn oc rule: timeout_loop.induct) (auto intro!: logging.keeps_bind logging.keeps_pure)

lemma retry_loop_logs:
  "keeps (logs P) fn \<Longrightarrow> (\<And>d. keeps (logs P) (sleep d)) \<Longrightarrow> keeps (logs P) (retry_loop i sleep op fn oc)"
proof (induction i sleep op fn oc rule: retry_loop.induct)
  case (2 i sleep op fn oc)
  then show ?case
    by (auto intro!: logging.keeps_bind logging.keeps_seq logging.keeps_pure timeout_loop_logs
        simp: retryIfTimeout_def split: res.split bool.split)
qed (auto intro: logging.keeps_pure)

lemma doRequest_logs: "keeps (logs web_event) (doRequest ue time_Sleep (send_request E) r)"
  unfolding doRequest_def retry_def attempt_once_def
  by (intro logging.keeps_option logging.keeps_bind logging.keeps_if logging.keeps_sum
      logging.keeps_prod logging.keeps_pure retry_loop_logs web_ops)

lemma uploadFile_logs: "keeps (logs web_event) (uploadFile E a tk p q f)"
  unfolding uploadFile_def Let_def read_JSON_def
  by (intro logging.keeps_option logging.keeps_bind logging.keeps_if logging.keeps_sum
      logging.keeps_prod logging.keeps_pure agent_Do_logs doRequest_logs web_ops)

lemma post_notice_logs: "keeps (logs web_event) (post_notice E path j)"
  unfolding post_notice_def read_answer_def
  by (intro logging.keeps_option logging.keeps_bind logging.keeps_if logging.keeps_sum
      logging.keeps_prod logging.keeps_pure web_ops)

text \<open>A notification with a file opens the file first.\<close>

definition opens :: "string \<Rightarrow> agent \<Rightarrow> agent \<Rightarrow> bool" where
  "opens f s t \<longleftrightarrow> (\<exists>evs. trace t = trace s @ EvOpen f # evs \<and> list_all web_event evs)"

lemma opens_logs: "opens f s t \<Longrightarrow> logs web_event t u \<Longrightarrow> opens f s u"
  unfolding opens_def logs_def by (metis append.assoc append_Cons list_all_append)

lemma opens_web: "opens f s t \<Longrightarrow> logs web_event s t"
proof -
  assume "opens f s t"
  then obtain evs where "trace t = trace s @ EvOpen f # evs" "list_all web_event evs" by (auto simp: opens_def)
  then show "logs web_event s t" unfolding logs_def by (intro exI [of _ "EvOpen f # evs"]) simp
qed

lemma open_then:
  assumes "\<And>x. keeps (logs web_event) (k x)"
  shows "opens f s (snd (go_bind (os_Open E f) k s))"
proof -
  let ?s = "s\<lparr>trace := trace s @ [EvOpen f]\<rparr>"
  have "opens f s ?s" by (simp add: opens_def)
  moreover have "logs web_event ?s (snd (k (x_open E (trace s) f) ?s))" using assms by (simp add: keeps_def)
  ultimately show ?thesis using opens_logs by (simp add: os_Open_def go_eval)
qed

lemma callback_opens:
  assumes "f \<noteq> []"
  shows "opens f s (snd (callbackEnd E p msg st f s))" "opens f s (snd (callbackReport E p st msg f s))"
  using assms unfolding callbackEnd_def callbackReport_def Let_def
  by (simp_all only: if_False)
     (intro open_then logging.keeps_option logging.keeps_bind logging.keeps_sum logging.keeps_pure
       uploadFile_logs post_notice_logs)+

lemma retry_opens:
  assumes "retry_documented E" "\<And>s. opens f s (snd (m s))"
  shows "opens f s (snd (x_retry E m s))"
proof -
  have web: "keeps (logs web_event) m" using opens_web [OF assms(2)] by (simp add: keeps_def)
  have "opens f s (snd (run_tries c n m s))" for c n
  proof (cases n)
    case (Suc k)
    obtain r t where m: "m s = (r, t)" by fastforce
    have "opens f s t" using assms(2) [of s] m by simp
    moreover have "logs web_event t (snd (run_tries c k m t))"
      using logging.keeps_tries [OF web] by (simp add: keeps_def)
    then have "logs web_event t (snd (run_tries c n m s))"
      using Suc m by (auto simp: go_bind_def go_ret_def logging.R_refl split: res.split option.split)
    ultimately show ?thesis by (rule opens_logs)
  qed (use assms(2) in simp)
  then show ?thesis using assms(1) by (auto simp: retry_documented_def)
qed


subsection \<open>Dumps and merges only add to the history\<close>

lemma ext_ops_log:
  "keeps (logs (\<lambda>_. True)) (simpleRun E name arg)" "keeps (logs (\<lambda>_. True)) (Exists E path)"
  "keeps (logs (\<lambda>_. True)) (os_CreateTemp E path pat)" "keeps (logs (\<lambda>_. True)) (net_Dial E path)"
  "keeps (logs (\<lambda>_. True)) (ioutil_ReadDir E path)" "keeps (logs (\<lambda>_. True)) (os_Remove E path)"
  by (simp_all add: ext_defs ext_logs)

lemma lock_logs: "keeps (logs P) (lock_dump r)" "keeps (logs P) (unlock_dump r)"
  by (auto simp: keeps_def lock_dump_def unlock_dump_def logs_def)

lemma service_mods_log:
  "keeps (logs P) (go_mod (upd_svc q f))" "keeps (logs P) (go_mod (SetService name q))"
  by (simp_all add: mod_logs SetService_def)

lemmas logging_rules = logging.keeps_option logging.keeps_bind logging.keeps_seq logging.keeps_defer
  logging.keeps_if logging.keeps_sum logging.keeps_pure logging.keeps_fold keeps_visit_key lock_logs
  service_mods_log ext_ops_log

lemma dump_pods_logs: "keeps (logs (\<lambda>_. True)) (dump_pods E name i pods execs errs)"
proof (induction pods arbitrary: i execs errs)
  case (Cons p ps)
  show ?case by (simp only: dump_pods.simps) (intro logging_rules Cons)
qed (simp add: logging.keeps_pure)

lemma dumpExec_logs: "keeps (logs (\<lambda>_. True)) (dumpExec E p)"
  unfolding dumpExec_def dump_round_def dump_visit_def dump_service_def finish_dump_def mergeExec_def Let_def
  by (intro logging_rules dump_pods_logs)

lemma mergeAllSvcExec_logs: "keeps (logs (\<lambda>_. True)) (mergeAllSvcExec E p)"
  unfolding mergeAllSvcExec_def merge_round_def merge_visit_def merge_service_def note_merge_error_def
    mergeExec_def Let_def
  by (intro logging_rules)


subsection \<open>A report that succeeds\<close>

lemma and_then_None:
  "and_then m n s = (Ret None, u) \<Longrightarrow> \<exists>t. m s = (Ret None, t) \<and> n t = (Ret None, u)"
  by (auto simp: and_then_def go_bind_def go_ret_def split: prod.splits res.splits if_splits)

lemma failing_None: "failing text m s = (Ret None, u) \<longleftrightarrow> m s = (Ret None, u)"
  by (auto simp: failing_def go_bind_def go_ret_def prefixed_def split: prod.splits res.splits)

lemma run_trace: "simpleRun E c args s = (r, t) \<Longrightarrow> trace t = trace s @ [EvRun c args]"
  by (auto simp: simpleRun_def go_eval)

lemma create_trace: "os_Create E f s = (r, t) \<Longrightarrow> trace t = trace s @ [EvCreate f]"
  by (auto simp: os_Create_def go_eval)

lemma buildCallbackErrorMessage_quiet: "buildCallbackErrorMessage E p s = (r, t) \<Longrightarrow> trace t = trace s"
proof -
  have "keeps (logs (\<lambda>_. False)) (message_visit m key)" for m key
    by (cases key; simp add: message_visit_def logging.keeps_pure)
  then have "keeps (logs (\<lambda>_. False)) (buildCallbackErrorMessage E p)"
    unfolding buildCallbackErrorMessage_def
    by (intro logging.keeps_bind logging.keeps_option logging.keeps_pure logging.keeps_fold)
  moreover assume "buildCallbackErrorMessage E p s = (r, t)"
  ultimately have "logs (\<lambda>_. False) s t" by (rule keepsD)
  then show "trace t = trace s" by (auto simp: logs_def list_all_iff)
qed

lemma time_trace: "go_bind (time_Now E) k s = (r, t) \<Longrightarrow>
    \<exists>times u. trace u = trace s @ [EvNow] \<and> k times u = (r, t)"
  by (intro exI [of _ "x_now E (trace s)"] exI [of _ "s\<lparr>trace := trace s @ [EvNow]\<rparr>"])
     (simp add: time_Now_def go_eval)

lemma bind_Ret: "go_bind m k s = (Ret b, u) \<Longrightarrow> \<exists>a t. m s = (Ret a, t) \<and> k a t = (Ret b, u)"
  by (auto simp: go_bind_def split: prod.splits res.splits)

lemma report_html_success:
  assumes "report_html E p f d msg s = (Ret None, t)"
  shows "\<exists>times w. list_all web_event w \<and> trace t = trace s
    @ [EvRun ''java'' (report_args f ''--html'' (d @ ''/'' @ ''_project_html'')), EvNow,
       EvRun ''sh'' (tar_args d (times @ ''.tar.gz'') ''_project_html''), EvOpen (d @ ''/'' @ times @ ''.tar.gz'')] @ w"
proof -
  let ?html = "report_args f ''--html'' (d @ ''/'' @ ''_project_html'')"
  let ?archive = "\<lambda>times. d @ ''/'' @ times @ ''.tar.gz''"
  let ?send = "\<lambda>times. failing ''failed report project html tar.gz, error ''
            (callbackReport E p SuccessStatus msg (?archive times))"
  let ?rest = "\<lambda>times. and_then (failing ''failed tar project html dir, error ''
                   (simpleRun E ''sh'' (tar_args d (times @ ''.tar.gz'') ''_project_html''))) (?send times)"
  obtain s1 where s1: "simpleRun E ''java'' ?html s = (Ret None, s1)"
    and rest: "go_bind (time_Now E) ?rest s1 = (Ret None, t)"
    using and_then_None [OF assms [unfolded report_html_def]] unfolding failing_None by blast
  obtain times s2 where s2: "trace s2 = trace s1 @ [EvNow]" "?rest times s2 = (Ret None, t)"
    using time_trace [OF rest] by blast
  obtain s3 where s3: "simpleRun E ''sh'' (tar_args d (times @ ''.tar.gz'') ''_project_html'') s2 = (Ret None, s3)"
    "callbackReport E p SuccessStatus msg (?archive times) s3 = (Ret None, t)"
    using and_then_None [OF s2(2)] unfolding failing_None by blast
  have "opens (?archive times) s3 t"
    using callback_opens(2) [of "?archive times" s3 E p SuccessStatus msg] s3(2) by simp
  then show ?thesis
    using run_trace [OF s1] s2(1) run_trace [OF s3(1)]
    by (auto simp: opens_def intro!: exI [of _ times])
qed

lemma mkdirTemp_trace:
  "go_bind (os_MkdirTemp E []) (\<lambda>d. case d of Inl e \<Rightarrow> go_ret (Some (g e)) | Inr x \<Rightarrow> k x) s = (Ret None, t) \<Longrightarrow>
     \<exists>d u. trace u = trace s @ [EvMkdirTemp []] \<and> k d u = (Ret None, t)"
proof (cases "x_mkdirTemp E (trace s) []")
  case (Inr d)
  moreover assume "go_bind (os_MkdirTemp E []) (\<lambda>d. case d of Inl e \<Rightarrow> go_ret (Some (g e)) | Inr x \<Rightarrow> k x) s = (Ret None, t)"
  ultimately show ?thesis
    by (intro exI [of _ d] exI [of _ "s\<lparr>trace := trace s @ [EvMkdirTemp []]\<rparr>"]) (simp add: os_MkdirTemp_def go_eval)
qed (simp add: os_MkdirTemp_def go_eval)

lemma report_xml_success:
  assumes "report_xml E p f s = (Ret None, t)" "retry_documented E"
  shows "\<exists>d u msg w. list_all web_event w \<and> report_html E p f d msg u = (Ret None, t) \<and> trace u = trace s
    @ [EvMkdirTemp [], EvCreate (d @ ''/'' @ ''_project_xml''),
       EvRun ''java'' (report_args f ''--xml'' (d @ ''/'' @ ''_project_xml'')),
       EvRun ''sh'' (tar_args d ''_project_xml.tar.gz'' ''_project_xml''), EvOpen (d @ ''/'' @ ''_project_xml.tar.gz'')] @ w"
proof -
  let ?xml = "\<lambda>d. d @ ''/'' @ ''_project_xml''" and ?archive = "\<lambda>d. d @ ''/'' @ ''_project_xml.tar.gz''"
  let ?send = "\<lambda>d msg. x_retry E (callbackEnd E p msg SuccessStatus (?archive d))"
  let ?last = "\<lambda>d. go_bind (buildCallbackErrorMessage E p) (\<lambda>msg.
     and_then (failing ''report project cover xml error '' (?send d msg)) (report_html E p f d msg))"
  obtain d s1 where s1: "trace s1 = trace s @ [EvMkdirTemp []]"
    and r1: "and_then (failing ''failed to create project xml temp file, error '' (os_Create E (?xml d)))
           (and_then (failing ''failed to report project xml cover, error ''
                       (simpleRun E ''java'' (report_args f ''--xml'' (?xml d))))
           (and_then (failing ''tar app report xml error ''
                       (simpleRun E ''sh'' (tar_args d ''_project_xml.tar.gz'' ''_project_xml''))) (?last d)))
             s1 = (Ret None, t)"
    using mkdirTemp_trace [OF assms(1) [unfolded report_xml_def]] by blast
  obtain s2 where s2: "os_Create E (?xml d) s1 = (Ret None, s2)"
    and r2: "and_then (failing ''failed to report project xml cover, error ''
                       (simpleRun E ''java'' (report_args f ''--xml'' (?xml d))))
           (and_then (failing ''tar app report xml error ''
                       (simpleRun E ''sh'' (tar_args d ''_project_xml.tar.gz'' ''_project_xml''))) (?last d))
             s2 = (Ret None, t)"
    using and_then_None [OF r1] unfolding failing_None by blast
  obtain s3 where s3: "simpleRun E ''java'' (report_args f ''--xml'' (?xml d)) s2 = (Ret None, s3)"
    and r3: "and_then (failing ''tar app report xml error ''
                (simpleRun E ''sh'' (tar_args d ''_project_xml.tar.gz'' ''_project_xml''))) (?last d) s3 = (Ret None, t)"
    using and_then_None [OF r2] unfolding failing_None by blast
  obtain s4 where s4: "simpleRun E ''sh'' (tar_args d ''_project_xml.tar.gz'' ''_project_xml'') s3 = (Ret None, s4)"
    and r4: "?last d s4 = (Ret None, t)"
    using and_then_None [OF r3] unfolding failing_None by blast
  obtain msg s5 where s5: "buildCallbackErrorMessage E p s4 = (Ret msg, s5)"
    and r5: "and_then (failing ''report project cover xml error '' (?send d msg)) (report_html E p f d msg) s5
       = (Ret None, t)"
    using bind_Ret [OF r4] by blast
  obtain u where u: "?send d msg s5 = (Ret None, u)" "report_html E p f d msg u = (Ret None, t)"
    using and_then_None [OF r5] unfolding failing_None by blast
  have "opens (?archive d) s (snd (callbackEnd E p msg SuccessStatus (?archive d) s))" for s
    by (rule callback_opens) simp
  from retry_opens [OF assms(2) this, of s5] have "opens (?archive d) s5 u" using u(1) by simp
  then obtain w where "list_all web_event w" "trace u = trace s5 @ EvOpen (?archive d) # w"
    by (auto simp: opens_def)
  then show ?thesis
    using u(2) s1 create_trace [OF s2] run_trace [OF s3] run_trace [OF s4] buildCallbackErrorMessage_quiet [OF s5]
    by (intro exI [of _ d] exI [of _ u] exI [of _ msg] exI [of _ w]) simp
qed

lemma report_merge_success:
  assumes "report_merge E r m s = (Ret (Inr f), t)"
  shows "\<exists>svcs. trace t = trace s @ [EvCreateTemp [] ''_project_.exec'',
           EvRun ''java'' ([''-jar'', JacocoCliAddr, ''merge''] @ svcs @ [''--destfile'', f])]
         \<and> svcs = x_shuffle E (trace s @ [EvCreateTemp [] ''_project_.exec'']) (map snd m) \<and> m \<noteq> []"
proof (cases "job_DumpLock (jobs s r)")
  case True
  then have "report_merge E r m s = (Blocked, s)"
    unfolding report_merge_def by (intro go_seq_Blocked) (simp add: lock_dump_def)
  then show ?thesis using assms by simp
next
  case False
  then show ?thesis
    using assms by (auto simp: report_merge_def lock_dump_def unlock_dump_def go_seq_Ret go_eval
        os_CreateTemp_def mergeExec_def simpleRun_def split: if_splits sum.splits option.splits)
qed



definition uploaded_json :: json where
  "uploaded_json = JObj [(''success'', JBool True), (''data'', JObj [])]"

text \<open>A job that is ending, with one service without pods; every command and upload succeeds.\<close>

definition ending_web :: agent where
  "ending_web = one_job\<lparr>jobs := (\<lambda>_. empty_job)(1 := empty_job\<lparr>job_PlanID := 7, job_Status := EndingStatus\<rparr>)\<rparr>"

abbreviation uploads :: env where
  "uploads \<equiv> calm_env ok_answer uploaded_json [KeyString ''web'']"

lemma uploads_callbacks:
  "fst (callbackEnd uploads 7 msg SuccessStatus (x # f) s) = Ret None"
  "fst (callbackReport uploads 7 SuccessStatus msg (x # f) s) = Ret None"
  by code_simp+

lemma fst_bind_Ret: "fst (m s) = Ret a \<Longrightarrow> (\<And>t. fst (k a t) = r) \<Longrightarrow> fst (go_bind m k s) = r"
  by (cases "m s") (simp add: go_bind_def)

lemma fst_then: "(\<And>t. fst (m t) = Ret None) \<Longrightarrow> (\<And>t. fst (n t) = Ret None) \<Longrightarrow> fst (and_then m n s) = Ret None"
  unfolding and_then_def by (rule fst_bind_Ret [of _ _ None]) simp_all

lemma fst_failing: "(\<And>t. fst (m t) = Ret None) \<Longrightarrow> fst (failing text m s) = Ret None"
  unfolding failing_def by (rule fst_bind_Ret [of _ _ None]) (simp_all add: go_ret_def prefixed_def)

lemma uploads_calls:
  "fst (simpleRun uploads c args s) = Ret None" "fst (os_Create uploads d s) = Ret None"
  by (simp_all add: simpleRun_def os_Create_def go_eval calm_env_def)

lemma uploads_html: "fst (report_html uploads 7 f (x # d) msg s) = Ret None"
proof -
  have now: "fst (time_Now uploads s) = Ret (x_now uploads (trace s))" for s
    by (simp add: time_Now_def go_eval)
  show ?thesis
    unfolding report_html_def
    by (intro fst_then fst_failing uploads_calls fst_bind_Ret [OF now])
       (simp add: uploads_callbacks)
qed

lemma uploads_xml: "fst (report_xml uploads 7 f s) = Ret None"
proof -
  have dir: "fst (os_MkdirTemp uploads [] s) = Ret (Inr (CHR ''/'' # ''tmp/1''))" for s
    by (simp add: os_MkdirTemp_def go_eval)
  have msg: "\<exists>m. fst (buildCallbackErrorMessage uploads 7 s) = Ret m" for s
    by (simp add: buildCallbackErrorMessage_def message_visit_def go_eval split: option.split)
  have last: "fst (go_bind (buildCallbackErrorMessage uploads 7) (\<lambda>m.
      and_then (failing e (callbackEnd uploads 7 m SuccessStatus (x # a)))
        (report_html uploads 7 f (x # d) m)) s) = Ret None" for s e x a d
  proof -
    obtain m where "fst (buildCallbackErrorMessage uploads 7 s) = Ret m" using msg by blast
    then show ?thesis
      by (rule fst_bind_Ret) (intro fst_then fst_failing uploads_html uploads_callbacks)
  qed
  show ?thesis
    unfolding report_xml_def
    by (rule fst_bind_Ret [OF dir]) (simp, intro fst_then fst_failing uploads_calls last)
qed

lemma uploads_merge:
  "fst (go_seq (dumpExec uploads 7) (go_bind (mergeAllSvcExec uploads 7) (report_merge uploads 1)) ending_web)
     = Ret (Inr ''/_project_.exec'')"
  by code_simp

lemma ending_web_reports: "fst (report uploads 7 ending_web) = Ret None"
proof -
  have "GetJob ending_web 7 = Some 1" "job_Status (jobs ending_web 1) = EndingStatus"
    by (simp_all add: ending_web_def one_job_def GetJob_def)
  then have "report uploads 7 ending_web
      = go_bind (go_seq (dumpExec uploads 7) (go_bind (mergeAllSvcExec uploads 7) (report_merge uploads 1)))
          (\<lambda>r. case r of Inl e \<Rightarrow> go_ret (Some e) | Inr f \<Rightarrow> report_xml uploads 7 f) ending_web"
    by (simp add: report_def go_eval go_seq_def go_bind_assoc)
  moreover have "fst (go_bind (go_seq (dumpExec uploads 7) (go_bind (mergeAllSvcExec uploads 7) (report_merge uploads 1)))
          (\<lambda>r. case r of Inl e \<Rightarrow> go_ret (Some e) | Inr f \<Rightarrow> report_xml uploads 7 f) ending_web) = Ret None"
    by (rule fst_bind_Ret, rule uploads_merge) (simp add: uploads_xml)
  ultimately show ?thesis by simp
qed


end
