(* ===== verification/Converter.thy ===== *)
theory Converter
  imports HttpMessage GoMonad
begin

text \<open>
  The custom resource (\<open>api/v1alpha1/agent_types.go\<close>) and its conversion into the objects
  of a cluster (\<open>controllers/converter.go\<close>). Values of Kubernetes types that are carried but
  never looked into (affinity, tolerations, a status) are JSON values; a quantity is its
  text; a Go map is a map, nil being the empty one.
\<close>

subsection \<open>The custom resource\<close>

type_synonym labels = "string \<rightharpoonup> string"

record env_var =
  ev_Name :: string
  ev_Value :: string
  ev_ValueFrom :: "json option"

type_synonym resource_list = "(string \<times> string) list"

record resource_requirements =
  rr_Limits :: resource_list
  rr_Requests :: resource_list

record agent_spec =
  sp_Image :: string
  sp_Env :: "env_var list"
  sp_StorageClassName :: string
  sp_StorageSize :: string
  sp_Labels :: labels
  sp_VolumePath :: string
  sp_Resources :: "resource_requirements option"
  sp_Affinity :: "json option"
  sp_Annotations :: labels
  sp_NodeSelector :: labels
  sp_Tolerations :: "json list"

text \<open>\<open>cr_deleting\<close>: its deletion timestamp is set.\<close>

record agent_cr =
  cr_Name :: string
  cr_Namespace :: string
  cr_Labels :: labels
  cr_Annotations :: labels
  cr_deleting :: bool
  cr_Spec :: agent_spec
  cr_Status :: json

subsection \<open>Objects of the cluster\<close>

record object_meta =
  om_Name :: string
  om_Namespace :: string
  om_Labels :: labels
  om_owner :: "string option"

record service_account =
  sa_Meta :: object_meta

record policy_rule =
  pr_APIGroups :: "string list"
  pr_Resources :: "string list"
  pr_Verbs :: "string list"

record role =
  ro_Meta :: object_meta
  ro_Rules :: "policy_rule list"

record role_binding =
  rb_Meta :: object_meta
  rb_RoleRef :: "string \<times> string \<times> string"      \<comment> \<open>API group, kind, name\<close>
  rb_Subjects :: "(string \<times> string) list"         \<comment> \<open>kind, name\<close>

record container =
  co_Name :: string
  co_Image :: string
  co_Env :: "env_var list"
  co_Resources :: resource_requirements
  co_ImagePullPolicy :: string
  co_VolumeMounts :: "(string \<times> string \<times> bool) list" \<comment> \<open>name, path, read only\<close>

record pod_template =
  pt_Labels :: labels
  pt_Annotations :: labels
  pt_Containers :: "container list"
  pt_ServiceAccountName :: string
  pt_Affinity :: "json option"
  pt_Tolerations :: "json list"
  pt_NodeSelector :: labels

record volume_claim =
  vc_Name :: string
  vc_Annotations :: labels
  vc_StorageClassName :: string
  vc_AccessModes :: "string list"
  vc_Requests :: resource_list

record sts_spec =
  ss_Replicas :: nat
  ss_Selector :: labels
  ss_Template :: pod_template
  ss_VolumeClaimTemplates :: "volume_claim list"

record stateful_set =
  st_Meta :: object_meta
  st_Spec :: sts_spec
  st_Status :: json

record agent_resources =
  ar_StatefulSet :: stateful_set
  ar_ServiceAccount :: service_account
  ar_RoleBinding :: role_binding
  ar_Role :: role

subsection \<open>Conversion\<close>

definition CSISnapshotMaxHistory :: string where
  "CSISnapshotMaxHistory = ''pvc.erda.io/snapshot''"

definition volumeName :: string where "volumeName = ''data''"

definition getNamePrefix :: "agent_cr \<Rightarrow> string" where
  "getNamePrefix app = ''source-cov-'' @ cr_Name app"

definition getNamespace :: "agent_cr \<Rightarrow> string" where
  "getNamespace app = cr_Namespace app"

definition getServiceAccountName :: "agent_cr \<Rightarrow> string" where
  "getServiceAccountName app = getNamePrefix app @ ''-sa''"

definition getRoleName :: "agent_cr \<Rightarrow> string" where
  "getRoleName app = getNamePrefix app @ ''-role''"

text \<open>The group of the API is \<open>sourcecov.erda.cloud\<close> (\<open>groupversion_info.go\<close>).\<close>

definition GroupVersion_Group :: string where "GroupVersion_Group = ''sourcecov.erda.cloud''"

definition agents_label :: string where "agents_label = ''agents.'' @ GroupVersion_Group"

definition getLables :: "agent_cr \<Rightarrow> labels" where
  "getLables app = [agents_label \<mapsto> cr_Name app]"

text \<open>
  \<open>setOwnerRef\<close> is a parameter of the source; what \<open>ctrl.SetControllerReference\<close> does to the
  metadata of an object is not in it.
\<close>

type_synonym set_owner = "agent_cr \<Rightarrow> object_meta \<Rightarrow> object_meta"

definition convertServiceAccount :: "agent_cr \<Rightarrow> set_owner \<Rightarrow> service_account" where
  "convertServiceAccount app setOwnerRef =
     \<lparr>sa_Meta = setOwnerRef app \<lparr>om_Name = getServiceAccountName app, om_Namespace = getNamespace app,
        om_Labels = Map.empty, om_owner = None\<rparr>\<rparr>"

definition read_verbs :: "string list" where "read_verbs = [''get'', ''watch'', ''list'']"

definition convertRole :: "agent_cr \<Rightarrow> set_owner \<Rightarrow> role" where
  "convertRole app setOwnerRef =
     \<lparr>ro_Meta = setOwnerRef app \<lparr>om_Name = getRoleName app, om_Namespace = getNamespace app,
        om_Labels = getLables app, om_owner = None\<rparr>,
      ro_Rules =
        [\<lparr>pr_APIGroups = [''apps''], pr_Resources = [''deployments''], pr_Verbs = read_verbs\<rparr>,
         \<lparr>pr_APIGroups = [''apps''], pr_Resources = [''statefulsets''], pr_Verbs = read_verbs\<rparr>,
         \<lparr>pr_APIGroups = [[]], pr_Resources = [''pods''], pr_Verbs = read_verbs\<rparr>,
         \<lparr>pr_APIGroups = [[]], pr_Resources = [''pods/exec''], pr_Verbs = [''create'']\<rparr>]\<rparr>"

definition convertRoleBinding :: "agent_cr \<Rightarrow> set_owner \<Rightarrow> role_binding" where
  "convertRoleBinding app setOwnerRef =
     \<lparr>rb_Meta = setOwnerRef app \<lparr>om_Name = getNamePrefix app @ ''-rb'', om_Namespace = getNamespace app,
        om_Labels = getLables app, om_owner = None\<rparr>,
      rb_RoleRef = (''rbac.authorization.k8s.io'', ''Role'', getRoleName app),
      rb_Subjects = [(''ServiceAccount'', getServiceAccountName app)]\<rparr>"

text \<open>Of a variable only its name and its value are kept; no resources is a nil dereference.\<close>

definition newContainers :: "agent_cr \<Rightarrow> container list res" where
  "newContainers app =
     (case sp_Resources (cr_Spec app) of
        None \<Rightarrow> Panic ''invalid memory address or nil pointer dereference''
      | Some r \<Rightarrow> Ret
          [\<lparr>co_Name = ''sourcecov-agent'', co_Image = sp_Image (cr_Spec app),
            co_Env = map (\<lambda>e. \<lparr>ev_Name = ev_Name e, ev_Value = ev_Value e, ev_ValueFrom = None\<rparr>)
                       (sp_Env (cr_Spec app)),
            co_Resources = r, co_ImagePullPolicy = ''IfNotPresent'',
            co_VolumeMounts = [(volumeName, sp_VolumePath (cr_Spec app), False)]\<rparr>])"

definition drop_snapshot :: "agent_cr \<Rightarrow> agent_cr" where
  "drop_snapshot app =
     app\<lparr>cr_Annotations := (cr_Annotations app)(CSISnapshotMaxHistory := None),
         cr_Spec := (cr_Spec app)\<lparr>sp_Annotations :=
           (sp_Annotations (cr_Spec app))(CSISnapshotMaxHistory := None)\<rparr>\<rparr>"

text \<open>
  The map \<open>labels\<close> is one object: the selector is built from it before the loops fill it, so
  it sees what they put in; so do the set and the template. The snapshot annotations are
  taken out of the agent itself and collected in a map that is not used.
\<close>

definition sts_labels :: "agent_cr \<Rightarrow> labels" where
  "sts_labels app = getLables app ++ cr_Labels app ++ sp_Labels (cr_Spec app)"

definition convertSts :: "agent_cr \<Rightarrow> set_owner \<Rightarrow> (stateful_set \<times> agent_cr) res" where
  "convertSts app0 setOwnerRef =
     (let app = drop_snapshot app0; sp = cr_Spec app; labels = sts_labels app in
      case newContainers app of
        Panic e \<Rightarrow> Panic e
      | Blocked \<Rightarrow> Blocked
      | Ret containers \<Rightarrow> Ret
          (\<lparr>st_Meta = setOwnerRef app \<lparr>om_Name = cr_Name app, om_Namespace = getNamespace app,
              om_Labels = labels, om_owner = None\<rparr>,
            st_Spec = \<lparr>ss_Replicas = 1, ss_Selector = labels,
              ss_Template = \<lparr>pt_Labels = labels, pt_Annotations = sp_Annotations sp,
                pt_Containers = containers, pt_ServiceAccountName = getNamePrefix app @ ''-sa'',
                pt_Affinity = sp_Affinity sp, pt_Tolerations = sp_Tolerations sp,
                pt_NodeSelector = sp_NodeSelector sp\<rparr>,
              ss_VolumeClaimTemplates = [\<lparr>vc_Name = volumeName, vc_Annotations = Map.empty,
                vc_StorageClassName = sp_StorageClassName sp, vc_AccessModes = [''ReadWriteOnce''],
                vc_Requests = [(''storage'', sp_StorageSize sp)]\<rparr>]\<rparr>,
            st_Status = JNull\<rparr>, app))"

text \<open>The set is converted first; the others are built from the agent it leaves.\<close>

definition ConvertAgent :: "agent_cr \<Rightarrow> set_owner \<Rightarrow> (agent_resources \<times> agent_cr) res" where
  "ConvertAgent app setOwnerRef =
     (case convertSts app setOwnerRef of
        Panic e \<Rightarrow> Panic e
      | Blocked \<Rightarrow> Blocked
      | Ret r \<Rightarrow> Ret
          (\<lparr>ar_StatefulSet = fst r,
            ar_ServiceAccount = convertServiceAccount (snd r) setOwnerRef,
            ar_RoleBinding = convertRoleBinding (snd r) setOwnerRef,
            ar_Role = convertRole (snd r) setOwnerRef\<rparr>, snd r))"

definition default_resources :: resource_requirements where
  "default_resources =
     \<lparr>rr_Limits = [(''cpu'', ''2''), (''memory'', ''4Gi'')],
      rr_Requests = [(''cpu'', ''2''), (''memory'', ''4Gi'')]\<rparr>"

definition FillDefaultValue :: "agent_cr \<Rightarrow> agent_cr" where
  "FillDefaultValue origin =
     origin\<lparr>cr_Spec := (cr_Spec origin)
       \<lparr>sp_VolumePath := (if sp_VolumePath (cr_Spec origin) = [] then ''/jacoco/work''
                          else sp_VolumePath (cr_Spec origin)),
        sp_Resources := (case sp_Resources (cr_Spec origin) of
                           None \<Rightarrow> Some default_resources | Some r \<Rightarrow> Some r)\<rparr>\<rparr>"

subsection \<open>Properties\<close>

lemma agent_cr_eqI:
  fixes a b :: agent_cr
  shows "cr_Name a = cr_Name b \<Longrightarrow> cr_Namespace a = cr_Namespace b \<Longrightarrow> cr_Labels a = cr_Labels b \<Longrightarrow>
    cr_Annotations a = cr_Annotations b \<Longrightarrow> cr_deleting a = cr_deleting b \<Longrightarrow>
    cr_Spec a = cr_Spec b \<Longrightarrow> cr_Status a = cr_Status b \<Longrightarrow> a = b"
  by (cases a; cases b) simp

lemma FillDefaultValue_idem: "FillDefaultValue (FillDefaultValue app) = FillDefaultValue app"
  by (simp add: FillDefaultValue_def split: option.split)

lemma FillDefaultValue_complete:
  "sp_VolumePath (cr_Spec (FillDefaultValue app)) \<noteq> []"
  "\<exists>r. sp_Resources (cr_Spec (FillDefaultValue app)) = Some r"
  by (simp_all add: FillDefaultValue_def split: option.split)

lemma drop_snapshot_idem: "drop_snapshot (drop_snapshot app) = drop_snapshot app"
  by (simp add: drop_snapshot_def)

text \<open>
  What \<open>ctrl.SetControllerReference\<close> is documented to do: it sets the owner, so names,
  namespaces and labels stay.
\<close>

definition keeps_identity :: "set_owner \<Rightarrow> bool" where
  "keeps_identity own \<longleftrightarrow> (\<forall>a m. om_Name (own a m) = om_Name m \<and> om_Namespace (own a m) = om_Namespace m
     \<and> om_Labels (own a m) = om_Labels m)"

definition owned_by :: set_owner where
  "owned_by a m = m\<lparr>om_owner := Some (cr_Name a)\<rparr>"

lemma owned_by_identity: "keeps_identity owned_by"
  by (simp add: keeps_identity_def owned_by_def)

lemma ConvertAgent_Ret:
  assumes "sp_Resources (cr_Spec app) = Some r"
  shows "\<exists>res. ConvertAgent app own = Ret (res, drop_snapshot app)"
  using assms by (simp add: ConvertAgent_def convertSts_def newContainers_def Let_def drop_snapshot_def)

text \<open>Names refer to each other: what the objects of one agent have to agree on.\<close>

definition linked :: "agent_cr \<Rightarrow> agent_resources \<Rightarrow> bool" where
  "linked app res \<longleftrightarrow>
     (let sts = ar_StatefulSet res; tmpl = ss_Template (st_Spec sts);
          sa = sa_Meta (ar_ServiceAccount res); ro = ro_Meta (ar_Role res); rb = ar_RoleBinding res
      in pt_ServiceAccountName tmpl = om_Name sa
         \<and> rb_Subjects rb = [(''ServiceAccount'', om_Name sa)]
         \<and> rb_RoleRef rb = (''rbac.authorization.k8s.io'', ''Role'', om_Name ro)
         \<and> ss_Selector (st_Spec sts) = pt_Labels tmpl
         \<and> om_Labels (st_Meta sts) = pt_Labels tmpl
         \<and> map co_VolumeMounts (pt_Containers tmpl)
             = [map (\<lambda>v. (vc_Name v, sp_VolumePath (cr_Spec app), False)) (ss_VolumeClaimTemplates (st_Spec sts))]
         \<and> om_Name (st_Meta sts) = cr_Name app
         \<and> distinct [om_Name sa, om_Name ro, om_Name (rb_Meta rb)]
         \<and> list_all (\<lambda>m. om_Namespace m = cr_Namespace app) [st_Meta sts, sa, ro, rb_Meta rb])"

text \<open>
  C21. The objects made from an agent with defaults fit together: the pods run under the
  account that is created, the binding binds it to the role that is created, the selector is
  the labels of the pods, every claim is mounted at the path of the spec, all are in the
  namespace of the agent and the names differ.
\<close>

theorem ConvertAgent_linked:
  assumes "keeps_identity own"
  shows "\<exists>res. ConvertAgent (FillDefaultValue app) own = Ret (res, drop_snapshot (FillDefaultValue app))
           \<and> linked (FillDefaultValue app) res"
proof -
  obtain r where r: "sp_Resources (cr_Spec (FillDefaultValue app)) = Some r"
    using FillDefaultValue_complete(2) by blast
  then obtain res where res: "ConvertAgent (FillDefaultValue app) own = Ret (res, drop_snapshot (FillDefaultValue app))"
    using ConvertAgent_Ret by blast
  moreover have "linked (FillDefaultValue app) res"
    using res r assms
    by (auto simp: ConvertAgent_def convertSts_def newContainers_def Let_def linked_def keeps_identity_def
        drop_snapshot_def convertServiceAccount_def convertRole_def convertRoleBinding_def
        getServiceAccountName_def getRoleName_def getNamePrefix_def getNamespace_def)
  ultimately show ?thesis by blast
qed

definition demo_cr :: agent_cr where
  "demo_cr = \<lparr>cr_Name = ''demo'', cr_Namespace = ''ns'', cr_Labels = [''team'' \<mapsto> ''a''],
     cr_Annotations = Map.empty, cr_deleting = False,
     cr_Spec = \<lparr>sp_Image = ''agent:1'', sp_Env = [], sp_StorageClassName = ''ssd'', sp_StorageSize = ''1Gi'',
       sp_Labels = Map.empty, sp_VolumePath = [], sp_Resources = None, sp_Affinity = None,
       sp_Annotations = Map.empty, sp_NodeSelector = Map.empty, sp_Tolerations = []\<rparr>,
     cr_Status = JNull\<rparr>"

theorem ConvertAgent_linked_witness:
  "\<exists>res. ConvertAgent (FillDefaultValue demo_cr) owned_by = Ret (res, drop_snapshot (FillDefaultValue demo_cr))
       \<and> linked (FillDefaultValue demo_cr) res"
  by (rule ConvertAgent_linked [OF owned_by_identity])

text \<open>
  Filling in defaults twice is filling them in once; afterwards resources and path are
  set, and nothing changes exactly when both were set before.
\<close>

lemma FillDefaultValue_spec:
  "FillDefaultValue (FillDefaultValue app) = FillDefaultValue app
   \<and> (\<exists>r. sp_Resources (cr_Spec (FillDefaultValue app)) = Some r)
   \<and> sp_VolumePath (cr_Spec (FillDefaultValue app)) \<noteq> []
   \<and> (FillDefaultValue app = app
        \<longleftrightarrow> sp_VolumePath (cr_Spec app) \<noteq> [] \<and> sp_Resources (cr_Spec app) \<noteq> None)"
proof -
  have "FillDefaultValue app = app"
    if "sp_VolumePath (cr_Spec app) \<noteq> []" "sp_Resources (cr_Spec app) \<noteq> None"
    using that by (cases app) (auto simp: FillDefaultValue_def split: option.split)
  then show ?thesis
    using FillDefaultValue_idem [of app] FillDefaultValue_complete [of app] by (metis option.distinct(1))
qed

text \<open>
  Without defaults the conversion dereferences nil; the selector of the set contains the
  labels of the agent, although it is written down before they are added; a variable that
  takes its value from elsewhere loses it; the snapshot annotation reaches no claim.
\<close>

lemma ConvertAgent_needs_defaults:
  "sp_Resources (cr_Spec app) = None \<Longrightarrow>
     ConvertAgent app own = Panic ''invalid memory address or nil pointer dereference''"
  by (simp add: ConvertAgent_def convertSts_def newContainers_def Let_def drop_snapshot_def)

lemma selector_has_agent_labels:
  "ConvertAgent app own = Ret (res, app') \<Longrightarrow> agents_label \<noteq> k \<Longrightarrow> sp_Labels (cr_Spec app) k = None \<Longrightarrow>
     ss_Selector (st_Spec (ar_StatefulSet res)) k = cr_Labels app k"
  by (auto simp: ConvertAgent_def convertSts_def sts_labels_def getLables_def drop_snapshot_def Let_def
      map_add_def split: res.splits option.splits)

lemma value_from_is_lost:
  "newContainers app = Ret cs \<Longrightarrow> c \<in> set cs \<Longrightarrow> e \<in> set (co_Env c) \<Longrightarrow> ev_ValueFrom e = None"
  by (auto simp: newContainers_def split: option.splits)

lemma snapshot_annotation_is_lost:
  "ConvertAgent app own = Ret (res, app') \<Longrightarrow>
     map vc_Annotations (ss_VolumeClaimTemplates (st_Spec (ar_StatefulSet res))) = [Map.empty]
     \<and> cr_Annotations app' CSISnapshotMaxHistory = None
     \<and> sp_Annotations (cr_Spec app') CSISnapshotMaxHistory = None"
  by (auto simp: ConvertAgent_def convertSts_def drop_snapshot_def Let_def split: res.splits)

end
