(* ===== verification/Reconciler.thy ===== *)
theory Reconciler
  imports Converter Machine
begin

text \<open>
  The controller (\<open>controllers/agent_controller.go\<close>). The client of the cluster answers by
  arbitrary functions of the history of calls; the agent object the reconciler holds a
  pointer to is part of the state, because the conversion and the annotations change it.
\<close>

subsection \<open>The client\<close>

datatype client_error =
    AlreadyExists
  | NotFound
  | ParseError string
  | OtherError string

datatype k8s_object =
    OServiceAccount service_account
  | ORole role
  | ORoleBinding role_binding
  | OStatefulSet stateful_set
  | OAgent agent_cr

datatype call =
    Create k8s_object
  | Update k8s_object
  | GetAgent string string            \<comment> \<open>namespace, name\<close>
  | GetSts string string
  | ListSts string labels
  | StatusUpdate agent_cr

type_synonym calls = "call list"

text \<open>
  \<open>k_size\<close> is the method \<open>Size\<close> of a list object, which its generated code computes;
  \<open>k_marshal\<close> and \<open>k_parse\<close> are \<open>encoding/json\<close> on a spec.
\<close>

record client =
  k_create :: "calls \<Rightarrow> k8s_object \<Rightarrow> client_error option"
  k_update :: "calls \<Rightarrow> k8s_object \<Rightarrow> client_error option"
  k_getAgent :: "calls \<Rightarrow> string \<Rightarrow> string \<Rightarrow> client_error + agent_cr"
  k_getSts :: "calls \<Rightarrow> string \<Rightarrow> string \<Rightarrow> client_error + stateful_set"
  k_list :: "calls \<Rightarrow> string \<Rightarrow> labels \<Rightarrow> client_error + stateful_set list"
  k_statusUpdate :: "calls \<Rightarrow> agent_cr \<Rightarrow> client_error option"
  k_size :: "stateful_set list \<Rightarrow> nat"
  k_marshal :: "agent_spec \<Rightarrow> string"
  k_parse :: "string \<Rightarrow> client_error + agent_spec"
  k_owner :: set_owner

record controller =
  ct_calls :: calls
  ct_agent :: agent_cr

definition call :: "(calls \<Rightarrow> 'a) \<Rightarrow> call \<Rightarrow> (controller, 'a) prog" where
  "call f c = (\<lambda>s. (Ret (f (ct_calls s)), s\<lparr>ct_calls := ct_calls s @ [c]\<rparr>))"

definition client_Create :: "client \<Rightarrow> k8s_object \<Rightarrow> (controller, client_error option) prog" where
  "client_Create K obj = call (\<lambda>h. k_create K h obj) (Create obj)"

definition client_Update :: "client \<Rightarrow> k8s_object \<Rightarrow> (controller, client_error option) prog" where
  "client_Update K obj = call (\<lambda>h. k_update K h obj) (Update obj)"

lemma go_bind_call [go_eval]:
  "go_bind (call f c) k s = k (f (ct_calls s)) (s\<lparr>ct_calls := ct_calls s @ [c]\<rparr>)"
  by (simp add: call_def go_bind_def)

lemma call_eval [go_eval]: "call f c s = (Ret (f (ct_calls s)), s\<lparr>ct_calls := ct_calls s @ [c]\<rparr>)"
  by (simp add: call_def)

subsection \<open>The operations\<close>

definition upsertResource :: "client \<Rightarrow> k8s_object \<Rightarrow> (controller, client_error option) prog" where
  "upsertResource K object =
     go_bind (client_Create K object) (\<lambda>err.
       case err of
         None \<Rightarrow> go_ret None
       | Some e \<Rightarrow> if e = AlreadyExists then client_Update K object else go_ret (Some e))"

text \<open>Statements that end the function with their error.\<close>

definition or_else :: "(controller, client_error option) prog \<Rightarrow> (controller, client_error option) prog \<Rightarrow>
    (controller, client_error option) prog" where
  "or_else m n = go_bind m (\<lambda>err. case err of Some e \<Rightarrow> go_ret (Some e) | None \<Rightarrow> n)"

text \<open>\<open>ConvertAgent\<close> on the agent of the state, which it changes.\<close>

definition convert :: "client \<Rightarrow> (controller, agent_resources) prog" where
  "convert K = (\<lambda>s. case ConvertAgent (ct_agent s) (k_owner K) of
     Ret r \<Rightarrow> (Ret (fst r), s\<lparr>ct_agent := snd r\<rparr>)
   | Panic e \<Rightarrow> (Panic e, s)
   | Blocked \<Rightarrow> (Blocked, s))"

definition spec_key :: string where "spec_key = ''spec''"

text \<open>Both operations end so: the spec is noted in the annotations, the agent is updated.\<close>

definition note_spec :: "client \<Rightarrow> agent_cr \<Rightarrow> agent_cr" where
  "note_spec K a = a\<lparr>cr_Annotations := (cr_Annotations a)(spec_key \<mapsto> k_marshal K (cr_Spec a))\<rparr>"

definition update_agent :: "client \<Rightarrow> (controller, client_error option) prog" where
  "update_agent K =
     go_seq (go_mod (\<lambda>s. s\<lparr>ct_agent := note_spec K (ct_agent s)\<rparr>))
       (go_bind (go_get ct_agent) (\<lambda>agent. client_Update K (OAgent agent)))"

definition CreateResource :: "client \<Rightarrow> (controller, client_error option) prog" where
  "CreateResource K =
     go_bind (convert K) (\<lambda>resources.
       or_else (upsertResource K (OServiceAccount (ar_ServiceAccount resources)))
       (or_else (upsertResource K (ORole (ar_Role resources)))
       (or_else (upsertResource K (ORoleBinding (ar_RoleBinding resources)))
       (or_else (client_Create K (OStatefulSet (ar_StatefulSet resources)))
         (update_agent K)))))"

definition UpdateResource :: "client \<Rightarrow> stateful_set \<Rightarrow> (controller, client_error option) prog" where
  "UpdateResource K oldDeploy =
     go_bind (convert K) (\<lambda>resources.
       or_else (upsertResource K (ORole (ar_Role resources)))
       (or_else (upsertResource K (ORoleBinding (ar_RoleBinding resources)))
       (or_else (upsertResource K (OServiceAccount (ar_ServiceAccount resources)))
       (or_else (client_Update K (OStatefulSet (oldDeploy\<lparr>st_Spec := st_Spec (ar_StatefulSet resources)\<rparr>)))
         (update_agent K)))))"

text \<open>The result: whether to come back in a minute, and the error.\<close>

type_synonym reconcile_result = "bool \<times> client_error option"

definition requeue :: "(controller, client_error option) prog \<Rightarrow> (controller, reconcile_result) prog" where
  "requeue m = go_bind m (\<lambda>err. go_ret (err = None, err))"

definition index_error :: string where
  "index_error = ''index out of range [0] with length 0''"

definition sync_status :: "client \<Rightarrow> (controller, reconcile_result) prog" where
  "sync_status K =
     go_bind (go_get ct_agent) (\<lambda>agent.
     go_bind (call (\<lambda>h. k_list K h (cr_Namespace agent) (getLables agent))
                (ListSts (cr_Namespace agent) (getLables agent))) (\<lambda>res.
       case res of
         Inl e \<Rightarrow> go_ret (False, Some e)
       | Inr items \<Rightarrow>
           if k_size K items = 0 then go_ret (False, None)
           else (case items of
                   [] \<Rightarrow> go_panic index_error
                 | item # _ \<Rightarrow>
                     if st_Status item = cr_Status agent then go_ret (False, None)
                     else
                       go_seq (go_mod (\<lambda>s. s\<lparr>ct_agent := (ct_agent s)\<lparr>cr_Status := st_Status item\<rparr>\<rparr>))
                       (go_bind (go_get ct_agent) (\<lambda>agent.
                        go_bind (call (\<lambda>h. k_statusUpdate K h agent) (StatusUpdate agent)) (\<lambda>err.
                          go_ret (False, err)))))))"

definition spec_text :: "agent_cr \<Rightarrow> string" where
  "spec_text a = (case cr_Annotations a spec_key of None \<Rightarrow> [] | Some t \<Rightarrow> t)"

definition sync_existing :: "client \<Rightarrow> stateful_set \<Rightarrow> (controller, reconcile_result) prog" where
  "sync_existing K oldDeploy =
     go_bind (go_get ct_agent) (\<lambda>agent.
       case k_parse K (spec_text agent) of
         Inl e \<Rightarrow> go_ret (False, Some e)
       | Inr oldSpec \<Rightarrow>
           if cr_Spec agent \<noteq> oldSpec then requeue (UpdateResource K oldDeploy) else sync_status K)"

definition Reconcile :: "client \<Rightarrow> string \<Rightarrow> string \<Rightarrow> (controller, reconcile_result) prog" where
  "Reconcile K ns name =
     go_bind (call (\<lambda>h. k_getAgent K h ns name) (GetAgent ns name)) (\<lambda>res.
       case res of
         Inl e \<Rightarrow> go_ret (False, if e = NotFound then None else Some e)
       | Inr agent \<Rightarrow>
           if cr_deleting agent then go_ret (False, None)
           else
             go_seq (go_mod (\<lambda>s. s\<lparr>ct_agent := FillDefaultValue agent\<rparr>))
             (go_bind (call (\<lambda>h. k_getSts K h ns name) (GetSts ns name)) (\<lambda>res.
               case res of
                 Inl e \<Rightarrow> if e \<noteq> NotFound then go_ret (False, Some e) else requeue (CreateResource K)
               | Inr oldDeploy \<Rightarrow> sync_existing K oldDeploy)))"

subsection \<open>A cluster that serves what it stores\<close>

text \<open>Objects are stored by kind, namespace and name; the store follows from the calls.\<close>

type_synonym obj_key = "string \<times> string \<times> string"

definition meta_key :: "string \<Rightarrow> object_meta \<Rightarrow> obj_key" where
  "meta_key kind m = (kind, om_Namespace m, om_Name m)"

fun key_of :: "k8s_object \<Rightarrow> obj_key" where
  "key_of (OServiceAccount sa) = meta_key ''ServiceAccount'' (sa_Meta sa)"
| "key_of (ORole ro) = meta_key ''Role'' (ro_Meta ro)"
| "key_of (ORoleBinding rb) = meta_key ''RoleBinding'' (rb_Meta rb)"
| "key_of (OStatefulSet st) = meta_key ''StatefulSet'' (st_Meta st)"
| "key_of (OAgent a) = (''Agent'', cr_Namespace a, cr_Name a)"

type_synonym store = "obj_key \<rightharpoonup> k8s_object"

fun serve :: "store \<Rightarrow> call \<Rightarrow> store" where
  "serve st (Create obj) = (if st (key_of obj) = None then st(key_of obj \<mapsto> obj) else st)"
| "serve st (Update obj) = (if st (key_of obj) = None then st else st(key_of obj \<mapsto> obj))"
| "serve st _ = st"

definition store_after :: "store \<Rightarrow> calls \<Rightarrow> store" where
  "store_after st h = foldl serve st h"

lemma store_after_append [simp]: "store_after st (h @ cs) = foldl serve (store_after st h) cs"
  by (simp add: store_after_def)

lemma store_after_put:
  "store_after st h (key_of obj) = None \<Longrightarrow>
     store_after st (h @ [Create obj]) = (store_after st h)(key_of obj \<mapsto> obj)"
  "store_after st h (key_of obj) \<noteq> None \<Longrightarrow>
     store_after st (h @ [Update obj]) = (store_after st h)(key_of obj \<mapsto> obj)"
  by auto

text \<open>
  What the API is documented to answer: creating a stored object is refused, so is updating
  one that is not stored; reads return what is stored.
\<close>

definition serves :: "client \<Rightarrow> store \<Rightarrow> bool" where
  "serves K st \<longleftrightarrow>
     (\<forall>h obj. k_create K h obj = (if store_after st h (key_of obj) = None then None else Some AlreadyExists)
            \<and> k_update K h obj = (if store_after st h (key_of obj) = None then Some NotFound else None))
     \<and> (\<forall>h ns n a. store_after st h (''Agent'', ns, n) = Some (OAgent a) \<longrightarrow> k_getAgent K h ns n = Inr a)
     \<and> (\<forall>h ns n d. store_after st h (''StatefulSet'', ns, n) = Some (OStatefulSet d)
            \<longrightarrow> k_getSts K h ns n = Inr d)
     \<and> (\<forall>h ns n. store_after st h (''StatefulSet'', ns, n) = None \<longrightarrow> k_getSts K h ns n = Inl NotFound)"

lemma serves_writes:
  assumes "serves K st"
  shows "k_create K h obj = (if store_after st h (key_of obj) = None then None else Some AlreadyExists)"
    and "k_update K h obj = (if store_after st h (key_of obj) = None then Some NotFound else None)"
  using assms by (simp_all add: serves_def)

lemma upsert_put:
  assumes "serves K st"
  shows "\<exists>t. upsertResource K obj s = (Ret None, t) \<and> ct_agent t = ct_agent s
      \<and> store_after st (ct_calls t) = (store_after st (ct_calls s))(key_of obj \<mapsto> obj)"
  using serves_writes [OF assms]
  by (auto simp: upsertResource_def client_Create_def client_Update_def go_eval)

text \<open>
  C18. Upserting an object is one abstract write: in a cluster that refuses to create what
  is stored and to update what is not, it succeeds and the store has the object under its
  key, and is otherwise unchanged.
\<close>

theorem upsertResource_put:
  assumes "serves K st"
  shows "fst (upsertResource K obj s) = Ret None
      \<and> ct_agent (snd (upsertResource K obj s)) = ct_agent s
      \<and> store_after st (ct_calls (snd (upsertResource K obj s)))
          = (store_after st (ct_calls s))(key_of obj \<mapsto> obj)"
  using upsert_put [OF assms, of obj s] by auto

text \<open>Calls as the model counts them: the objects whose creation was asked for, in order.\<close>

definition created :: "calls \<Rightarrow> k8s_object list" where
  "created h = concat (map (\<lambda>c. case c of Create obj \<Rightarrow> [obj] | _ \<Rightarrow> []) h)"

lemma created_append [simp]: "created (g @ h) = created g @ created h"
  by (simp add: created_def)

lemma upsertResource_created:
  "\<exists>err cs. upsertResource K obj s = (Ret err, s\<lparr>ct_calls := ct_calls s @ cs\<rparr>) \<and> created cs = [obj]"
proof (cases "k_create K (ct_calls s) obj = Some AlreadyExists")
  case True
  then show ?thesis
    by (intro exI [of _ "k_update K (ct_calls s @ [Create obj]) obj"] exI [of _ "[Create obj, Update obj]"])
       (simp add: upsertResource_def client_Create_def client_Update_def go_eval created_def)
next
  case False
  then show ?thesis
    by (intro exI [of _ "k_create K (ct_calls s) obj"] exI [of _ "[Create obj]"])
       (simp add: upsertResource_def client_Create_def go_eval created_def split: option.split)
qed

lemma client_Create_created:
  "\<exists>err cs. client_Create K obj s = (Ret err, s\<lparr>ct_calls := ct_calls s @ cs\<rparr>) \<and> created cs = [obj]"
  by (intro exI [of _ "k_create K (ct_calls s) obj"] exI [of _ "[Create obj]"])
     (simp add: client_Create_def go_eval created_def)

lemma update_agent_created:
  "\<exists>err t cs. update_agent K s = (Ret err, t) \<and> ct_calls t = ct_calls s @ cs
     \<and> created cs = [] \<and> (err = None \<longrightarrow> created cs = [])"
  by (simp add: update_agent_def client_Update_def go_eval created_def)

text \<open>
  \<open>creates_upto objs m\<close>: \<open>m\<close> returns, and asks for the creation of a beginning of \<open>objs\<close>, of
  all of them when it returns no error.
\<close>

definition creates_upto :: "k8s_object list \<Rightarrow> (controller, client_error option) prog \<Rightarrow> bool" where
  "creates_upto objs m \<longleftrightarrow> (\<forall>s. \<exists>err t cs. m s = (Ret err, t) \<and> ct_calls t = ct_calls s @ cs
     \<and> prefix (created cs) objs \<and> (err = None \<longrightarrow> created cs = objs))"

lemma creates_then:
  assumes "\<And>s. \<exists>err cs. m s = (Ret err, s\<lparr>ct_calls := ct_calls s @ cs\<rparr>) \<and> created cs = [obj]"
    and "creates_upto objs n"
  shows "creates_upto (obj # objs) (or_else m n)"
  unfolding creates_upto_def
proof (rule allI)
  fix s
  obtain err cs where m: "m s = (Ret err, s\<lparr>ct_calls := ct_calls s @ cs\<rparr>)" "created cs = [obj]"
    using assms(1) by blast
  show "\<exists>err t cs. or_else m n s = (Ret err, t) \<and> ct_calls t = ct_calls s @ cs
     \<and> prefix (created cs) (obj # objs) \<and> (err = None \<longrightarrow> created cs = obj # objs)"
  proof (cases err)
    case (Some e)
    then have "or_else m n s = (Ret (Some e), s\<lparr>ct_calls := ct_calls s @ cs\<rparr>)"
      using m by (simp add: or_else_def go_bind_Ret go_eval)
    then show ?thesis using m(2) by auto
  next
    case None
    let ?s = "s\<lparr>ct_calls := ct_calls s @ cs\<rparr>"
    obtain err' t ds where n: "n ?s = (Ret err', t)" "ct_calls t = ct_calls ?s @ ds"
      "prefix (created ds) objs" "err' = None \<longrightarrow> created ds = objs"
      using assms(2) unfolding creates_upto_def by blast
    have "or_else m n s = (Ret err', t)" using None m n(1) by (simp add: or_else_def go_bind_Ret)
    then show ?thesis using n m(2) by (intro exI [of _ err'] exI [of _ t] exI [of _ "cs @ ds"]) auto
  qed
qed

lemma creates_nothing: "creates_upto [] (update_agent K)"
  using update_agent_created [of K] by (simp add: creates_upto_def)


subsection \<open>Creating and settling\<close>

text \<open>What the agent looks like after its objects were created.\<close>

definition settled :: "client \<Rightarrow> agent_cr \<Rightarrow> agent_cr" where
  "settled K a = note_spec K (drop_snapshot (FillDefaultValue a))"

lemma settled_fields:
  "cr_Name (settled K a) = cr_Name a" "cr_Namespace (settled K a) = cr_Namespace a"
  "cr_deleting (settled K a) = cr_deleting a" "FillDefaultValue (settled K a) = settled K a"
  "spec_text (settled K a) = k_marshal K (cr_Spec (settled K a))"
  by (simp_all add: settled_def note_spec_def drop_snapshot_def FillDefaultValue_def spec_text_def
      split: option.split)

lemma or_else_None: "m s = (Ret None, t) \<Longrightarrow> or_else m n s = n t"
  by (simp add: or_else_def go_bind_Ret)

definition put_resources :: "client \<Rightarrow> agent_cr \<Rightarrow> agent_resources \<Rightarrow> store \<Rightarrow> store" where
  "put_resources K a res st =
     (foldl (\<lambda>st obj. st(key_of obj \<mapsto> obj)) st
        [OServiceAccount (ar_ServiceAccount res), ORole (ar_Role res), ORoleBinding (ar_RoleBinding res),
         OStatefulSet (ar_StatefulSet res), OAgent (settled K a)])"

lemma CreateResource_put:
  assumes K: "serves K st" "keeps_identity (k_owner K)"
    and s: "ct_agent s = FillDefaultValue a"
    and st: "store_after st (ct_calls s) (''StatefulSet'', cr_Namespace a, cr_Name a) = None"
      "store_after st (ct_calls s) (''Agent'', cr_Namespace a, cr_Name a) \<noteq> None"
  shows "\<exists>res t. ConvertAgent (FillDefaultValue a) (k_owner K) = Ret (res, drop_snapshot (FillDefaultValue a))
      \<and> CreateResource K s = (Ret None, t)
      \<and> store_after st (ct_calls t) = put_resources K a res (store_after st (ct_calls s))"
proof -
  obtain r where "sp_Resources (cr_Spec (FillDefaultValue a)) = Some r"
    using FillDefaultValue_complete(2) by blast
  then obtain res where res: "ConvertAgent (FillDefaultValue a) (k_owner K)
      = Ret (res, drop_snapshot (FillDefaultValue a))" using ConvertAgent_Ret by blast
  let ?sa = "OServiceAccount (ar_ServiceAccount res)" and ?ro = "ORole (ar_Role res)"
    and ?rb = "ORoleBinding (ar_RoleBinding res)" and ?sts = "OStatefulSet (ar_StatefulSet res)"
  have key: "key_of ?sts = (''StatefulSet'', cr_Namespace a, cr_Name a)"
    using res K(2)
    by (auto simp: ConvertAgent_def convertSts_def Let_def keeps_identity_def meta_key_def drop_snapshot_def
        FillDefaultValue_def getNamespace_def split: res.splits)
  let ?s0 = "s\<lparr>ct_agent := drop_snapshot (FillDefaultValue a)\<rparr>"
  obtain t1 where t1: "upsertResource K ?sa ?s0 = (Ret None, t1)" "ct_agent t1 = ct_agent ?s0"
    "store_after st (ct_calls t1) = (store_after st (ct_calls ?s0))(key_of ?sa \<mapsto> ?sa)"
    using upsert_put [OF K(1)] by blast
  obtain t2 where t2: "upsertResource K ?ro t1 = (Ret None, t2)" "ct_agent t2 = ct_agent t1"
    "store_after st (ct_calls t2) = (store_after st (ct_calls t1))(key_of ?ro \<mapsto> ?ro)"
    using upsert_put [OF K(1)] by blast
  obtain t3 where t3: "upsertResource K ?rb t2 = (Ret None, t3)" "ct_agent t3 = ct_agent t2"
    "store_after st (ct_calls t3) = (store_after st (ct_calls t2))(key_of ?rb \<mapsto> ?rb)"
    using upsert_put [OF K(1)] by blast
  have free: "store_after st (ct_calls t3) (key_of ?sts) = None"
    using st(1) unfolding key t3(3) t2(3) t1(3) by (simp add: meta_key_def)
  let ?t4 = "t3\<lparr>ct_calls := ct_calls t3 @ [Create ?sts]\<rparr>"
  have t4: "client_Create K ?sts t3 = (Ret None, ?t4)"
    using free serves_writes(1) [OF K(1)] by (simp add: client_Create_def go_eval)
  have st4: "store_after st (ct_calls ?t4) = (store_after st (ct_calls t3))(key_of ?sts \<mapsto> ?sts)"
    using store_after_put(1) [OF free] by simp
  have ag: "ct_agent t3 = drop_snapshot (FillDefaultValue a)" using t1(2) t2(2) t3(2) by simp
  let ?A = "settled K a"
  let ?t5 = "?t4\<lparr>ct_agent := ?A, ct_calls := ct_calls ?t4 @ [Update (OAgent ?A)]\<rparr>"
  have there: "store_after st (ct_calls ?t4) (key_of (OAgent ?A)) \<noteq> None"
    using st(2) unfolding st4 key t3(3) t2(3) t1(3) by (simp add: meta_key_def settled_fields)
  have "update_agent K ?t4 = (Ret None, ?t5)"
    using there ag serves_writes(2) [OF K(1)]
    by (simp add: update_agent_def client_Update_def go_eval settled_def)
  then have "CreateResource K s = (Ret None, ?t5)"
    using res s t1(1) t2(1) t3(1) t4
    by (simp add: CreateResource_def convert_def go_bind_def or_else_None)
  moreover have "store_after st (ct_calls ?t5) = put_resources K a res (store_after st (ct_calls s))"
  proof -
    have "ct_calls ?t5 = ct_calls ?t4 @ [Update (OAgent ?A)]" "ct_calls ?s0 = ct_calls s" by simp_all
    then show ?thesis
      unfolding put_resources_def foldl.simps
      by (simp only: store_after_put(2) [OF there] st4 t3(3) t2(3) t1(3))
  qed
  ultimately show ?thesis using res by blast
qed

text \<open>Bringing the status up to date writes no object.\<close>

lemma sync_status_store: "store_after st (ct_calls (snd (sync_status K s))) = store_after st (ct_calls s)"
  by (simp add: sync_status_def go_eval split: sum.split list.split)

text \<open>
  C17. Against a cluster that serves what it stores, one reconciliation of an agent without
  a set stores its account, role, binding, set and the agent with a note of its spec, and
  asks to come back; the next one finds nothing to create or update: it only brings the
  status up to date and leaves the store as it is.
\<close>

theorem Reconcile_settles:
  assumes K: "serves K st" "keeps_identity (k_owner K)"
    and a: "store_after st (ct_calls s) (''Agent'', cr_Namespace a, cr_Name a) = Some (OAgent a)"
      "\<not> cr_deleting a"
    and none: "store_after st (ct_calls s) (''StatefulSet'', cr_Namespace a, cr_Name a) = None"
    and json: "k_parse K (k_marshal K (cr_Spec (settled K a))) = Inr (cr_Spec (settled K a))"
  shows "\<exists>res t. Reconcile K (cr_Namespace a) (cr_Name a) s = (Ret (True, None), t)
      \<and> store_after st (ct_calls t) = put_resources K a res (store_after st (ct_calls s))
      \<and> Reconcile K (cr_Namespace a) (cr_Name a) t
          = sync_status K (t\<lparr>ct_agent := settled K a, ct_calls := ct_calls t @
              [GetAgent (cr_Namespace a) (cr_Name a), GetSts (cr_Namespace a) (cr_Name a)]\<rparr>)
      \<and> store_after st (ct_calls (snd (Reconcile K (cr_Namespace a) (cr_Name a) t)))
          = store_after st (ct_calls t)"
proof -
  let ?ns = "cr_Namespace a" and ?n = "cr_Name a"
  have ga: "k_getAgent K h ?ns ?n = Inr b" if "store_after st h (''Agent'', ?ns, ?n) = Some (OAgent b)" for h b
    using K(1) that by (simp add: serves_def)
  have gs: "k_getSts K h ?ns ?n = Inr d" if "store_after st h (''StatefulSet'', ?ns, ?n) = Some (OStatefulSet d)"
    for h d using K(1) that by (simp add: serves_def)
  let ?s1 = "s\<lparr>ct_agent := FillDefaultValue a, ct_calls := ct_calls s @ [GetAgent ?ns ?n, GetSts ?ns ?n]\<rparr>"
  have st1: "store_after st (ct_calls ?s1) = store_after st (ct_calls s)" by simp
  obtain res t where res: "ConvertAgent (FillDefaultValue a) (k_owner K) = Ret (res, drop_snapshot (FillDefaultValue a))"
    and c: "CreateResource K ?s1 = (Ret None, t)"
    and st: "store_after st (ct_calls t) = put_resources K a res (store_after st (ct_calls s))"
    using CreateResource_put [OF K, of ?s1 a] a none st1 by auto
  have "k_getSts K (ct_calls s @ [GetAgent ?ns ?n]) ?ns ?n = Inl NotFound"
    using K(1) none by (simp add: serves_def)
  then have first: "Reconcile K ?ns ?n s = (Ret (True, None), t)"
    using ga [OF a(1)] a(2) c by (simp add: Reconcile_def requeue_def go_eval go_bind_Ret)
  have sts: "store_after st (ct_calls t) (''StatefulSet'', ?ns, ?n) = Some (OStatefulSet (ar_StatefulSet res))"
    using res K(2) unfolding st put_resources_def
    by (auto simp: ConvertAgent_def convertSts_def Let_def keeps_identity_def meta_key_def drop_snapshot_def
        FillDefaultValue_def getNamespace_def settled_fields split: res.splits)
  have agent: "store_after st (ct_calls t) (''Agent'', ?ns, ?n) = Some (OAgent (settled K a))"
    unfolding st put_resources_def by (simp add: settled_fields)
  have "k_getSts K (ct_calls t @ [GetAgent ?ns ?n]) ?ns ?n = Inr (ar_StatefulSet res)"
    using sts by (intro gs) simp
  then have "Reconcile K ?ns ?n t = sync_status K (t\<lparr>ct_agent := settled K a, ct_calls := ct_calls t @
              [GetAgent ?ns ?n, GetSts ?ns ?n]\<rparr>)"
    using ga [OF agent] a(2) json
    by (simp add: Reconcile_def sync_existing_def go_eval settled_fields)
  moreover from this have "store_after st (ct_calls (snd (Reconcile K ?ns ?n t))) = store_after st (ct_calls t)"
    by (simp add: sync_status_store)
  ultimately show ?thesis using first st by blast
qed

text \<open>A client of a store, for examples: a spec is marshalled to one text.\<close>

definition store_client :: "store \<Rightarrow> agent_spec \<Rightarrow> client" where
  "store_client st sp =
     \<lparr>k_create = \<lambda>h obj. if store_after st h (key_of obj) = None then None else Some AlreadyExists,
      k_update = \<lambda>h obj. if store_after st h (key_of obj) = None then Some NotFound else None,
      k_getAgent = \<lambda>h ns n. (case store_after st h (''Agent'', ns, n) of
                     Some (OAgent a) \<Rightarrow> Inr a | _ \<Rightarrow> Inl NotFound),
      k_getSts = \<lambda>h ns n. (case store_after st h (''StatefulSet'', ns, n) of
                     Some (OStatefulSet d) \<Rightarrow> Inr d | _ \<Rightarrow> Inl NotFound),
      k_list = \<lambda>h ns lb. Inr (case lb agents_label of None \<Rightarrow> [] | Some n \<Rightarrow>
                 (case store_after st h (''StatefulSet'', ns, n) of Some (OStatefulSet d) \<Rightarrow> [d] | _ \<Rightarrow> [])),
      k_statusUpdate = \<lambda>_ _. None, k_size = \<lambda>items. 2 + length items,
      k_marshal = \<lambda>_. ''{}'',
      k_parse = \<lambda>t. if t = ''{}'' then Inr sp else Inl (ParseError ''unexpected end of JSON input''),
      k_owner = owned_by\<rparr>"

lemma store_client_serves: "serves (store_client st sp) st"
  by (simp add: serves_def store_client_def)

lemma store_client_owner: "keeps_identity (k_owner (store_client st sp))"
  by (simp add: store_client_def owned_by_identity)

definition demo_store :: store where
  "demo_store = [(''Agent'', ''ns'', ''demo'') \<mapsto> OAgent demo_cr]"

definition demo_client :: client where
  "demo_client = store_client demo_store (cr_Spec (drop_snapshot (FillDefaultValue demo_cr)))"

definition demo_start :: controller where
  "demo_start = \<lparr>ct_calls = [], ct_agent = demo_cr\<rparr>"

theorem Reconcile_settles_witness:
  "\<exists>res t. Reconcile demo_client ''ns'' ''demo'' demo_start = (Ret (True, None), t)
      \<and> store_after demo_store (ct_calls t) = put_resources demo_client demo_cr res demo_store
      \<and> store_after demo_store (ct_calls (snd (Reconcile demo_client ''ns'' ''demo'' t)))
          = store_after demo_store (ct_calls t)"
proof -
  have "serves demo_client demo_store" "keeps_identity (k_owner demo_client)"
    by (simp_all add: demo_client_def store_client_serves store_client_owner)
  moreover have "store_after demo_store (ct_calls demo_start) (''Agent'', cr_Namespace demo_cr, cr_Name demo_cr)
      = Some (OAgent demo_cr)" "\<not> cr_deleting demo_cr"
    "store_after demo_store (ct_calls demo_start) (''StatefulSet'', cr_Namespace demo_cr, cr_Name demo_cr) = None"
    by (simp_all add: demo_start_def demo_store_def demo_cr_def store_after_def)
  moreover have "k_parse demo_client (k_marshal demo_client (cr_Spec (settled demo_client demo_cr)))
      = Inr (cr_Spec (settled demo_client demo_cr))"
    by (simp add: demo_client_def store_client_def settled_def note_spec_def)
  ultimately have "\<exists>res t. Reconcile demo_client (cr_Namespace demo_cr) (cr_Name demo_cr) demo_start = (Ret (True, None), t)
      \<and> store_after demo_store (ct_calls t)
          = put_resources demo_client demo_cr res (store_after demo_store (ct_calls demo_start))
      \<and> store_after demo_store (ct_calls (snd (Reconcile demo_client (cr_Namespace demo_cr) (cr_Name demo_cr) t)))
          = store_after demo_store (ct_calls t)"
    using Reconcile_settles [where K = demo_client and st = demo_store and a = demo_cr and s = demo_start]
    by blast
  moreover have "cr_Namespace demo_cr = ''ns''" "cr_Name demo_cr = ''demo''"
    "store_after demo_store (ct_calls demo_start) = demo_store"
    by (simp_all add: demo_cr_def demo_start_def store_after_def)
  ultimately show ?thesis by simp
qed

theorem upsertResource_put_witness:
  "fst (upsertResource demo_client (OAgent demo_cr) demo_start) = Ret None
      \<and> ct_agent (snd (upsertResource demo_client (OAgent demo_cr) demo_start)) = ct_agent demo_start
      \<and> store_after demo_store (ct_calls (snd (upsertResource demo_client (OAgent demo_cr) demo_start)))
          = (store_after demo_store (ct_calls demo_start))(key_of (OAgent demo_cr) \<mapsto> OAgent demo_cr)"
  by (rule upsertResource_put) (simp add: demo_client_def store_client_serves)


subsection \<open>Errors that stay\<close>

text \<open>
  When the last update of a creation fails, the set exists and the agent has no note of its
  spec: from then on every reconciliation ends in the error of parsing the empty text.
\<close>

lemma Reconcile_stuck:
  assumes "k_getAgent K (ct_calls s) ns n = Inr a" "\<not> cr_deleting a" "cr_Annotations a spec_key = None"
    and "k_getSts K (ct_calls s @ [GetAgent ns n]) ns n = Inr d" "k_parse K [] = Inl e"
  shows "Reconcile K ns n s = (Ret (False, Some e),
     s\<lparr>ct_agent := FillDefaultValue a, ct_calls := ct_calls s @ [GetAgent ns n, GetSts ns n]\<rparr>)"
  using assms by (simp add: Reconcile_def sync_existing_def go_eval spec_text_def FillDefaultValue_def)

text \<open>\<open>Size\<close> is not the number of items: with an encoding that is never empty, no item is a panic.\<close>

lemma sync_status_panics:
  assumes "k_list K (ct_calls s) (cr_Namespace (ct_agent s)) (getLables (ct_agent s)) = Inr []"
    and "k_size K [] \<noteq> 0"
  shows "fst (sync_status K s) = Panic index_error"
  using assms by (simp add: sync_status_def go_eval)

text \<open>An agent that is being deleted or is gone is left alone.\<close>

lemma Reconcile_leaves_deleted:
  assumes "k_getAgent K (ct_calls s) ns n = Inr a \<and> cr_deleting a
    \<or> k_getAgent K (ct_calls s) ns n = Inl NotFound"
  shows "Reconcile K ns n s = (Ret (False, None), s\<lparr>ct_calls := ct_calls s @ [GetAgent ns n]\<rparr>)"
  using assms by (auto simp: Reconcile_def go_eval)

end
