(* ===== verification/DeepCopy.thy ===== *)
theory DeepCopy
  imports Converter
begin

text \<open>
  The deep copies of the custom resource (\<open>api/v1alpha1/zz_generated.deepcopy.go\<close>) over an
  explicit heap, and the part of the conversion that changes an agent in place. The other
  theories treat an agent as a value; here it is shown that they may: the copy that
  \<open>FillDefaultValue\<close> works on shares nothing with the object of the informer's cache.
\<close>

subsection \<open>Agents as pointers\<close>

text \<open>What a map, slice or pointer field refers to; nil is \<open>None\<close>.\<close>

datatype cell =
    CMap labels
  | CEnv "env_var list"
  | CResources resource_requirements
  | CAffinity json
  | CTolerations "json list"

record heap =
  cells :: "nat \<Rightarrow> cell"
  fresh :: nat

type_synonym pointer = "nat option"

record spec_ptr =
  p_Image :: string
  p_Env :: pointer
  p_StorageClassName :: string
  p_StorageSize :: string
  p_Labels :: pointer
  p_VolumePath :: string
  p_Resources :: pointer
  p_Affinity :: pointer
  p_Annotations :: pointer
  p_NodeSelector :: pointer
  p_Tolerations :: pointer

record agent_ptr =
  a_Name :: string
  a_Namespace :: string
  a_Labels :: pointer
  a_Annotations :: pointer
  a_deleting :: bool
  a_Spec :: spec_ptr
  a_Status :: json

subsection \<open>Copies\<close>

text \<open>
  A field that is not nil: a new object with the contents of the old one. The elements of
  the slices are of library types, whose own copies are documented to be equal.
\<close>

definition copy_ref :: "pointer \<Rightarrow> heap \<Rightarrow> pointer \<times> heap" where
  "copy_ref p h =
     (case p of
        None \<Rightarrow> (None, h)
      | Some r \<Rightarrow> (Some (fresh h), h\<lparr>cells := (cells h)(fresh h := cells h r), fresh := Suc (fresh h)\<rparr>))"

definition AgentSpec_DeepCopyInto :: "spec_ptr \<Rightarrow> heap \<Rightarrow> spec_ptr \<times> heap" where
  "AgentSpec_DeepCopyInto i h0 =
     (let (env, h1) = copy_ref (p_Env i) h0;
          (labels, h2) = copy_ref (p_Labels i) h1;
          (resources, h3) = copy_ref (p_Resources i) h2;
          (affinity, h4) = copy_ref (p_Affinity i) h3;
          (annotations, h5) = copy_ref (p_Annotations i) h4;
          (selector, h6) = copy_ref (p_NodeSelector i) h5;
          (tolerations, h7) = copy_ref (p_Tolerations i) h6
      in (i\<lparr>p_Env := env, p_Labels := labels, p_Resources := resources, p_Affinity := affinity,
           p_Annotations := annotations, p_NodeSelector := selector, p_Tolerations := tolerations\<rparr>, h7))"

text \<open>The copy of the metadata is the library's: its maps are copied as well.\<close>

definition Agent_DeepCopyInto :: "agent_ptr \<Rightarrow> heap \<Rightarrow> agent_ptr \<times> heap" where
  "Agent_DeepCopyInto i h0 =
     (let (labels, h1) = copy_ref (a_Labels i) h0;
          (annotations, h2) = copy_ref (a_Annotations i) h1;
          (spec, h3) = AgentSpec_DeepCopyInto (a_Spec i) h2
      in (i\<lparr>a_Labels := labels, a_Annotations := annotations, a_Spec := spec\<rparr>, h3))"

text \<open>The items of an \<open>AgentList\<close>, in order; a nil slice stays nil.\<close>

fun copy_items :: "agent_ptr list \<Rightarrow> heap \<Rightarrow> agent_ptr list \<times> heap" where
  "copy_items [] h = ([], h)"
| "copy_items (i # is) h =
     (let (c, h1) = Agent_DeepCopyInto i h; (cs, h2) = copy_items is h1 in (c # cs, h2))"

definition nil_safe :: "('a \<Rightarrow> heap \<Rightarrow> 'a \<times> heap) \<Rightarrow> 'a option \<Rightarrow> heap \<Rightarrow> 'a option \<times> heap" where
  "nil_safe copy i h = (case i of None \<Rightarrow> (None, h) | Some x \<Rightarrow> (let (y, t) = copy x h in (Some y, t)))"

definition AgentList_DeepCopyInto :: "agent_ptr list option \<Rightarrow> heap \<Rightarrow> agent_ptr list option \<times> heap" where
  "AgentList_DeepCopyInto = nil_safe copy_items"

text \<open>\<open>DeepCopy\<close> of a pointer: of nil it is nil, otherwise a new object is copied into.\<close>

definition Agent_DeepCopy :: "agent_ptr option \<Rightarrow> heap \<Rightarrow> agent_ptr option \<times> heap" where
  "Agent_DeepCopy = nil_safe Agent_DeepCopyInto"

definition AgentSpec_DeepCopy :: "spec_ptr option \<Rightarrow> heap \<Rightarrow> spec_ptr option \<times> heap" where
  "AgentSpec_DeepCopy = nil_safe AgentSpec_DeepCopyInto"

definition AgentList_DeepCopy :: "agent_ptr list option option \<Rightarrow> heap \<Rightarrow> agent_ptr list option option \<times> heap" where
  "AgentList_DeepCopy = nil_safe AgentList_DeepCopyInto"

text \<open>
  \<open>DeepCopyObject\<close>: the copy as a \<open>runtime.Object\<close>. A nil pointer becomes a nil interface,
  not an interface that holds a nil pointer.
\<close>

datatype runtime_object = AgentObject "agent_ptr option" | AgentListObject "agent_ptr list option option"

definition Agent_DeepCopyObject :: "agent_ptr option \<Rightarrow> heap \<Rightarrow> runtime_object option \<times> heap" where
  "Agent_DeepCopyObject i h =
     (let (c, t) = Agent_DeepCopy i h in (if c \<noteq> None then Some (AgentObject c) else None, t))"

definition AgentList_DeepCopyObject :: "agent_ptr list option option \<Rightarrow> heap \<Rightarrow> runtime_object option \<times> heap" where
  "AgentList_DeepCopyObject i h =
     (let (c, t) = AgentList_DeepCopy i h in (if c \<noteq> None then Some (AgentListObject c) else None, t))"

text \<open>The status is copied by the library, an \<open>EnvVar\<close> has no references.\<close>

definition AgentStatus_DeepCopyInto :: "json \<Rightarrow> heap \<Rightarrow> json \<times> heap" where
  "AgentStatus_DeepCopyInto i h = (i, h)"

definition AgentStatus_DeepCopy :: "json option \<Rightarrow> heap \<Rightarrow> json option \<times> heap" where
  "AgentStatus_DeepCopy = nil_safe AgentStatus_DeepCopyInto"

definition EnvVar_DeepCopyInto :: "string \<times> string \<Rightarrow> heap \<Rightarrow> (string \<times> string) \<times> heap" where
  "EnvVar_DeepCopyInto i h = (i, h)"

definition EnvVar_DeepCopy :: "(string \<times> string) option \<Rightarrow> heap \<Rightarrow> (string \<times> string) option \<times> heap" where
  "EnvVar_DeepCopy = nil_safe EnvVar_DeepCopyInto"

subsection \<open>Changes in place\<close>

definition FillDefault_ptr :: "agent_ptr \<Rightarrow> heap \<Rightarrow> agent_ptr \<times> heap" where
  "FillDefault_ptr origin h =
     (let (app, h1) = Agent_DeepCopyInto origin h;
          sp = a_Spec app;
          sp1 = (if p_VolumePath sp = [] then sp\<lparr>p_VolumePath := ''/jacoco/work''\<rparr> else sp)
      in if p_Resources sp1 = None
         then (app\<lparr>a_Spec := sp1\<lparr>p_Resources := Some (fresh h1)\<rparr>\<rparr>,
               h1\<lparr>cells := (cells h1)(fresh h1 := CResources default_resources), fresh := Suc (fresh h1)\<rparr>)
         else (app\<lparr>a_Spec := sp1\<rparr>, h1))"

text \<open>\<open>delete(m, k)\<close>; on a nil map it does nothing.\<close>

fun delete_in :: "string \<Rightarrow> cell \<Rightarrow> cell" where
  "delete_in k (CMap m) = CMap (m(k := None))"
| "delete_in k c = c"

definition delete_key :: "string \<Rightarrow> pointer \<Rightarrow> heap \<Rightarrow> heap" where
  "delete_key k p h =
     (case p of None \<Rightarrow> h | Some r \<Rightarrow> h\<lparr>cells := (cells h)(r := delete_in k (cells h r))\<rparr>)"

definition drop_snapshot_ptr :: "agent_ptr \<Rightarrow> heap \<Rightarrow> heap" where
  "drop_snapshot_ptr app h =
     delete_key CSISnapshotMaxHistory (p_Annotations (a_Spec app))
       (delete_key CSISnapshotMaxHistory (a_Annotations app) h)"

subsection \<open>The value of an agent\<close>

definition read_map :: "heap \<Rightarrow> pointer \<Rightarrow> labels" where
  "read_map h p = (case p of None \<Rightarrow> Map.empty | Some r \<Rightarrow> (case cells h r of CMap m \<Rightarrow> m | _ \<Rightarrow> Map.empty))"

definition read_env :: "heap \<Rightarrow> pointer \<Rightarrow> env_var list" where
  "read_env h p = (case p of None \<Rightarrow> [] | Some r \<Rightarrow> (case cells h r of CEnv es \<Rightarrow> es | _ \<Rightarrow> []))"

definition read_resources :: "heap \<Rightarrow> pointer \<Rightarrow> resource_requirements option" where
  "read_resources h p = map_option (\<lambda>r. case cells h r of CResources q \<Rightarrow> q | _ \<Rightarrow> default_resources) p"

definition read_affinity :: "heap \<Rightarrow> pointer \<Rightarrow> json option" where
  "read_affinity h p = map_option (\<lambda>r. case cells h r of CAffinity j \<Rightarrow> j | _ \<Rightarrow> JNull) p"

definition read_tolerations :: "heap \<Rightarrow> pointer \<Rightarrow> json list" where
  "read_tolerations h p = (case p of None \<Rightarrow> [] | Some r \<Rightarrow> (case cells h r of CTolerations ts \<Rightarrow> ts | _ \<Rightarrow> []))"

definition spec_view :: "heap \<Rightarrow> spec_ptr \<Rightarrow> agent_spec" where
  "spec_view h p =
     \<lparr>sp_Image = p_Image p, sp_Env = read_env h (p_Env p), sp_StorageClassName = p_StorageClassName p,
      sp_StorageSize = p_StorageSize p, sp_Labels = read_map h (p_Labels p),
      sp_VolumePath = p_VolumePath p, sp_Resources = read_resources h (p_Resources p),
      sp_Affinity = read_affinity h (p_Affinity p), sp_Annotations = read_map h (p_Annotations p),
      sp_NodeSelector = read_map h (p_NodeSelector p), sp_Tolerations = read_tolerations h (p_Tolerations p)\<rparr>"

definition agent_view :: "heap \<Rightarrow> agent_ptr \<Rightarrow> agent_cr" where
  "agent_view h p =
     \<lparr>cr_Name = a_Name p, cr_Namespace = a_Namespace p, cr_Labels = read_map h (a_Labels p),
      cr_Annotations = read_map h (a_Annotations p), cr_deleting = a_deleting p,
      cr_Spec = spec_view h (a_Spec p), cr_Status = a_Status p\<rparr>"

lemmas read_defs = read_map_def read_env_def read_resources_def read_affinity_def read_tolerations_def


subsection \<open>A copy is equal and shares nothing\<close>

definition points :: "agent_ptr \<Rightarrow> pointer list" where
  "points a = [a_Labels a, a_Annotations a, p_Env (a_Spec a), p_Labels (a_Spec a), p_Resources (a_Spec a),
     p_Affinity (a_Spec a), p_Annotations (a_Spec a), p_NodeSelector (a_Spec a), p_Tolerations (a_Spec a)]"

definition refs :: "pointer list \<Rightarrow> nat list" where
  "refs ps = concat (map (\<lambda>p. case p of None \<Rightarrow> [] | Some r \<Rightarrow> [r]) ps)"

lemma refs_simps [simp]: "refs [] = []" "refs (None # ps) = refs ps" "refs (Some r # ps) = r # refs ps"
  by (simp_all add: refs_def)

lemma refs_subseq: "subseq ps qs \<Longrightarrow> distinct (refs qs) \<Longrightarrow> distinct (refs ps) \<and> set (refs ps) \<subseteq> set (refs qs)"
proof (induction rule: list_emb.induct)
  case (list_emb_Cons ps qs q)
  then show ?case by (cases q) auto
next
  case (list_emb_Cons2 p q ps qs)
  then show ?case by (cases q) auto
qed simp

definition allocated :: "heap \<Rightarrow> agent_ptr \<Rightarrow> bool" where
  "allocated h a \<longleftrightarrow> list_all (\<lambda>r. r < fresh h) (refs (points a))"

definition extends :: "heap \<Rightarrow> heap \<Rightarrow> bool" where
  "extends h t \<longleftrightarrow> fresh h \<le> fresh t \<and> (\<forall>r < fresh h. cells t r = cells h r)"

lemma extends_refl: "extends h h" and extends_trans: "extends h t \<Longrightarrow> extends t u \<Longrightarrow> extends h u"
  by (auto simp: extends_def)

definition same_cell :: "heap \<Rightarrow> heap \<Rightarrow> pointer \<Rightarrow> pointer \<Rightarrow> bool" where
  "same_cell h t p q \<longleftrightarrow> (case p of None \<Rightarrow> q = None
     | Some r \<Rightarrow> (case q of None \<Rightarrow> False | Some r' \<Rightarrow> cells t r' = cells h r))"

lemma same_cell_simps [simp]:
  "same_cell h t None None" "same_cell h t (Some r) (Some r') \<longleftrightarrow> cells t r' = cells h r"
  by (simp_all add: same_cell_def)

text \<open>The fields that are no pointers.\<close>

definition same_plain :: "agent_ptr \<Rightarrow> agent_ptr \<Rightarrow> bool" where
  "same_plain a b \<longleftrightarrow> a_Name b = a_Name a \<and> a_Namespace b = a_Namespace a \<and> a_deleting b = a_deleting a
     \<and> a_Status b = a_Status a \<and> p_Image (a_Spec b) = p_Image (a_Spec a)
     \<and> p_StorageClassName (a_Spec b) = p_StorageClassName (a_Spec a)
     \<and> p_StorageSize (a_Spec b) = p_StorageSize (a_Spec a) \<and> p_VolumePath (a_Spec b) = p_VolumePath (a_Spec a)"

lemma same_cell_reads:
  assumes "same_cell h t p q"
  shows "read_map t q = read_map h p" "read_env t q = read_env h p" "read_resources t q = read_resources h p"
    "read_affinity t q = read_affinity h p" "read_tolerations t q = read_tolerations h p"
  using assms by (cases p; cases q; simp add: same_cell_def read_defs)+

fun copy_refs :: "pointer list \<Rightarrow> heap \<Rightarrow> pointer list \<times> heap" where
  "copy_refs [] h = ([], h)"
| "copy_refs (p # ps) h = (let (q, h1) = copy_ref p h; (qs, t) = copy_refs ps h1 in (q # qs, t))"

lemma copy_ref_extends: "copy_ref p h = (q, t) \<Longrightarrow> extends h t"
  by (auto simp: copy_ref_def extends_def split: option.splits)

lemma copy_refs_spec:
  "copy_refs ps h = (qs, t) \<Longrightarrow> extends g h \<Longrightarrow> list_all (\<lambda>r. r < fresh g) (refs ps) \<Longrightarrow>
     extends h t \<and> list_all2 (same_cell g t) ps qs \<and> distinct (refs qs)
     \<and> list_all (\<lambda>r. fresh h \<le> r \<and> r < fresh t) (refs qs)"
proof (induction ps arbitrary: h qs)
  case (Cons p ps)
  obtain q h1 where q: "copy_ref p h = (q, h1)" by fastforce
  obtain qs' where rest: "copy_refs ps h1 = (qs', t)" and qs: "qs = q # qs'"
    using Cons.prems(1) q by (auto split: prod.splits)
  have e: "extends h h1" using q by (rule copy_ref_extends)
  have "list_all (\<lambda>r. r < fresh g) (refs ps)" using Cons.prems(3) by (cases p) simp_all
  then have IH: "extends h1 t" "list_all2 (same_cell g t) ps qs'" "distinct (refs qs')"
    "list_all (\<lambda>r. fresh h1 \<le> r \<and> r < fresh t) (refs qs')"
    using Cons.IH [OF rest extends_trans [OF Cons.prems(2) e]] by blast+
  show ?case
  proof (cases p)
    case None
    then have "q = None" "h1 = h" using q by (simp_all add: copy_ref_def)
    then show ?thesis using IH qs None by simp
  next
    case (Some r)
    then have new: "q = Some (fresh h)" "cells h1 (fresh h) = cells h r" "fresh h1 = Suc (fresh h)"
      using q by (auto simp: copy_ref_def)
    have "cells h r = cells g r" using Cons.prems(2,3) Some by (simp add: extends_def)
    moreover have "cells t (fresh h) = cells h1 (fresh h)" "fresh h < fresh t"
      using IH(1) new(3) by (simp_all add: extends_def)
    moreover have "fresh h \<notin> set (refs qs')" using IH(4) new(3) by (auto simp: list_all_iff)
    moreover have "list_all (\<lambda>r. fresh h \<le> r \<and> r < fresh t) (refs qs')"
      using IH(4) new(3) by (auto simp: list_all_iff)
    ultimately show ?thesis
      using extends_trans [OF e IH(1)] IH(2,3) qs new Some by simp
  qed
qed (simp add: extends_refl)

lemma Agent_DeepCopyInto_points:
  "Agent_DeepCopyInto a h = (b, t) \<Longrightarrow> copy_refs (points a) h = (points b, t) \<and> same_plain a b"
  by (auto simp: Agent_DeepCopyInto_def AgentSpec_DeepCopyInto_def points_def same_plain_def Let_def split: prod.splits)

lemma view_same:
  "list_all2 (same_cell h t) (points a) (points b) \<Longrightarrow> same_plain a b \<Longrightarrow> agent_view t b = agent_view h a"
  by (simp add: points_def agent_view_def spec_view_def same_cell_reads same_plain_def)

lemma Agent_DeepCopyInto_spec:
  assumes "Agent_DeepCopyInto a h = (b, t)" "allocated h a"
  shows "agent_view t b = agent_view h a" "extends h t" "distinct (refs (points b))"
    "list_all (\<lambda>r. fresh h \<le> r \<and> r < fresh t) (refs (points b))"
proof -
  have c: "copy_refs (points a) h = (points b, t)" using Agent_DeepCopyInto_points [OF assms(1)] ..
  have all: "extends h t \<and> list_all2 (same_cell h t) (points a) (points b) \<and> distinct (refs (points b))
     \<and> list_all (\<lambda>r. fresh h \<le> r \<and> r < fresh t) (refs (points b))"
    by (rule copy_refs_spec [OF c extends_refl]) (use assms(2) in \<open>simp add: allocated_def\<close>)
  then show "extends h t" "distinct (refs (points b))"
    "list_all (\<lambda>r. fresh h \<le> r \<and> r < fresh t) (refs (points b))" by blast+
  show "agent_view t b = agent_view h a"
    by (rule view_same) (use all Agent_DeepCopyInto_points [OF assms(1)] in blast)+
qed


text \<open>An allocated agent keeps its value when the heap is extended.\<close>

lemma view_extends:
  assumes "extends h t" "allocated h a" shows "agent_view t a = agent_view h a"
proof (rule view_same)
  have "list_all2 (same_cell h t) ps ps" if "list_all (\<lambda>r. r < fresh h) (refs ps)" for ps
    using that
  proof (induction ps)
    case (Cons p ps)
    then show ?case using assms(1) by (cases p) (simp_all add: extends_def)
  qed simp
  then show "list_all2 (same_cell h t) (points a) (points a)" using assms(2) by (simp add: allocated_def)
qed (simp add: same_plain_def)

lemma FillDefault_ptr_spec:
  assumes "FillDefault_ptr a h = (b, t)" "allocated h a"
  shows "agent_view t b = FillDefaultValue (agent_view h a)" "extends h t"
    "distinct (refs [a_Labels b, a_Annotations b, p_Labels (a_Spec b), p_Annotations (a_Spec b), p_NodeSelector (a_Spec b)])"
    "list_all (\<lambda>r. fresh h \<le> r) (refs [a_Annotations b, p_Annotations (a_Spec b)])"
proof -
  obtain c u where c: "Agent_DeepCopyInto a h = (c, u)" by fastforce
  note C = Agent_DeepCopyInto_spec [OF c assms(2)]
  let ?w = "u\<lparr>cells := (cells u)(fresh u := CResources default_resources), fresh := Suc (fresh u)\<rparr>"
  have w: "extends u ?w" by (simp add: extends_def)
  have "allocated u c" using C(4) by (auto simp: allocated_def list_all_iff)
  then have same: "agent_view ?w c = agent_view h a" using view_extends [OF w] C(1) by simp
  show "extends h t" and "agent_view t b = FillDefaultValue (agent_view h a)"
  proof (atomize (full), cases "p_Resources (a_Spec c)")
    case None
    then have t: "t = ?w" and b: "b = c\<lparr>a_Spec := (a_Spec c)\<lparr>p_Resources := Some (fresh u), p_VolumePath :=
        (if p_VolumePath (a_Spec c) = [] then ''/jacoco/work'' else p_VolumePath (a_Spec c))\<rparr>\<rparr>"
      using assms(1) c by (auto simp: FillDefault_ptr_def Let_def split: if_splits)
    have "agent_view t b = FillDefaultValue (agent_view t c)"
      using None unfolding b t
      by (simp add: agent_view_def spec_view_def FillDefaultValue_def read_resources_def)
    then show "extends h t \<and> agent_view t b = FillDefaultValue (agent_view h a)"
      using same t extends_trans [OF C(2) w] by simp
  next
    case (Some r)
    then have t: "t = u" and b: "b = c\<lparr>a_Spec := (a_Spec c)\<lparr>p_VolumePath :=
        (if p_VolumePath (a_Spec c) = [] then ''/jacoco/work'' else p_VolumePath (a_Spec c))\<rparr>\<rparr>"
      using assms(1) c by (auto simp: FillDefault_ptr_def Let_def split: if_splits)
    have "agent_view t b = FillDefaultValue (agent_view t c)"
      using Some unfolding b t
      by (simp add: agent_view_def spec_view_def FillDefaultValue_def read_resources_def)
    then show "extends h t \<and> agent_view t b = FillDefaultValue (agent_view h a)"
      using C(1,2) t by simp
  qed
  have b: "a_Labels b = a_Labels c" "a_Annotations b = a_Annotations c"
    "p_Labels (a_Spec b) = p_Labels (a_Spec c)" "p_Annotations (a_Spec b) = p_Annotations (a_Spec c)"
    "p_NodeSelector (a_Spec b) = p_NodeSelector (a_Spec c)"
    using assms(1) c by (auto simp: FillDefault_ptr_def Let_def split: if_splits)
  show "distinct (refs [a_Labels b, a_Annotations b, p_Labels (a_Spec b), p_Annotations (a_Spec b), p_NodeSelector (a_Spec b)])"
    using refs_subseq [OF _ C(3)] unfolding b points_def by simp
  show "list_all (\<lambda>r. fresh h \<le> r) (refs [a_Annotations b, p_Annotations (a_Spec b)])"
  proof -
    have "subseq [a_Annotations c, p_Annotations (a_Spec c)] (points c)" by (simp add: points_def)
    from refs_subseq [OF this C(3)] C(4) show ?thesis unfolding b list_all_iff by blast
  qed
qed

text \<open>Deleting a key is seen through the pointer to its map, and through no other.\<close>

lemma delete_reads:
  "read_map (delete_key k p h) q = (if q = p then (read_map h q)(k := None) else read_map h q)"
  "read_env (delete_key k p h) q = read_env h q"
  "read_resources (delete_key k p h) q = read_resources h q"
  "read_affinity (delete_key k p h) q = read_affinity h q"
  "read_tolerations (delete_key k p h) q = read_tolerations h q"
  by (cases p; cases q; auto simp: delete_key_def read_defs split: cell.splits)+

text \<open>Dropping the snapshot annotations is seen through the two annotation maps only.\<close>

lemma drop_reads:
  "q = a_Annotations b \<or> q = p_Annotations (a_Spec b) \<Longrightarrow>
     read_map (drop_snapshot_ptr b t) q = (read_map t q)(CSISnapshotMaxHistory := None)"
  "(q = a_Annotations b \<or> q = p_Annotations (a_Spec b) \<Longrightarrow> q = None) \<Longrightarrow>
     read_map (drop_snapshot_ptr b t) q = read_map t q"
  "read_env (drop_snapshot_ptr b t) q = read_env t q"
  "read_resources (drop_snapshot_ptr b t) q = read_resources t q"
  "read_affinity (drop_snapshot_ptr b t) q = read_affinity t q"
  "read_tolerations (drop_snapshot_ptr b t) q = read_tolerations t q"
  by (cases q; auto simp: drop_snapshot_ptr_def delete_reads read_map_def [of _ None])+

text \<open>
  C20. On a heap of shared maps and slices: filling in defaults and deleting the snapshot
  annotations through pointers give exactly the values that FillDefaultValue and the
  conversion compute on values, and leave the agent of the cache as it was, whatever its
  fields share.
\<close>

theorem conversion_isolated:
  assumes "allocated h a"
  shows "let (b, t) = FillDefault_ptr a h; u = drop_snapshot_ptr b t
         in agent_view t b = FillDefaultValue (agent_view h a)
          \<and> agent_view u b = drop_snapshot (FillDefaultValue (agent_view h a))
          \<and> agent_view t a = agent_view h a \<and> agent_view u a = agent_view h a"
proof -
  obtain b t where b: "FillDefault_ptr a h = (b, t)" by fastforce
  note B = FillDefault_ptr_spec [OF b assms]
  let ?u = "drop_snapshot_ptr b t"
  have apart: "p = None" if "p \<in> {a_Labels b, p_Labels (a_Spec b), p_NodeSelector (a_Spec b)}"
      "p = a_Annotations b \<or> p = p_Annotations (a_Spec b)" for p
    using B(3) that by (cases p) (auto simp: refs_def split: option.splits)
  have old: "p = None" if "p \<in> set (points a)" "p = a_Annotations b \<or> p = p_Annotations (a_Spec b)" for p
  proof (cases p)
    case (Some r)
    then have "r \<in> set (refs (points a))" using that(1) by (force simp: refs_def)
    then have "r < fresh h" using assms by (simp add: allocated_def list_all_iff)
    moreover have "r \<in> set (refs [a_Annotations b, p_Annotations (a_Spec b)])"
      using that(2) Some by (auto simp: refs_def split: option.splits)
    ultimately show ?thesis using B(4) by (auto simp: list_all_iff)
  qed
  have "agent_view ?u b = drop_snapshot (agent_view t b)"
    by (simp add: agent_view_def spec_view_def drop_snapshot_def drop_reads(1,3-) drop_reads(2) [OF apart])
  moreover have "agent_view ?u a = agent_view t a"
    by (simp add: agent_view_def spec_view_def drop_reads(3-) drop_reads(2) [OF old] points_def)
  ultimately show ?thesis using b B(1) view_extends [OF B(2) assms] by simp
qed

definition demo_heap :: heap where
  "demo_heap = \<lparr>cells = (\<lambda>_. CMap [CSISnapshotMaxHistory \<mapsto> ''3'']), fresh = 1\<rparr>"

text \<open>An agent whose two annotation fields are one map.\<close>

definition demo_ptr :: agent_ptr where
  "demo_ptr = \<lparr>a_Name = ''demo'', a_Namespace = ''ns'', a_Labels = None, a_Annotations = Some 0,
     a_deleting = False, a_Spec = \<lparr>p_Image = ''agent:1'', p_Env = None, p_StorageClassName = ''ssd'',
       p_StorageSize = ''1Gi'', p_Labels = None, p_VolumePath = [], p_Resources = None, p_Affinity = None,
       p_Annotations = Some 0, p_NodeSelector = None, p_Tolerations = None\<rparr>, a_Status = JNull\<rparr>"

theorem conversion_isolated_witness:
  "let (b, t) = FillDefault_ptr demo_ptr demo_heap; u = drop_snapshot_ptr b t
   in cr_Annotations (agent_view u b) CSISnapshotMaxHistory = None
      \<and> cr_Annotations (agent_view u demo_ptr) CSISnapshotMaxHistory = Some ''3''"
proof -
  have "allocated demo_heap demo_ptr"
    by (simp add: allocated_def points_def demo_ptr_def demo_heap_def)
  moreover have "cr_Annotations (agent_view demo_heap demo_ptr) CSISnapshotMaxHistory = Some ''3''"
    by (simp add: agent_view_def read_map_def demo_ptr_def demo_heap_def)
  ultimately show ?thesis
    using conversion_isolated [of demo_heap demo_ptr] by (auto simp: Let_def drop_snapshot_def)
qed

text \<open>A list of agents: the copies have the values of the items, in order, and the items keep theirs.\<close>

lemma copy_items_spec:
  "copy_items is h = (cs, t) \<Longrightarrow> list_all (allocated h) is \<Longrightarrow>
     extends h t \<and> list_all (allocated t) cs
     \<and> map (agent_view t) cs = map (agent_view h) is \<and> map (agent_view t) is = map (agent_view h) is"
proof (induction "is" arbitrary: h cs)
  case (Cons i "is")
  obtain c h1 where c: "Agent_DeepCopyInto i h = (c, h1)" by fastforce
  obtain cs' where cs: "copy_items is h1 = (cs', t)" "cs = c # cs'"
    using Cons.prems(1) c by (auto split: prod.splits)
  have i: "allocated h i" using Cons.prems(2) by simp
  note C = Agent_DeepCopyInto_spec [OF c i]
  have up: "allocated h1 a" if "allocated h a" for a
    using that C(2) unfolding allocated_def extends_def list_all_iff by (meson less_le_trans)
  have old: "map (agent_view h1) is = map (agent_view h) is"
    using Cons.prems(2) view_extends [OF C(2)] by (simp add: list_all_iff)
  have IH: "extends h1 t" "list_all (allocated t) cs'" "map (agent_view t) cs' = map (agent_view h1) is"
    "map (agent_view t) is = map (agent_view h1) is"
    using Cons.IH [OF cs(1)] Cons.prems(2) up by (simp_all add: list_all_iff)
  have "allocated h1 c" using C(4) by (simp add: allocated_def list_all_iff)
  then have "agent_view t c = agent_view h i" "allocated t c"
    using view_extends [OF IH(1)] C(1) IH(1)
    unfolding allocated_def extends_def list_all_iff by (auto intro: less_le_trans)
  then show ?case
    using IH cs(2) old extends_trans [OF C(2) IH(1)] view_extends [OF _ i] by auto
qed (simp add: extends_refl)

text \<open>
  What the informer's cache hands out: the copy of a list is never an interface around a nil
  pointer, its items have the values of the items of the list, and nothing of the list
  itself changes.
\<close>

lemma AgentList_DeepCopyObject_spec:
  assumes "AgentList_DeepCopyObject i h = (c, t)"
    and "case i of Some (Some items) \<Rightarrow> list_all (allocated h) items | _ \<Rightarrow> True"
  shows "(c = None \<longleftrightarrow> i = None) \<and> c \<noteq> Some (AgentListObject None)
    \<and> (case i of Some (Some items) \<Rightarrow>
         (\<exists>copies. c = Some (AgentListObject (Some (Some copies)))
            \<and> map (agent_view t) copies = map (agent_view h) items
            \<and> map (agent_view t) items = map (agent_view h) items)
       | _ \<Rightarrow> t = h)"
proof (cases i)
  case (Some l)
  then show ?thesis
  proof (cases l)
    case items: (Some items)
    obtain cs u where cs: "copy_items items h = (cs, u)" by fastforce
    then have "c = Some (AgentListObject (Some (Some cs)))" "t = u"
      using assms(1) Some items
      by (auto simp: AgentList_DeepCopyObject_def AgentList_DeepCopy_def AgentList_DeepCopyInto_def
          nil_safe_def Let_def)
    then show ?thesis using copy_items_spec [OF cs] assms(2) Some items by simp
  qed (use assms Some in \<open>auto simp: AgentList_DeepCopyObject_def AgentList_DeepCopy_def
      AgentList_DeepCopyInto_def nil_safe_def Let_def\<close>)
qed (use assms in \<open>auto simp: AgentList_DeepCopyObject_def AgentList_DeepCopy_def nil_safe_def Let_def\<close>)

end
