(* ===== verification/OperatorMain.thy ===== *)
theory OperatorMain
  imports GoMonad GoStrings
begin

text \<open>
  The start of the operator: the registration of the types (\<open>api/v1alpha1\<close>), the flags and
  the start of the manager (\<open>main.go\<close>), \<open>SetupWithManager\<close> (\<open>agent_controller.go\<close>). The
  calls of \<open>controller-runtime\<close> are parameters which answer with an error or none; the
  history records them. Exiting is the returned status.
\<close>

subsection \<open>Flags\<close>

record main_flags =
  metricsAddr :: string
  probeAddr :: string
  enableLeaderElection :: bool
  library_flags :: "(string \<times> string) list"  \<comment> \<open>set by the libraries that bind flags\<close>

definition default_flags :: main_flags where
  "default_flags = \<lparr>metricsAddr = '':8080'', probeAddr = '':8081'', enableLeaderElection = False,
     library_flags = []\<rparr>"

text \<open>
  \<open>l_flag\<close>: the flags of the libraries (\<open>zap\<close>, \<open>kubeconfig\<close>), \<open>Some True\<close> for a boolean one;
  \<open>l_set_flag\<close>: the error of setting one.
\<close>

record manager_options =
  opt_MetricsBindAddress :: string
  opt_Port :: nat
  opt_HealthProbeBindAddress :: string
  opt_LeaderElection :: bool
  opt_LeaderElectionID :: string

datatype boot_event =
    Registered "string list"        \<comment> \<open>\<open>SchemeBuilder.Register\<close>\<close>
  | AddToScheme string
  | GetConfig
  | NewManager manager_options
  | Controller string "string list" \<comment> \<open>\<open>For\<close>, \<open>Owns\<close>, completed\<close>
  | HealthzCheck string
  | ReadyzCheck string
  | StartManager

record boot_lib =
  l_flag :: "string \<Rightarrow> bool option"
  l_set_flag :: "string \<Rightarrow> string \<Rightarrow> go_error option"
  l_boot :: "boot_event \<Rightarrow> go_error option"

definition ParseBool :: "string \<Rightarrow> bool option" where
  "ParseBool s =
     (if s \<in> set [''1'', ''t'', ''T'', ''TRUE'', ''true'', ''True''] then Some True
      else if s \<in> set [''0'', ''f'', ''F'', ''FALSE'', ''false'', ''False''] then Some False
      else None)"

definition flag_kind :: "boot_lib \<Rightarrow> string \<Rightarrow> bool option" where
  "flag_kind L name =
     (if name = ''metrics-bind-address'' \<or> name = ''health-probe-bind-address'' then Some False
      else if name = ''leader-elect'' then Some True
      else l_flag L name)"

definition set_flag :: "boot_lib \<Rightarrow> string \<Rightarrow> string \<Rightarrow> main_flags \<Rightarrow> main_flags option" where
  "set_flag L name v f =
     (if name = ''metrics-bind-address'' then Some (f\<lparr>metricsAddr := v\<rparr>)
      else if name = ''health-probe-bind-address'' then Some (f\<lparr>probeAddr := v\<rparr>)
      else if name = ''leader-elect'' then map_option (\<lambda>b. f\<lparr>enableLeaderElection := b\<rparr>) (ParseBool v)
      else if l_set_flag L name v = None
           then Some (f\<lparr>library_flags := library_flags f @ [(name, v)]\<rparr>) else None)"

text \<open>One word of the command line, as \<open>flag.Parse\<close> reads it.\<close>

datatype flag_word = NoFlag | BadFlag | Flag string "string option"

definition flag_word :: "string \<Rightarrow> flag_word" where
  "flag_word s =
     (if length s < 2 \<or> hd s \<noteq> CHR ''-'' \<or> s = ''--'' then NoFlag
      else
        let name = (if s ! 1 = CHR ''-'' then drop 2 s else drop 1 s) in
        if name = [] \<or> hd name = CHR ''-'' \<or> hd name = CHR ''='' then BadFlag
        else if CHR ''='' \<in> set name
             then Flag (takeWhile (\<lambda>c. c \<noteq> CHR ''='') name)
                    (Some (tl (dropWhile (\<lambda>c. c \<noteq> CHR ''='') name)))
             else Flag name None)"

datatype flag_error = FlagHelp | FlagError

text \<open>\<open>flag.Parse\<close>: what follows the first word that is no flag is left alone.\<close>

fun flag_Parse :: "boot_lib \<Rightarrow> string list \<Rightarrow> main_flags \<Rightarrow> flag_error + main_flags" where
  "flag_Parse L [] f = Inr f"
| "flag_Parse L (s # args) f =
     (case flag_word s of
        NoFlag \<Rightarrow> Inr f
      | BadFlag \<Rightarrow> Inl FlagError
      | Flag name v \<Rightarrow>
          (case flag_kind L name of
             None \<Rightarrow> Inl (if name = ''help'' \<or> name = ''h'' then FlagHelp else FlagError)
           | Some is_bool \<Rightarrow>
               if is_bool \<or> v \<noteq> None then
                 (case set_flag L name (case v of None \<Rightarrow> ''true'' | Some x \<Rightarrow> x) f of
                    None \<Rightarrow> Inl FlagError | Some g \<Rightarrow> flag_Parse L args g)
               else
                 (case args of
                    [] \<Rightarrow> Inl FlagError
                  | x # rest \<Rightarrow>
                      (case set_flag L name x f of
                         None \<Rightarrow> Inl FlagError | Some g \<Rightarrow> flag_Parse L rest g))))"

subsection \<open>Starting\<close>

text \<open>The history of the calls of the libraries.\<close>

type_synonym boot = "boot_event list"

definition boot :: "boot_lib \<Rightarrow> boot_event \<Rightarrow> (boot, go_error option) prog" where
  "boot L ev = (\<lambda>h. (Ret (l_boot L ev), h @ [ev]))"

definition utilruntime_Must :: "(boot, go_error option) prog \<Rightarrow> (boot, unit) prog" where
  "utilruntime_Must m = go_bind m (\<lambda>err. case err of None \<Rightarrow> go_ret () | Some e \<Rightarrow> go_panic e)"

definition register_types :: "boot_lib \<Rightarrow> (boot, go_error option) prog" where
  "register_types L = boot L (Registered [''Agent'', ''AgentList''])"

definition GroupVersion :: "string \<times> string" where
  "GroupVersion = (''sourcecov.erda.cloud'', ''v1alpha1'')"

definition init_scheme :: "boot_lib \<Rightarrow> (boot, unit) prog" where
  "init_scheme L =
     go_seq (utilruntime_Must (boot L (AddToScheme ''client-go'')))
       (utilruntime_Must (boot L (AddToScheme (fst GroupVersion @ ''/'' @ snd GroupVersion))))"

definition SetupWithManager :: "boot_lib \<Rightarrow> (boot, go_error option) prog" where
  "SetupWithManager L = boot L (Controller ''Agent'' [''StatefulSet''])"

definition options_of :: "main_flags \<Rightarrow> manager_options" where
  "options_of f = \<lparr>opt_MetricsBindAddress = metricsAddr f, opt_Port = 9443,
     opt_HealthProbeBindAddress = probeAddr f, opt_LeaderElection = enableLeaderElection f,
     opt_LeaderElectionID = ''8e3aefdd.erda.cloud''\<rparr>"

text \<open>\<open>if err := ...; err != nil { os.Exit(1) }\<close>\<close>

definition or_exit :: "(boot, go_error option) prog \<Rightarrow> (boot, nat) prog \<Rightarrow> (boot, nat) prog" where
  "or_exit m n = go_bind m (\<lambda>err. if err \<noteq> None then go_ret 1 else n)"

definition start_operator :: "boot_lib \<Rightarrow> main_flags \<Rightarrow> (boot, nat) prog" where
  "start_operator L f =
     or_exit (boot L GetConfig)
     (or_exit (boot L (NewManager (options_of f)))
     (or_exit (SetupWithManager L)
     (or_exit (boot L (HealthzCheck ''healthz''))
     (or_exit (boot L (ReadyzCheck ''readyz''))
     (or_exit (boot L StartManager) (go_ret 0))))))"

definition operator_main :: "boot_lib \<Rightarrow> string list \<Rightarrow> (boot, nat) prog" where
  "operator_main L args =
     (case flag_Parse L args default_flags of
        Inl FlagHelp \<Rightarrow> go_ret 0
      | Inl FlagError \<Rightarrow> go_ret 2
      | Inr f \<Rightarrow> start_operator L f)"

subsection \<open>Properties\<close>

lemma flag_word_pair:
  assumes "name \<noteq> []" "hd name \<noteq> CHR ''-''" "CHR ''='' \<notin> set name"
  shows "flag_word (''--'' @ name @ ''='' @ v) = Flag name (Some v)"
proof -
  have "hd name \<noteq> CHR ''=''" using assms by (cases name) auto
  then show ?thesis
    using assms by (simp add: flag_word_def takeWhile_neq_append dropWhile_neq_append)
qed

definition show_flags :: "main_flags \<Rightarrow> string list" where
  "show_flags f = [''--metrics-bind-address='' @ metricsAddr f,
     ''--health-probe-bind-address='' @ probeAddr f,
     ''--leader-elect='' @ (if enableLeaderElection f then ''true'' else ''false'')]"

text \<open>Every setting of the flags can be written on the command line, whatever the addresses are.\<close>

lemma flags_roundtrip:
  "flag_Parse L (show_flags f) default_flags = Inr (f\<lparr>library_flags := []\<rparr>)"
proof -
  have "flag_word (''--metrics-bind-address='' @ v) = Flag ''metrics-bind-address'' (Some v)"
    "flag_word (''--health-probe-bind-address='' @ v) = Flag ''health-probe-bind-address'' (Some v)"
    "flag_word (''--leader-elect='' @ v) = Flag ''leader-elect'' (Some v)" for v
    using flag_word_pair [of "''metrics-bind-address''" v]
      flag_word_pair [of "''health-probe-bind-address''" v] flag_word_pair [of "''leader-elect''" v]
    by simp_all
  then show ?thesis
    by (simp add: show_flags_def flag_kind_def set_flag_def ParseBool_def default_flags_def)
qed

text \<open>The calls up to the first that fails.\<close>

fun until_error :: "boot_lib \<Rightarrow> boot_event list \<Rightarrow> boot_event list" where
  "until_error L [] = []"
| "until_error L (ev # evs) = ev # (if l_boot L ev \<noteq> None then [] else until_error L evs)"

fun in_order :: "boot_lib \<Rightarrow> boot_event list \<Rightarrow> (boot, nat) prog" where
  "in_order L [] = go_ret 0"
| "in_order L (ev # evs) = or_exit (boot L ev) (in_order L evs)"

lemma in_order_run:
  "in_order L evs h = (Ret (if list_all (\<lambda>ev. l_boot L ev = None) evs then 0 else 1), h @ until_error L evs)"
  by (induction evs arbitrary: h) (auto simp: or_exit_def boot_def go_bind_def go_ret_def)

definition boot_calls :: "main_flags \<Rightarrow> boot_event list" where
  "boot_calls f = [GetConfig, NewManager (options_of f), Controller ''Agent'' [''StatefulSet''],
     HealthzCheck ''healthz'', ReadyzCheck ''readyz'', StartManager]"

text \<open>
  C33. Starting the operator with flags that parse: the configuration, the manager with the
  options of the flags, the controller, the two checks and the start of the manager are
  called in this order up to the first that fails, and the process ends with status 0
  exactly when none does, otherwise with 1.
\<close>

theorem operator_main_spec:
  assumes "flag_Parse L args default_flags = Inr f"
  shows "operator_main L args h = (Ret (if list_all (\<lambda>ev. l_boot L ev = None) (boot_calls f) then 0 else 1),
     h @ until_error L (boot_calls f))"
proof -
  have "start_operator L f = in_order L (boot_calls f)"
    by (simp add: start_operator_def boot_calls_def SetupWithManager_def)
  then show ?thesis using assms in_order_run by (simp add: operator_main_def)
qed

theorem operator_main_spec_witness:
  "operator_main \<lparr>l_flag = \<lambda>_. None, l_set_flag = \<lambda>_ _. None,
       l_boot = (\<lambda>ev. if ev = ReadyzCheck ''readyz'' then Some ''taken'' else None)\<rparr> [''--leader-elect''] []
     = (Ret 1, [GetConfig, NewManager (options_of (default_flags\<lparr>enableLeaderElection := True\<rparr>)),
         Controller ''Agent'' [''StatefulSet''], HealthzCheck ''healthz'', ReadyzCheck ''readyz''])"
proof -
  let ?L = "\<lparr>l_flag = \<lambda>_. None, l_set_flag = \<lambda>_ _. None,
       l_boot = (\<lambda>ev. if ev = ReadyzCheck ''readyz'' then Some ''taken'' else None)\<rparr>"
  have "flag_Parse ?L [''--leader-elect''] default_flags
      = Inr (default_flags\<lparr>enableLeaderElection := True\<rparr>)"
    by (simp add: flag_word_def flag_kind_def set_flag_def ParseBool_def)
  from operator_main_spec [OF this, of "[]"] show ?thesis by (simp add: boot_calls_def)
qed

end
