(* ===== verification/Spec2Isabelle.thy ===== *)
theory Spec2Isabelle
  imports LimitGroup PortalAddr EnvConf DnsCache Terminal ReloadSections Report Reconciler DeepCopy
    OperatorMain
begin

text \<open>
  A model of erda-sourcecov: the operator that runs coverage agents in a cluster
  (\<open>controllers/\<close>, \<open>api/v1alpha1/\<close>) and the agent itself, which watches deployments,
  collects the execution data of their pods and reports coverage to a centre
  (\<open>agent/core/\<close>, \<open>agent/conf/\<close>, \<open>agent/pkg/\<close>).

  \<^bold>\<open>How code is represented.\<close> A Go function with effects is a function from a state to an
  outcome and the next state (\<open>GoMonad\<close>): it returns, panics, or waits for a mutex that
  nobody will release. An \<open>error\<close> is a returned value. Objects behind pointers live in the
  state under references, so two names of one object see each other's updates. The outside
  (files, commands, network, clock, cluster) answers by arbitrary functions of the history
  of events (\<open>env\<close> in \<open>AgentState\<close>, \<open>client\<close> in \<open>Reconciler\<close>); what a library documents
  about such an answer is a named hypothesis (\<open>retry_documented\<close>, \<open>order_documented\<close>,
  \<open>serves\<close>, \<open>keeps_identity\<close>), shown to be satisfiable by the examples of the witnesses.

  \<^bold>\<open>Shared theories.\<close> \<open>Prelude\<close> (rule collections, generic lemmas), \<open>GoStrings\<close> (\<open>strings\<close>,
  \<open>strconv\<close>), \<open>GoPath\<close> (\<open>path.Clean\<close>, \<open>filepath.Join\<close>), \<open>GoMonad\<close> (effects; locale
  \<open>frame_rel\<close>: relations every operation respects), \<open>Machine\<close> (transition systems; locales
  \<open>machine\<close>, \<open>live_machine\<close>), \<open>Goroutines\<close> (a pool of goroutines over one state; locale
  \<open>critical_sections\<close>: what follows when locks are taken and given back by single actions),
  \<open>Registry\<close> (locales for the laws of the two \<open>sync.Map\<close>s),
  \<open>KeyOrder\<close> (an order on map keys, for an executable \<open>Range\<close>).

  \<^bold>\<open>The agent.\<close>
    \<^item> \<open>LimitGroup\<close>: \<open>limit_wait_group/group.go\<close> and the goroutines of a round of dumps as a
      step relation. Lemmas: the invariant of the group, the bound on running dumps, that
      waiting waits for all, and that every run ends (a bound on the number of steps).
    \<^item> \<open>EnvConf\<close>: \<open>conf/envconf.go\<close>, \<open>conf/conf.go\<close>; when loading succeeds and with what.
    \<^item> \<open>HttpMessage\<close>, \<open>HttpRetry\<close>, \<open>HttpClient\<close>, \<open>InetUrl\<close>: \<open>httpclient/\<close> (options, requests,
      retries, answers, dialling, \<open>customhttp\<close>). \<open>DnsCache\<close>: the cache with interleaved lookups and
      refreshes. \<open>PortalAddr\<close>: the variable \<open>inetAddr\<close> of \<open>customhttp\<close>, its mutex, and the
      write that does not take it. \<open>Terminal\<close>: \<open>color_str\<close>, \<open>loading.go\<close>, \<open>trace.go\<close>, and
      that \<open>doRequest\<close> with a tracer and a progress line is \<open>doRequest\<close>.
    \<^item> \<open>AgentState\<close>: \<open>status.go\<close>, \<open>addr.go\<close>, \<open>file.go\<close>, the maps of jobs and services, the
      environment; \<open>Callback\<close>: \<open>callback.go\<close>.
    \<^item> \<open>Untar\<close> and \<open>Services\<close>: \<open>watcher.go\<close>. Lemmas: containment of an archive's files, no
      silent corruption; what each handler of the informer does to the map of services,
      and that loading jars gives its locks back on every path.
    \<^item> \<open>Dumps\<close> and \<open>Jobs\<close>: \<open>job.go\<close>. Lemmas: which pods a round reaches, what is merged and
      removed, how a job is saved, watched and failed, when its lock leaks. \<open>Report\<close>: the order
      of the events of a report that succeeds.
    \<^item> \<open>Agent\<close>: all handlers and goroutine turns as the steps of one machine; from the frame
      lemma of each operation follow the invariants of every reachable state (one live
      job, objects only age).
    \<^item> \<open>AgentProcess\<close> and \<open>ProcessSafety\<close>: \<open>agent/cmd/main.go\<close> and every goroutine of the
      agent as a list of actions that interleave at the locks, the sleeps and the calls of
      one another. Lemmas: one live job, exclusive sections under the lock of a job, that
      only a failing report loses this lock, that a lost lock blocks its waiters for ever
      and that a waiter for any other lock is served, and that the turns of \<open>Agent\<close> are runs
      of actions. \<open>ReloadSections\<close>: the lock of a service, which is held exactly while one
      goroutine reloads the object; it does not serialise the reloads of a service.

  \<^bold>\<open>The operator.\<close> \<open>Converter\<close>: the custom resource and \<open>controllers/converter.go\<close>;
  \<open>Reconciler\<close>: \<open>controllers/agent_controller.go\<close>. Lemmas: the objects made for an agent
  refer to each other consistently, an upsert is one abstract write to the store of the
  cluster, a creation keeps its order, and reconciling settles. \<open>DeepCopy\<close>: the deep copies
  (\<open>zz_generated.deepcopy.go\<close>) over a heap, which justifies agents as values elsewhere.
  \<open>OperatorMain\<close>: \<open>main.go\<close>, \<open>SetupWithManager\<close> and the registration of the types; lemmas: the
  flags, and the calls up to the first that fails.

  \<^bold>\<open>Termination and bounds.\<close> Every loop is structural recursion or a fold over a list, so no
  fuel occurs; a loop that is meant to run for ever is modelled by one of its turns, which
  is a step of the machine. The retry of \<open>retry.go\<close> recurs over its attempts;
  \<open>retry.RetryOnConflict\<close> of the Kubernetes library is a parameter which runs its function
  at least once and at most finitely often. Machine integers are words (\<open>uint64\<close>).

  \<^bold>\<open>Interleaving.\<close> In \<open>Dumps\<close> the goroutines of a round run one after the other; \<open>LimitGroup\<close>
  has their interleaving. In \<open>Agent\<close> one step is one whole turn of a goroutine; in
  \<open>AgentProcess\<close> other goroutines act between the actions of a turn, where a handler of the
  informer, the preloading (with its reloads), a poll, a round of dumps, a merge and the
  reading of jars are one action each. A
  \<open>go\<close> statement inside an action is an event of the trace, which makes the new goroutine.

  \<^bold>\<open>Not modelled.\<close> Logging; accessors that return a field (\<open>BackendClient\<close>, those of
  \<open>Response\<close>); declarations of package variables. Contents of images, class files and reports
  are produced by the tools the agent runs, which are not part of the repository; the
  controller runtime is a parameter of \<open>OperatorMain\<close> and \<open>Reconciler\<close>.
\<close>

end
